(* ===== verification/Saf_Prelude.thy ===== *)
theory Saf_Prelude
  imports Main "HOL-Library.Word" "HOL-Library.Sublist" "HOL-Library.List_Lexorder"
    "HOL-Library.Char_ord"
begin

text \<open>
  What the component theories share: the C++ standard library operations on strings that the
  service uses (find, rfind, substr, to_string), the ordered map std::map with its contract as
  a locale, 32-bit signed readings of machine words, the collections of facts the component proofs
  use, and the locale of systems whose work ends.
\<close>

named_theorems saf_defs \<open>definitions of the handlers, unfolded by the functional lemmas\<close>
named_theorems saf_inv \<open>preservation facts of the components' invariants\<close>

section \<open>Strings\<close>

text \<open>
  std::string is a list of characters. A result npos of find and rfind is None.
\<close>

fun str_find :: "string \<Rightarrow> string \<Rightarrow> nat option" where
  "str_find p [] = (if p = [] then Some 0 else None)"
| "str_find p (c # cs) = (if prefix p (c # cs) then Some 0 else map_option Suc (str_find p cs))"

definition str_contains :: "string \<Rightarrow> string \<Rightarrow> bool" where
  "str_contains p s \<longleftrightarrow> str_find p s \<noteq> None"

text \<open>\<open>s.find(p) == 0\<close>\<close>

definition str_starts :: "string \<Rightarrow> string \<Rightarrow> bool" where
  "str_starts p s \<longleftrightarrow> str_find p s = Some 0"

fun chr_find :: "char \<Rightarrow> string \<Rightarrow> nat option" where
  "chr_find c [] = None"
| "chr_find c (x # xs) = (if x = c then Some 0 else map_option Suc (chr_find c xs))"

fun chr_rfind :: "char \<Rightarrow> string \<Rightarrow> nat option" where
  "chr_rfind c [] = None"
| "chr_rfind c (x # xs) =
     (case chr_rfind c xs of Some n \<Rightarrow> Some (Suc n) | None \<Rightarrow> if x = c then Some 0 else None)"

text \<open>\<open>s.substr(s.rfind(c) + 1)\<close>: npos + 1 is 0, so a string without c is kept whole.\<close>

definition after_last :: "char \<Rightarrow> string \<Rightarrow> string" where
  "after_last c s = (case chr_rfind c s of None \<Rightarrow> s | Some n \<Rightarrow> drop (Suc n) s)"

text \<open>\<open>s.substr(0, s.rfind(c) + 1)\<close>\<close>

definition upto_last :: "char \<Rightarrow> string \<Rightarrow> string" where
  "upto_last c s = (case chr_rfind c s of None \<Rightarrow> [] | Some n \<Rightarrow> take (Suc n) s)"

text \<open>Decimal rendering (std::to_string of an unsigned value and of an int).\<close>

definition digit_chr :: "nat \<Rightarrow> char" where
  "digit_chr n = char_of (48 + n)"

fun nat_str :: "nat \<Rightarrow> string" where
  "nat_str n = (if n < 10 then [digit_chr n] else nat_str (n div 10) @ [digit_chr (n mod 10)])"

declare nat_str.simps [simp del]

definition int_str :: "int \<Rightarrow> string" where
  "int_str i = (if i < 0 then CHR ''-'' # nat_str (nat (- i)) else nat_str (nat i))"

lemma str_find_prefix [simp]: "str_find p s = Some 0 \<longleftrightarrow> prefix p s"
  by (cases s) auto

lemma str_starts_iff [simp]: "str_starts p s \<longleftrightarrow> prefix p s"
  by (simp add: str_starts_def)

lemma str_find_Some_split:
  "str_find p s = Some n \<Longrightarrow> \<exists>u v. s = u @ p @ v \<and> length u = n"
proof (induction p s arbitrary: n rule: str_find.induct)
  case (1 p)
  then show ?case by (auto split: if_splits)
next
  case (2 p c cs)
  show ?case
  proof (cases "prefix p (c # cs)")
    case True
    with "2.prems" have "n = 0" by simp
    moreover from True obtain v where "c # cs = p @ v" by (auto simp: prefix_def)
    ultimately show ?thesis by (intro exI [of _ "[]"] exI [of _ v]) simp
  next
    case False
    with "2.prems" obtain m where m: "str_find p cs = Some m" "n = Suc m" by auto
    with "2.IH" False obtain u v where "cs = u @ p @ v" "length u = m" by blast
    with m show ?thesis by (intro exI [of _ "c # u"] exI [of _ v]) simp
  qed
qed

lemma str_find_append: "str_find p (u @ p @ v) \<noteq> None"
proof (induction u)
  case Nil
  have "str_find p (p @ v) = Some 0" by simp
  then show ?case by (simp del: str_find_prefix)
qed auto

lemma str_contains_iff: "str_contains p s \<longleftrightarrow> (\<exists>u v. s = u @ p @ v)"
proof
  assume "str_contains p s"
  then obtain n where "str_find p s = Some n" by (auto simp: str_contains_def)
  then show "\<exists>u v. s = u @ p @ v" by (blast dest: str_find_Some_split)
next
  assume "\<exists>u v. s = u @ p @ v"
  then show "str_contains p s" using str_find_append by (auto simp: str_contains_def)
qed

lemma chr_find_None [simp]: "chr_find c s = None \<longleftrightarrow> c \<notin> set s"
  by (induction s) auto

lemma chr_find_append: "c \<notin> set u \<Longrightarrow> chr_find c (u @ c # v) = Some (length u)"
  by (induction u) auto

lemma chr_rfind_None [simp]: "chr_rfind c s = None \<longleftrightarrow> c \<notin> set s"
  by (induction s) (auto split: option.splits if_splits)

lemma chr_rfind_append: "c \<notin> set v \<Longrightarrow> chr_rfind c (u @ c # v) = Some (length u)"
proof (induction u)
  case Nil
  then show ?case by (simp split: option.splits)
qed auto

lemma after_last_append [simp]: "c \<notin> set v \<Longrightarrow> after_last c (u @ c # v) = v"
  by (simp add: after_last_def chr_rfind_append)

lemma upto_last_append [simp]: "c \<notin> set v \<Longrightarrow> upto_last c (u @ c # v) = u @ [c]"
  by (simp add: upto_last_def chr_rfind_append)

lemma chr_split_last:
  assumes "c \<in> set s"
  obtains u v where "s = u @ c # v" "c \<notin> set v"
  using split_list_last [OF assms] by blast

text \<open>std::stoi on a string of decimal digits.\<close>

definition str_nat :: "string \<Rightarrow> nat" where
  "str_nat s = foldl (\<lambda>a c. a * 10 + (of_char c - 48)) 0 s"

lemma of_char_digit: "n < 10 \<Longrightarrow> of_char (digit_chr n) = 48 + n"
  by (simp add: digit_chr_def)

lemma str_nat_nat_str [simp]: "str_nat (nat_str n) = n"
proof (induction n rule: nat_str.induct)
  case (1 n)
  show ?case
  proof (cases "n < 10")
    case True
    then show ?thesis
      by (simp add: nat_str.simps [of n] str_nat_def of_char_digit)
  next
    case False
    with 1 have "str_nat (nat_str (n div 10)) = n div 10" by simp
    with False show ?thesis
      by (simp add: nat_str.simps [of n] str_nat_def of_char_digit)
  qed
qed

lemma nat_str_inj [simp]: "nat_str m = nat_str n \<longleftrightarrow> m = n"
  by (metis str_nat_nat_str)

lemma str_find_char: "c \<notin> set u \<Longrightarrow> str_find [c] (u @ c # v) = Some (length u)"
  by (induction u) (auto simp del: str_find_prefix)

text \<open>Small numbers, for concrete runs.\<close>

lemma nat_str_small [simp]:
  "nat_str 0 = ''0''" "nat_str (Suc 0) = ''1''" "nat_str 2 = ''2''"
  by code_simp+

section \<open>Work that ends\<close>

text \<open>Steps that keep an invariant and use up a load: every run is bounded, and one can go on to rest.\<close>

locale bounded_work =
  fixes step :: "'s \<Rightarrow> 's \<Rightarrow> bool" and ok :: "'s \<Rightarrow> bool" and load :: "'s \<Rightarrow> nat"
  assumes keeps: "ok s \<Longrightarrow> step s s' \<Longrightarrow> ok s'"
    and works: "ok s \<Longrightarrow> step s s' \<Longrightarrow> load s' < load s"
begin

lemma run_bounded: "(step ^^ n) s s' \<Longrightarrow> ok s \<Longrightarrow> ok s' \<and> n + load s' \<le> load s"
proof (induction n arbitrary: s')
  case (Suc n)
  then obtain s1 where s1: "(step ^^ n) s s1" "step s1 s'" by auto
  with Suc.IH [OF s1(1) Suc.prems(2)] keeps [OF _ s1(2)] works [OF _ s1(2)] show ?case by auto
qed simp

lemma rest_reached: "ok s \<Longrightarrow> \<exists>s'. step\<^sup>*\<^sup>* s s' \<and> \<not> (\<exists>s''. step s' s'')"
proof (induction "load s" arbitrary: s rule: less_induct)
  case less
  show ?case
  proof (cases "\<exists>s1. step s s1")
    case True
    then obtain s1 where s1: "step s s1" by blast
    from less.hyps [OF works [OF less.prems s1] keeps [OF less.prems s1]] s1 show ?thesis
      by (meson converse_rtranclp_into_rtranclp)
  qed (use less.prems in blast)
qed

end

end
