(* ===== verification/Saf_Map.thy ===== *)
theory Saf_Map
  imports Saf_Prelude
begin

text \<open>
  std::map as the service uses it: an association list kept in ascending key order, so that the
  loops over a map visit the entries in the order the C++ loops do. The contract the providers
  rely on is the locale \<open>std_map\<close>; its interpretation \<open>om\<close> discharges it for this
  implementation, and the tables of the providers are used through it.
\<close>

section \<open>The contract\<close>

locale std_map =
  fixes find :: "'k \<Rightarrow> 'm \<Rightarrow> 'v option"
    and put :: "'k \<Rightarrow> 'v \<Rightarrow> 'm \<Rightarrow> 'm"
    and erase :: "'k \<Rightarrow> 'm \<Rightarrow> 'm"
    and clear :: "'m"
    and entries :: "'m \<Rightarrow> ('k \<times> 'v) list"
    and ok :: "'m \<Rightarrow> bool"
  assumes find_clear: "find k clear = None"
    and find_put: "find k (put k' v m) = (if k = k' then Some v else find k m)"
    and find_erase: "ok m \<Longrightarrow> find k (erase k' m) = (if k = k' then None else find k m)"
    and entries_find: "ok m \<Longrightarrow> (k, v) \<in> set (entries m) \<longleftrightarrow> find k m = Some v"
    and entries_distinct: "ok m \<Longrightarrow> distinct (map fst (entries m))"
    and ok_clear: "ok clear"
    and ok_put: "ok m \<Longrightarrow> ok (put k v m)"
    and ok_erase: "ok m \<Longrightarrow> ok (erase k m)"
begin

lemma find_put_same [simp]: "find k (put k v m) = Some v"
  by (simp add: find_put)

lemma find_put_other [simp]: "k \<noteq> k' \<Longrightarrow> find k (put k' v m) = find k m"
  by (simp add: find_put)

lemma find_put_defined: "find k m \<noteq> None \<Longrightarrow> find k (put k' v m) \<noteq> None"
  by (simp add: find_put)

lemma entries_put:
  assumes "ok m"
  shows "set (entries (put k v m)) = insert (k, v) {e \<in> set (entries m). fst e \<noteq> k}"
proof -
  have "e \<in> set (entries (put k v m)) \<longleftrightarrow> e = (k, v) \<or> (e \<in> set (entries m) \<and> fst e \<noteq> k)" for e
    using assms by (cases e) (auto simp: entries_find ok_put find_put)
  then show ?thesis by blast
qed

lemma entries_erase:
  assumes "ok m"
  shows "set (entries (erase k m)) = {e \<in> set (entries m). fst e \<noteq> k}"
proof -
  have "e \<in> set (entries (erase k m)) \<longleftrightarrow> e \<in> set (entries m) \<and> fst e \<noteq> k" for e
    using assms by (cases e) (auto simp: entries_find ok_erase find_erase)
  then show ?thesis by blast
qed

text \<open>Copying a map entry by entry (the loop of setDriveDetails) copies its lookups.\<close>

definition copy_into :: "('k \<times> 'v) list \<Rightarrow> 'm \<Rightarrow> 'm" where
  "copy_into es m = fold (\<lambda>e. put (fst e) (snd e)) es m"

lemma ok_copy_into: "ok m \<Longrightarrow> ok (copy_into es m)"
  unfolding copy_into_def by (induction es arbitrary: m) (auto simp: ok_put)

lemma find_copy_into:
  "distinct (map fst es) \<Longrightarrow>
   find k (copy_into es m) = (case map_of es k of Some v \<Rightarrow> Some v | None \<Rightarrow> find k m)"
proof (induction es arbitrary: m)
  case Nil
  then show ?case by (simp add: copy_into_def)
next
  case (Cons e es)
  have "find k (copy_into (e # es) m) = find k (copy_into es (put (fst e) (snd e) m))"
    by (simp add: copy_into_def)
  also have "\<dots> = (case map_of es k of Some v \<Rightarrow> Some v | None \<Rightarrow> find k (put (fst e) (snd e) m))"
    using Cons.prems by (intro Cons.IH) simp
  also have "\<dots> = (case map_of (e # es) k of Some v \<Rightarrow> Some v | None \<Rightarrow> find k m)"
    using Cons.prems
    by (cases e; cases "fst e = k") (simp_all add: find_put map_of_eq_None_iff [THEN iffD2] split: option.splits)
  finally show ?case .
qed

lemma find_copy_all: "ok m \<Longrightarrow> find k (copy_into (entries m) clear) = find k m"
  using entries_find [of m k] entries_distinct [of m]
  by (cases "find k m") (auto simp: find_copy_into find_clear map_of_eq_None_iff split: option.splits)

end

section \<open>The implementation: ascending association lists\<close>

type_synonym ('k, 'v) omap = "('k \<times> 'v) list"

definition omap_find :: "'k \<Rightarrow> ('k, 'v) omap \<Rightarrow> 'v option" where
  "omap_find k m = map_of m k"

fun omap_put :: "'k::linorder \<Rightarrow> 'v \<Rightarrow> ('k, 'v) omap \<Rightarrow> ('k, 'v) omap" where
  "omap_put k v [] = [(k, v)]"
| "omap_put k v (e # m) =
     (if fst e < k then e # omap_put k v m else if fst e = k then (k, v) # m else (k, v) # e # m)"

definition omap_erase :: "'k \<Rightarrow> ('k, 'v) omap \<Rightarrow> ('k, 'v) omap" where
  "omap_erase k m = filter (\<lambda>e. fst e \<noteq> k) m"

definition omap_ok :: "('k::linorder, 'v) omap \<Rightarrow> bool" where
  "omap_ok m \<longleftrightarrow> sorted_wrt (<) (map fst m)"

text \<open>\<open>m[k]\<close> on a map of strings: operator[] gives the empty string for an absent key.\<close>

definition omap_at :: "'k \<Rightarrow> ('k, string) omap \<Rightarrow> string" where
  "omap_at k m = (case omap_find k m of Some v \<Rightarrow> v | None \<Rightarrow> [])"

text \<open>The side effect of \<open>m[k]\<close>: an absent key is inserted with the empty string.\<close>

definition omap_touch :: "'k::linorder \<Rightarrow> ('k, string) omap \<Rightarrow> ('k, string) omap" where
  "omap_touch k m = (if omap_find k m = None then omap_put k [] m else m)"

lemma omap_put_keys: "fst ` set (omap_put k v m) = insert k (fst ` set m)"
  by (induction m) auto

lemma omap_find_put: "omap_find k (omap_put k' v m) = (if k = k' then Some v else omap_find k m)"
  by (induction m) (auto simp: omap_find_def)

lemma omap_ok_put: "omap_ok m \<Longrightarrow> omap_ok (omap_put k v m)"
proof (induction m)
  case (Cons e m)
  show ?case
  proof (cases "fst e < k")
    case True
    with Cons show ?thesis using omap_put_keys [of k v m] by (auto simp: omap_ok_def)
  qed (use Cons in \<open>auto simp: omap_ok_def\<close>)
qed (simp add: omap_ok_def)

lemma omap_ok_erase: "omap_ok m \<Longrightarrow> omap_ok (omap_erase k m)"
  by (induction m) (auto simp: omap_ok_def omap_erase_def)

lemma omap_ok_distinct: "omap_ok m \<Longrightarrow> distinct (map fst m)"
  by (simp add: omap_ok_def strict_sorted_iff)

lemma omap_find_erase: "omap_find k (omap_erase k' m) = (if k = k' then None else omap_find k m)"
  by (induction m) (auto simp: omap_find_def omap_erase_def)

interpretation om: std_map omap_find omap_put omap_erase "[]" "\<lambda>m. m"
  "omap_ok :: ('k::linorder, 'v) omap \<Rightarrow> bool"
proof unfold_locales
  fix m :: "('k, 'v) omap" and k v
  assume "omap_ok m"
  then show "(k, v) \<in> set m \<longleftrightarrow> omap_find k m = Some v"
    by (simp add: omap_find_def omap_ok_distinct)
qed (simp_all add: omap_find_put omap_find_erase omap_ok_put omap_ok_erase omap_ok_distinct,
     simp_all add: omap_find_def omap_ok_def)

lemma omap_at_put: "omap_at k (omap_put k' v m) = (if k = k' then v else omap_at k m)"
  by (simp add: omap_at_def om.find_put)

lemma omap_copy [simp]: "omap_ok m \<Longrightarrow> fold (\<lambda>e. omap_put (fst e) (snd e)) m [] = m"
proof (induction m rule: rev_induct)
  case (snoc e m)
  have "omap_put k v m = m @ [(k, v)]" if "\<forall>k' \<in> fst ` set m. k' < k" for k v
    using that by (induction m) auto
  with snoc show ?case by (auto simp: omap_ok_def sorted_wrt_append image_iff)
qed simp

end
