(* ===== verification/Saf_Json.thy ===== *)
theory Saf_Json
  imports Saf_Prelude
begin

text \<open>
  The JSON values the service exchanges (pbnjson::JValue): finite trees, an object being its
  list of members in insertion order. put, hasKey, operator[] and append are the library's
  documented operations on such trees. What the library does beyond the documented cases is
  not in the repository and is a parameter, the record \<open>pbn\<close>: parsing a payload, validating it
  against a schema, and reading a value as a type it does not have.
\<close>

section \<open>Values\<close>

datatype json =
    JNull
  | JBool bool
  | JNum int
  | JRaw string  \<comment> \<open>a number that is not a 64-bit integer, kept as its text\<close>
  | JStr string
  | JArr "json list"
  | JObj "(string \<times> json) list"

abbreviation jobject :: json where
  "jobject \<equiv> JObj []"

abbreviation jarray :: json where
  "jarray \<equiv> JArr []"

fun members_put :: "string \<Rightarrow> json \<Rightarrow> (string \<times> json) list \<Rightarrow> (string \<times> json) list" where
  "members_put k v [] = [(k, v)]"
| "members_put k v (e # es) = (if fst e = k then (k, v) # es else e # members_put k v es)"

text \<open>JValue::put; on a value that is not an object it fails and changes nothing.\<close>

fun jput :: "string \<Rightarrow> json \<Rightarrow> json \<Rightarrow> json" where
  "jput k v (JObj es) = JObj (members_put k v es)"
| "jput k v j = j"

fun jfind :: "json \<Rightarrow> string \<Rightarrow> json option" where
  "jfind (JObj es) k = map_of es k"
| "jfind j k = None"

definition hasKey :: "json \<Rightarrow> string \<Rightarrow> bool" where
  "hasKey j k \<longleftrightarrow> jfind j k \<noteq> None"

text \<open>\<open>j[k]\<close>, the null value when j has no such member.\<close>

definition jget :: "json \<Rightarrow> string \<Rightarrow> json" where
  "jget j k = (case jfind j k of Some v \<Rightarrow> v | None \<Rightarrow> JNull)"

fun isArray :: "json \<Rightarrow> bool" where
  "isArray (JArr xs) = True"
| "isArray j = False"

fun isString :: "json \<Rightarrow> bool" where
  "isString (JStr s) = True"
| "isString j = False"

fun isNull :: "json \<Rightarrow> bool" where
  "isNull JNull = True"
| "isNull j = False"

fun elements :: "json \<Rightarrow> json list" where
  "elements (JArr xs) = xs"
| "elements j = []"

definition arraySize :: "json \<Rightarrow> nat" where
  "arraySize j = length (elements j)"

text \<open>\<open>j[i]\<close> on an array.\<close>

definition jidx :: "json \<Rightarrow> nat \<Rightarrow> json" where
  "jidx j i = (if i < arraySize j then elements j ! i else JNull)"

text \<open>JValue::append; on a value that is not an array it fails and changes nothing.\<close>

fun jappend :: "json \<Rightarrow> json \<Rightarrow> json" where
  "jappend (JArr xs) v = JArr (xs @ [v])"
| "jappend j v = j"

text \<open>A sequence of put calls on one object.\<close>

definition jputs :: "(string \<times> json) list \<Rightarrow> json \<Rightarrow> json" where
  "jputs kvs j = fold (\<lambda>e. jput (fst e) (snd e)) kvs j"

section \<open>Schemas\<close>

text \<open>
  The fragment of JSON schema the macros of SAFLunaUtils.h build: a property has a primitive
  type (with an enumeration of one boolean for PROP_WITH_VAL_1) or is an object with
  properties of its own and no restriction on others; STRICT_SCHEMA closes the top level and
  lists the required names.
\<close>

datatype prop_type =
    TString
  | TInteger
  | TBoolean
  | TBoolEnum bool
  | TObject "(string \<times> prop_type) list"

record schema =
  properties :: "(string \<times> prop_type) list"
  required :: "string list"

fun conforms_type :: "prop_type \<Rightarrow> json \<Rightarrow> bool" where
  "conforms_type TString j = (case j of JStr _ \<Rightarrow> True | _ \<Rightarrow> False)"
| "conforms_type TInteger j = (case j of JNum _ \<Rightarrow> True | _ \<Rightarrow> False)"
| "conforms_type TBoolean j = (case j of JBool _ \<Rightarrow> True | _ \<Rightarrow> False)"
| "conforms_type (TBoolEnum b) j = (j = JBool b)"
| "conforms_type (TObject ps) j =
     (case j of
        JObj es \<Rightarrow> list_all (\<lambda>p. case map_of es (fst p) of None \<Rightarrow> True | Some v \<Rightarrow> conforms_type (snd p) v) ps
      | _ \<Rightarrow> False)"

text \<open>The documented meaning of a strict schema.\<close>

definition conforms :: "schema \<Rightarrow> json \<Rightarrow> bool" where
  "conforms s j =
     (case j of
        JObj es \<Rightarrow>
          list_all (\<lambda>e. case map_of (properties s) (fst e) of
              None \<Rightarrow> False | Some t \<Rightarrow> conforms_type t (snd e)) es
          \<and> list_all (\<lambda>k. map_of es k \<noteq> None) (required s)
      | _ \<Rightarrow> False)"

section \<open>The library's parser and conversions\<close>

record pbn =
  dom_parse :: "string \<Rightarrow> json option"     \<comment> \<open>JDomParser with the all-accepting schema\<close>
  schema_ok :: "schema \<Rightarrow> json \<Rightarrow> bool"  \<comment> \<open>the validator\<close>
  conv_string :: "json \<Rightarrow> string"           \<comment> \<open>asString of a value that is not a string\<close>
  conv_int :: "json \<Rightarrow> 32 word"             \<comment> \<open>asNumber<int> of a value that is not an int\<close>
  conv_bool :: "json \<Rightarrow> bool"               \<comment> \<open>asBool of a value that is not a boolean\<close>

definition asString :: "'a pbn_scheme \<Rightarrow> json \<Rightarrow> string" where
  "asString pf j = (case j of JStr s \<Rightarrow> s | _ \<Rightarrow> conv_string pf j)"

definition asInt :: "'a pbn_scheme \<Rightarrow> json \<Rightarrow> 32 word" where
  "asInt pf j = (case j of
     JNum n \<Rightarrow> if - (2 ^ 31) \<le> n \<and> n < 2 ^ 31 then word_of_int n else conv_int pf j
   | _ \<Rightarrow> conv_int pf j)"

definition asBool :: "'a pbn_scheme \<Rightarrow> json \<Rightarrow> bool" where
  "asBool pf j = (case j of JBool b \<Rightarrow> b | _ \<Rightarrow> conv_bool pf j)"

text \<open>
  The two documented facts the service relies on: the validator accepts only values that
  conform to the schema, and an absent (null) value reads as the empty string and as false.
\<close>

definition pbn_ok :: "'a pbn_scheme \<Rightarrow> bool" where
  "pbn_ok pf \<longleftrightarrow>
     (\<forall>s j. schema_ok pf s j \<longrightarrow> conforms s j) \<and> conv_string pf JNull = [] \<and> \<not> conv_bool pf JNull"

section \<open>Facts about objects\<close>

lemma map_of_members_put: "map_of (members_put k v es) k' = (if k' = k then Some v else map_of es k')"
  by (induction es) auto

fun isObject :: "json \<Rightarrow> bool" where
  "isObject (JObj es) = True"
| "isObject j = False"

lemma isObject_jput [simp]: "isObject (jput k v j) = isObject j"
  by (cases j) auto

lemma jfind_jput [simp]:
  "isObject j \<Longrightarrow> jfind (jput k v j) k' = (if k' = k then Some v else jfind j k')"
  by (cases j) (auto simp: map_of_members_put)

declare jput.simps [simp del]

lemma jget_jput [simp]: "isObject j \<Longrightarrow> jget (jput k v j) k' = (if k' = k then v else jget j k')"
  by (simp add: jget_def)

lemma hasKey_jput [simp]: "isObject j \<Longrightarrow> hasKey (jput k v j) k' \<longleftrightarrow> k' = k \<or> hasKey j k'"
  by (simp add: hasKey_def)

lemma jget_empty [simp]: "jget (JObj []) k = JNull"
  by (simp add: jget_def)

lemma hasKey_empty [simp]: "\<not> hasKey (JObj []) k"
  by (simp add: hasKey_def)

lemma jputs_Nil [simp]: "jputs [] j = j"
  by (simp add: jputs_def)

lemma jputs_Cons [simp]: "jputs (e # es) j = jputs es (jput (fst e) (snd e) j)"
  by (simp add: jputs_def)

lemma asString_JStr [simp]: "asString pf (JStr s) = s"
  by (simp add: asString_def)

lemma asBool_JBool [simp]: "asBool pf (JBool b) = b"
  by (simp add: asBool_def)

lemma asString_JNull [simp]: "pbn_ok pf \<Longrightarrow> asString pf JNull = []"
  by (simp add: asString_def pbn_ok_def)

lemma asBool_JNull [simp]: "pbn_ok pf \<Longrightarrow> \<not> asBool pf JNull"
  by (simp add: asBool_def pbn_ok_def)

lemma jget_JNull [simp]: "jget JNull k = JNull"
  by (simp add: jget_def)

lemma hasKey_jget: "\<not> hasKey j k \<Longrightarrow> jget j k = JNull"
  by (simp add: hasKey_def jget_def)

text \<open>What a strict schema gives: a required string member is there and is a string.\<close>

lemma conforms_string:
  assumes "conforms s j" "k \<in> set (required s)" "map_of (properties s) k = Some TString"
  shows "\<exists>v. jfind j k = Some (JStr v)"
proof -
  obtain es where es: "j = JObj es"
    and all: "\<forall>e \<in> set es. case map_of (properties s) (fst e) of
                 None \<Rightarrow> False | Some t \<Rightarrow> conforms_type t (snd e)"
    and req: "\<forall>k \<in> set (required s). map_of es k \<noteq> None"
    using assms(1) by (auto simp: conforms_def list_all_iff split: json.splits)
  from req assms(2) obtain v where v: "map_of es k = Some v" by blast
  then have "(k, v) \<in> set es" by (rule map_of_SomeD)
  with all have "conforms_type TString v" using assms(3) by fastforce
  with es v show ?thesis by (cases v) auto
qed

lemma conforms_object: "conforms s j \<Longrightarrow> \<exists>es. j = JObj es"
  by (auto simp: conforms_def split: json.splits)

end
