(* ===== verification/Saf_Errors.thy ===== *)
theory Saf_Errors
  imports Saf_Prelude
begin

text \<open>
  The error codes of SAFErrors.h, the four text tables with their lookups (SAFErros.cpp), the
  status codes of the file operations and their translation getInternalErrorCode
  (SAFUtilityOperation).
\<close>

section \<open>Codes\<close>

datatype saf_error =
    UNKNOWN_ERROR | SERVICE_NOT_READY | INIT_ERROR | INVALID_PARAM | SAF_INTERNAL_ERROR
  | SAF_MEMORY_ERROR | PARAM_MISSING | LANG_NOT_SUPPORTED | SERVICE_ALREADY_RUNNING
  | INVALID_JSON_FORMAT | INPUT_TEXT_EMPTY | ERROR_NONE | INVALID_COMMAND
  | STORAGE_TYPE_NOT_SUPPORTED | INVALID_PATH | INVALID_SOURCE_PATH | INVALID_DEST_PATH
  | FILE_ALREADY_EXISTS | NO_ERROR | PERMISSION_DENIED | SAF_ERROR_NOT_SUPPORTED

primrec saf_code :: "saf_error \<Rightarrow> int" where
  "saf_code UNKNOWN_ERROR = 8000"
| "saf_code SERVICE_NOT_READY = 8001"
| "saf_code INIT_ERROR = 8002"
| "saf_code INVALID_PARAM = 8003"
| "saf_code SAF_INTERNAL_ERROR = 8004"
| "saf_code SAF_MEMORY_ERROR = 8005"
| "saf_code PARAM_MISSING = 8006"
| "saf_code LANG_NOT_SUPPORTED = 8007"
| "saf_code SERVICE_ALREADY_RUNNING = 8008"
| "saf_code INVALID_JSON_FORMAT = 8009"
| "saf_code INPUT_TEXT_EMPTY = 8010"
| "saf_code ERROR_NONE = 8011"
| "saf_code INVALID_COMMAND = 8012"
| "saf_code STORAGE_TYPE_NOT_SUPPORTED = 8013"
| "saf_code INVALID_PATH = 8014"
| "saf_code INVALID_SOURCE_PATH = 8015"
| "saf_code INVALID_DEST_PATH = 8016"
| "saf_code FILE_ALREADY_EXISTS = 8017"
| "saf_code NO_ERROR = 8018"
| "saf_code PERMISSION_DENIED = 8019"
| "saf_code SAF_ERROR_NOT_SUPPORTED = 8282"

datatype saf_config_error =
    SAF_CONFIG_ERROR_NONE | SAF_CONFIG_ERROR_LOAD | SAF_CONFIG_ERROR_NOCATEGORY | SAF_CONFIG_ERROR_NOKEY

primrec config_code :: "saf_config_error \<Rightarrow> int" where
  "config_code SAF_CONFIG_ERROR_NONE = 2000"
| "config_code SAF_CONFIG_ERROR_LOAD = 2001"
| "config_code SAF_CONFIG_ERROR_NOCATEGORY = 2002"
| "config_code SAF_CONFIG_ERROR_NOKEY = 2003"

datatype cloud_error =
    ATTACH_NOT_DONE | AUTHENTICATION_NOT_DONE | ALREADY_AUTHENTICATED | INVALID_URL | INVALID_FILE

primrec cloud_code :: "cloud_error \<Rightarrow> int" where
  "cloud_code ATTACH_NOT_DONE = 6000"
| "cloud_code AUTHENTICATION_NOT_DONE = 6001"
| "cloud_code ALREADY_AUTHENTICATED = 6002"
| "cloud_code INVALID_URL = 6003"
| "cloud_code INVALID_FILE = 6004"

datatype usb_error =
    MORE_PARTITIONS_IN_USB | USB_STORAGE_NOT_EXISTS | USB_SUB_STORAGE_NOT_EXISTS
  | MORE_ATTACHED_STORAGES_THAN_USB | DRIVE_NOT_MOUNTED | USB_DRIVE_ALREADY_EJECTED

primrec usb_code :: "usb_error \<Rightarrow> int" where
  "usb_code MORE_PARTITIONS_IN_USB = 9000"
| "usb_code USB_STORAGE_NOT_EXISTS = 9001"
| "usb_code USB_SUB_STORAGE_NOT_EXISTS = 9002"
| "usb_code MORE_ATTACHED_STORAGES_THAN_USB = 9003"
| "usb_code DRIVE_NOT_MOUNTED = 9004"
| "usb_code USB_DRIVE_ALREADY_EJECTED = 9005"

section \<open>Texts\<close>

definition mSAFErrorTextTable :: "(int \<times> string) list" where
  "mSAFErrorTextTable =
     [(saf_code SAF_ERROR_NOT_SUPPORTED, ''Not supported yet''),
      (config_code SAF_CONFIG_ERROR_NONE, ''Configuration success''),
      (config_code SAF_CONFIG_ERROR_LOAD, ''Failed to load config file''),
      (config_code SAF_CONFIG_ERROR_NOCATEGORY, ''No category foud in config''),
      (config_code SAF_CONFIG_ERROR_NOKEY, ''No valid found in config''),
      (saf_code UNKNOWN_ERROR, ''Unknown error''),
      (saf_code SERVICE_NOT_READY, ''Service is not ready''),
      (saf_code INIT_ERROR, ''Initialize error''),
      (saf_code INVALID_PARAM, ''Invalid parameter''),
      (saf_code SAF_INTERNAL_ERROR, ''Internal error''),
      (saf_code SAF_MEMORY_ERROR, ''Memory Allocation Error''),
      (saf_code PARAM_MISSING, ''Required parameter is missing''),
      (saf_code SERVICE_ALREADY_RUNNING, ''Service is already running''),
      (saf_code INVALID_JSON_FORMAT, ''Invalid JSON format''),
      (saf_code INPUT_TEXT_EMPTY, ''Input text must not be empty''),
      (saf_code ERROR_NONE, ''No error''),
      (saf_code INVALID_PATH, ''No such file or directory''),
      (saf_code INVALID_SOURCE_PATH, ''No such file or directory at source''),
      (saf_code INVALID_DEST_PATH, ''No such file or directory at destination''),
      (saf_code FILE_ALREADY_EXISTS, ''File Exists''),
      (saf_code NO_ERROR, ''No Error''),
      (saf_code PERMISSION_DENIED, ''Permission Denied''),
      (saf_code STORAGE_TYPE_NOT_SUPPORTED, ''Operation not permitted'')]"

definition mInternalErrorTextTable :: "(int \<times> string) list" where
  "mInternalErrorTextTable =
     [(saf_code UNKNOWN_ERROR, ''Internal Unknown Error''),
      (saf_code INVALID_PARAM, ''Invalid Internal Parameters''),
      (saf_code INVALID_PATH, ''Invalid Internal Path''),
      (saf_code INVALID_SOURCE_PATH, ''Invalid Internal Source Path''),
      (saf_code INVALID_DEST_PATH, ''Invalid Internal Destination Path''),
      (saf_code FILE_ALREADY_EXISTS, ''Internal File Already Exists''),
      (saf_code PERMISSION_DENIED, ''Internal File Permission Denied''),
      (saf_code NO_ERROR, ''Internal No Error'')]"

definition mCloudErrorTextTable :: "(int \<times> string) list" where
  "mCloudErrorTextTable =
     [(saf_code UNKNOWN_ERROR, ''Cloud Unknown Error''),
      (saf_code INVALID_PARAM, ''Invalid Cloud Parameters''),
      (saf_code INVALID_PATH, ''Invalid Cloud Path''),
      (saf_code INVALID_SOURCE_PATH, ''Invalid Cloud Source Path''),
      (saf_code INVALID_DEST_PATH, ''Invalid Cloud Destination Path''),
      (saf_code FILE_ALREADY_EXISTS, ''Cloud File Already Exists''),
      (cloud_code ATTACH_NOT_DONE, ''Attach Cloud Not Done''),
      (cloud_code AUTHENTICATION_NOT_DONE, ''Permission Denied''),
      (cloud_code ALREADY_AUTHENTICATED, ''Already Authenticated''),
      (cloud_code INVALID_URL, ''Invalid URL''),
      (cloud_code INVALID_FILE, ''File Not Supported'')]"

definition mUSBErrorTextTable :: "(int \<times> string) list" where
  "mUSBErrorTextTable =
     [(saf_code SAF_ERROR_NOT_SUPPORTED, ''USB not supported''),
      (saf_code UNKNOWN_ERROR, ''USB unknown error''),
      (usb_code MORE_PARTITIONS_IN_USB, ''USB Storage has more partitions''),
      (usb_code USB_STORAGE_NOT_EXISTS, ''No USB Storage Exists with ID given''),
      (usb_code USB_SUB_STORAGE_NOT_EXISTS, ''No USB drive found''),
      (usb_code MORE_ATTACHED_STORAGES_THAN_USB, ''More attached storages apart from USB''),
      (saf_code INVALID_PATH, ''Invalid USB Path''),
      (saf_code INVALID_SOURCE_PATH, ''Invalid USB Source Path''),
      (saf_code INVALID_DEST_PATH, ''Invalid USB Destination Path''),
      (saf_code FILE_ALREADY_EXISTS, ''USB File Already Exists''),
      (usb_code DRIVE_NOT_MOUNTED, ''USB Drive Not Mounted''),
      (saf_code NO_ERROR, ''USB No error''),
      (usb_code USB_DRIVE_ALREADY_EJECTED, ''Drive Already Ejected'')]"

definition table_text :: "(int \<times> string) list \<Rightarrow> int \<Rightarrow> string" where
  "table_text t code = (case map_of t code of Some s \<Rightarrow> s | None \<Rightarrow> ''Unknown Error'')"

definition getSAFErrorString :: "int \<Rightarrow> string" where
  "getSAFErrorString errorCode = table_text mSAFErrorTextTable errorCode"

definition getInternalErrorString :: "int \<Rightarrow> string" where
  "getInternalErrorString errorCode = table_text mInternalErrorTextTable errorCode"

definition getCloudErrorString :: "int \<Rightarrow> string" where
  "getCloudErrorString errorCode = table_text mCloudErrorTextTable errorCode"

definition getUSBErrorString :: "int \<Rightarrow> string" where
  "getUSBErrorString errorCode = table_text mUSBErrorTextTable errorCode"

section \<open>Status codes of the file operations\<close>

text \<open>The enumeration InternalOperErrors; a status is the code or a progress value.\<close>

datatype oper_error =
    OP_NO_ERROR | OP_UNKNOWN | OP_INVALID_PATH | OP_INVALID_SOURCE_PATH | OP_INVALID_DEST_PATH
  | OP_FILE_ALREADY_EXISTS | OP_PERMISSION_DENIED | OP_SUCCESS

primrec op_code :: "oper_error \<Rightarrow> int" where
  "op_code OP_NO_ERROR = 0"
| "op_code OP_UNKNOWN = -1"
| "op_code OP_INVALID_PATH = -2"
| "op_code OP_INVALID_SOURCE_PATH = -3"
| "op_code OP_INVALID_DEST_PATH = -4"
| "op_code OP_FILE_ALREADY_EXISTS = -5"
| "op_code OP_PERMISSION_DENIED = -6"
| "op_code OP_SUCCESS = 100"

definition convMap :: "(int \<times> int) list" where
  "convMap =
     [(op_code OP_NO_ERROR, saf_code NO_ERROR),
      (op_code OP_UNKNOWN, saf_code UNKNOWN_ERROR),
      (op_code OP_INVALID_PATH, saf_code INVALID_PATH),
      (op_code OP_INVALID_SOURCE_PATH, saf_code INVALID_SOURCE_PATH),
      (op_code OP_INVALID_DEST_PATH, saf_code INVALID_DEST_PATH),
      (op_code OP_FILE_ALREADY_EXISTS, saf_code FILE_ALREADY_EXISTS),
      (op_code OP_PERMISSION_DENIED, saf_code PERMISSION_DENIED),
      (op_code OP_SUCCESS, saf_code NO_ERROR)]"

definition getInternalErrorCode :: "int \<Rightarrow> int" where
  "getInternalErrorCode errorCode =
     (case map_of convMap errorCode of Some c \<Rightarrow> c | None \<Rightarrow> saf_code UNKNOWN_ERROR)"

text \<open>The failing statuses an operation object can hold.\<close>

definition op_failure :: "int \<Rightarrow> bool" where
  "op_failure st \<longleftrightarrow>
     st \<in> {op_code OP_INVALID_PATH, op_code OP_INVALID_SOURCE_PATH, op_code OP_INVALID_DEST_PATH,
           op_code OP_FILE_ALREADY_EXISTS, op_code OP_PERMISSION_DENIED}"

lemma op_failure_neg: "op_failure st \<Longrightarrow> st < 0"
  by (auto simp: op_failure_def)

lemma saf_code_inj: "saf_code a = saf_code b \<Longrightarrow> a = b"
  by (cases a; cases b) simp_all

lemma internal_code_simps [simp]:
  "getInternalErrorCode (- 2) = 8014" "getInternalErrorCode (- 3) = 8015"
  "getInternalErrorCode (- 4) = 8016" "getInternalErrorCode (- 5) = 8017"
  "getInternalErrorCode (- 6) = 8019"
  by (simp_all add: getInternalErrorCode_def convMap_def)

text \<open>
  Every failure of a file operation has a text of its own in the internal provider's table; in the
  table of the USB provider a denied permission, and nothing else, falls to the text for codes
  that are not in the table.
\<close>

theorem failure_texts:
  assumes "op_failure st"
  shows "getInternalErrorString (getInternalErrorCode st) \<noteq> ''Unknown Error''
     \<and> (getUSBErrorString (getInternalErrorCode st) = ''Unknown Error'' \<longleftrightarrow> st = op_code OP_PERMISSION_DENIED)"
  using assms
  by (auto simp: op_failure_def getInternalErrorString_def getUSBErrorString_def table_text_def
      mInternalErrorTextTable_def mUSBErrorTextTable_def)

theorem failure_texts_witness:
  "getUSBErrorString (getInternalErrorCode (op_code OP_PERMISSION_DENIED)) = ''Unknown Error''"
  using failure_texts [of "op_code OP_PERMISSION_DENIED"] by (simp add: op_failure_def)

end
