(* ===== verification/Saf_Filesystem.thy ===== *)
theory Saf_Filesystem
  imports Saf_Json
begin

text \<open>
  std::filesystem as the service uses it. The file system is a list of nodes under canonical
  component paths, in directory order. A path string is resolved component by component,
  following symbolic links with the kernel's budget of 40. A call throws (\<open>Filesystem_error\<close>)
  where the standard says so; failures that depend on the system alone (permissions, a full or
  faulty disk) are decided by the record \<open>platform\<close>, a failing update leaving whatever state
  the platform says.
\<close>

section \<open>Nodes and paths\<close>

record fmeta =
  ctime_text :: string    \<comment> \<open>the modification time as ctime prints it\<close>
  owner_write :: bool
  group_write :: bool

datatype fnode = File fmeta string | Dir fmeta | Link string

type_synonym fpath = "string list"
type_synonym fsys = "(fpath \<times> fnode) list"

definition root_meta :: fmeta where
  "root_meta = \<lparr>ctime_text = [], owner_write = True, group_write = False\<rparr>"

definition node_at :: "fsys \<Rightarrow> fpath \<Rightarrow> fnode option" where
  "node_at fs q = (if q = [] then Some (Dir root_meta) else map_of fs q)"

fun is_dir_node :: "fnode option \<Rightarrow> bool" where
  "is_dir_node (Some (Dir _)) = True"
| "is_dir_node _ = False"

fun is_file_node :: "fnode option \<Rightarrow> bool" where
  "is_file_node (Some (File _ _)) = True"
| "is_file_node _ = False"

fun is_link_node :: "fnode option \<Rightarrow> bool" where
  "is_link_node (Some (Link _)) = True"
| "is_link_node _ = False"

fun split_slash :: "string \<Rightarrow> string list" where
  "split_slash [] = [[]]"
| "split_slash (c # cs) =
     (if c = CHR ''/'' then [] # split_slash cs
      else (case split_slash cs of [] \<Rightarrow> [[c]] | p # ps \<Rightarrow> (c # p) # ps))"

definition comps :: "string \<Rightarrow> string list" where
  "comps s = filter (\<lambda>p. p \<noteq> [] \<and> p \<noteq> ''.'') (split_slash s)"

definition path_join :: "string \<Rightarrow> string \<Rightarrow> string" where
  "path_join p n = (if p = [] \<or> last p = CHR ''/'' then p @ n else p @ CHR ''/'' # n)"

text \<open>
  \<open>walk b fs q cs\<close> resolves the components cs from the canonical directory q with b links left;
  None is ELOOP. A component that does not exist is kept: the caller looks the result up.
\<close>

function walk :: "nat \<Rightarrow> fsys \<Rightarrow> fpath \<Rightarrow> string list \<Rightarrow> fpath option" where
  "walk b fs q [] = Some q"
| "walk b fs q (c # cs) =
     (if c = ''..'' then walk b fs (butlast q) cs
      else (case node_at fs (q @ [c]) of
          Some (Link t) \<Rightarrow>
            (if b = 0 then None
             else walk (b - 1) fs (if prefix ''/'' t then [] else q) (comps t @ cs))
        | _ \<Rightarrow> walk b fs (q @ [c]) cs))"
  by pat_completeness auto
termination
  by (relation "measures [\<lambda>(b, fs, q, cs). b, \<lambda>(b, fs, q, cs). length cs]") auto

definition max_links :: nat where "max_links = 40"
definition path_max :: nat where "path_max = 4096"

definition resolve :: "fsys \<Rightarrow> string \<Rightarrow> fpath option" where
  "resolve fs p = walk max_links fs [] (comps p)"

text \<open>Resolution that keeps a final symbolic link (symlink_status, rename, remove_all).\<close>

definition resolve_nofollow :: "fsys \<Rightarrow> string \<Rightarrow> fpath option" where
  "resolve_nofollow fs p =
     (case rev (comps p) of
        [] \<Rightarrow> Some []
      | l # r \<Rightarrow>
          (if l = ''..'' then resolve fs p
           else (case walk max_links fs [] (rev r) of None \<Rightarrow> None | Some d \<Rightarrow> Some (d @ [l]))))"

section \<open>The platform\<close>

datatype fs_query =
  Q_status string | Q_size string | Q_iterate string | Q_mtime string | Q_space string | Q_open string

datatype fs_update =
    U_mkdirs string | U_copy string string bool | U_remove string | U_rename string string
  | U_open string | U_fill string string

datatype fs_error = Filesystem_error

type_synonym 'a fsres = "fs_error + 'a"
type_synonym fs_effect = "fs_error option \<times> fsys"

record platform = pbn +
  read_fault :: "fs_query \<Rightarrow> fsys \<Rightarrow> bool"          \<comment> \<open>this query throws\<close>
  write_fault :: "fs_update \<Rightarrow> fsys \<Rightarrow> fsys option"  \<comment> \<open>this update throws and leaves that state\<close>
  dir_denied :: "string \<Rightarrow> fsys \<Rightarrow> bool"            \<comment> \<open>no permission to read the directory\<close>
  disk_space :: "string \<Rightarrow> fsys \<Rightarrow> 64 word \<times> 64 word \<times> 64 word"  \<comment> \<open>capacity, free, available\<close>
  fresh_meta :: fmeta                              \<comment> \<open>attributes of a new directory\<close>
  popen_cmd :: "string \<Rightarrow> fsys \<Rightarrow> fsys option"      \<comment> \<open>a shell command; None: popen gives NULL\<close>
  mount_cifs :: "string \<Rightarrow> string \<Rightarrow> string \<Rightarrow> fsys \<Rightarrow> fsys option"  \<comment> \<open>mount; None: it fails\<close>
  umount_force :: "string \<Rightarrow> fsys \<Rightarrow> fsys option"   \<comment> \<open>umount2; None: it fails\<close>

section \<open>Queries\<close>

definition fs_status :: "'a platform_scheme \<Rightarrow> fsys \<Rightarrow> string \<Rightarrow> fnode option fsres" where
  "fs_status pf fs p =
     (if path_max \<le> length p \<or> read_fault pf (Q_status p) fs then Inl Filesystem_error
      else (case resolve fs p of None \<Rightarrow> Inl Filesystem_error | Some q \<Rightarrow> Inr (node_at fs q)))"

definition fs_symlink_status :: "'a platform_scheme \<Rightarrow> fsys \<Rightarrow> string \<Rightarrow> fnode option fsres" where
  "fs_symlink_status pf fs p =
     (if path_max \<le> length p \<or> read_fault pf (Q_status p) fs then Inl Filesystem_error
      else (case resolve_nofollow fs p of None \<Rightarrow> Inl Filesystem_error | Some q \<Rightarrow> Inr (node_at fs q)))"

definition fs_exists :: "'a platform_scheme \<Rightarrow> fsys \<Rightarrow> string \<Rightarrow> bool fsres" where
  "fs_exists pf fs p = map_sum id (\<lambda>n. n \<noteq> None) (fs_status pf fs p)"

text \<open>The overload with an error code: an error reads as false.\<close>

definition fs_exists_ec :: "'a platform_scheme \<Rightarrow> fsys \<Rightarrow> string \<Rightarrow> bool" where
  "fs_exists_ec pf fs p = (case fs_exists pf fs p of Inr b \<Rightarrow> b | Inl _ \<Rightarrow> False)"

definition fs_is_regular_file :: "'a platform_scheme \<Rightarrow> fsys \<Rightarrow> string \<Rightarrow> bool fsres" where
  "fs_is_regular_file pf fs p = map_sum id is_file_node (fs_status pf fs p)"

definition fs_is_directory :: "'a platform_scheme \<Rightarrow> fsys \<Rightarrow> string \<Rightarrow> bool fsres" where
  "fs_is_directory pf fs p = map_sum id is_dir_node (fs_status pf fs p)"

definition fs_is_symlink :: "'a platform_scheme \<Rightarrow> fsys \<Rightarrow> string \<Rightarrow> bool fsres" where
  "fs_is_symlink pf fs p = map_sum id is_link_node (fs_symlink_status pf fs p)"

definition fs_file_size :: "'a platform_scheme \<Rightarrow> fsys \<Rightarrow> string \<Rightarrow> (64 word) fsres" where
  "fs_file_size pf fs p =
     (if read_fault pf (Q_size p) fs then Inl Filesystem_error
      else (case fs_status pf fs p of
          Inr (Some (File m d)) \<Rightarrow> Inr (of_nat (length d))
        | _ \<Rightarrow> Inl Filesystem_error))"

text \<open>The names in a directory, in the order directory_iterator gives them.\<close>

definition children :: "fsys \<Rightarrow> fpath \<Rightarrow> string list" where
  "children fs q = map (\<lambda>e. last (fst e)) (filter (\<lambda>e. fst e \<noteq> [] \<and> butlast (fst e) = q) fs)"

text \<open>
  directory_iterator with follow_directory_symlink and skip_permission_denied: the paths of
  the entries. Anything but a readable directory throws; a denied one is empty.
\<close>

definition fs_iterate :: "'a platform_scheme \<Rightarrow> fsys \<Rightarrow> string \<Rightarrow> (string list) fsres" where
  "fs_iterate pf fs p =
     (if path_max \<le> length p \<or> read_fault pf (Q_iterate p) fs then Inl Filesystem_error
      else (case resolve fs p of
          None \<Rightarrow> Inl Filesystem_error
        | Some q \<Rightarrow>
            (if \<not> is_dir_node (node_at fs q) then Inl Filesystem_error
             else if dir_denied pf p fs then Inr []
             else Inr (map (path_join p) (children fs q)))))"

fun meta_of :: "fnode option \<Rightarrow> fmeta option" where
  "meta_of (Some (File m _)) = Some m"
| "meta_of (Some (Dir m)) = Some m"
| "meta_of _ = None"

text \<open>last_write_time, already as the text ctime makes of it.\<close>

definition fs_last_write_time :: "'a platform_scheme \<Rightarrow> fsys \<Rightarrow> string \<Rightarrow> string fsres" where
  "fs_last_write_time pf fs p =
     (if read_fault pf (Q_mtime p) fs then Inl Filesystem_error
      else (case fs_status pf fs p of
          Inr n \<Rightarrow> (case meta_of n of Some m \<Rightarrow> Inr (ctime_text m) | None \<Rightarrow> Inl Filesystem_error)
        | Inl e \<Rightarrow> Inl e))"

definition fs_space :: "'a platform_scheme \<Rightarrow> fsys \<Rightarrow> string \<Rightarrow> (64 word \<times> 64 word \<times> 64 word) fsres" where
  "fs_space pf fs p =
     (if read_fault pf (Q_space p) fs then Inl Filesystem_error else Inr (disk_space pf p fs))"

text \<open>Owner and group write permission; an absent file has the value perms::unknown, all bits set.\<close>

definition fs_perms :: "'a platform_scheme \<Rightarrow> fsys \<Rightarrow> string \<Rightarrow> (bool \<times> bool) fsres" where
  "fs_perms pf fs p =
     map_sum id (\<lambda>n. case meta_of n of Some m \<Rightarrow> (owner_write m, group_write m) | None \<Rightarrow> (True, True))
       (fs_status pf fs p)"

section \<open>Updates\<close>

definition fs_write :: "'a platform_scheme \<Rightarrow> fs_update \<Rightarrow> (fsys \<Rightarrow> fs_effect) \<Rightarrow> fsys \<Rightarrow> fs_effect" where
  "fs_write pf u f fs =
     (case write_fault pf u fs of Some fs' \<Rightarrow> (Some Filesystem_error, fs') | None \<Rightarrow> f fs)"

definition fs_throw :: "fsys \<Rightarrow> fs_effect" where
  "fs_throw fs = (Some Filesystem_error, fs)"

fun add_dirs :: "fmeta \<Rightarrow> fpath \<Rightarrow> string list \<Rightarrow> fsys \<Rightarrow> fs_effect" where
  "add_dirs m q [] fs = (None, fs)"
| "add_dirs m q (c # cs) fs =
     (case node_at fs (q @ [c]) of
        None \<Rightarrow> add_dirs m (q @ [c]) cs (fs @ [(q @ [c], Dir m)])
      | Some (Dir _) \<Rightarrow> add_dirs m (q @ [c]) cs fs
      | Some _ \<Rightarrow> fs_throw fs)"

definition fs_create_directories :: "'a platform_scheme \<Rightarrow> string \<Rightarrow> fsys \<Rightarrow> fs_effect" where
  "fs_create_directories pf p =
     fs_write pf (U_mkdirs p)
       (\<lambda>fs. case resolve fs p of None \<Rightarrow> fs_throw fs | Some q \<Rightarrow> add_dirs (fresh_meta pf) [] q fs)"

definition drop_tree :: "fpath \<Rightarrow> fsys \<Rightarrow> fsys" where
  "drop_tree q fs = filter (\<lambda>e. \<not> prefix q (fst e)) fs"

definition fs_remove_all :: "'a platform_scheme \<Rightarrow> string \<Rightarrow> fsys \<Rightarrow> fs_effect" where
  "fs_remove_all pf p =
     fs_write pf (U_remove p)
       (\<lambda>fs. case resolve_nofollow fs p of
          None \<Rightarrow> fs_throw fs
        | Some q \<Rightarrow> if q = [] then fs_throw fs else (None, drop_tree q fs))"

definition move_tree :: "fpath \<Rightarrow> fpath \<Rightarrow> fsys \<Rightarrow> fsys" where
  "move_tree a b fs =
     map (\<lambda>e. if prefix a (fst e) then (b @ drop (length a) (fst e), snd e) else e) (drop_tree b fs)"

text \<open>rename(2): the target may be absent, a file replaced by a file, or an empty directory replaced by a directory.\<close>

definition rename_node :: "fpath \<Rightarrow> fpath \<Rightarrow> fsys \<Rightarrow> fs_effect" where
  "rename_node a b fs =
     (if node_at fs a = None \<or> a = [] \<or> b = [] then fs_throw fs
      else if a = b then (None, fs)
      else if prefix a b \<or> prefix b a then fs_throw fs
      else if \<not> is_dir_node (node_at fs (butlast b)) then fs_throw fs
      else (case node_at fs b of
          None \<Rightarrow> (None, move_tree a b fs)
        | Some n \<Rightarrow>
            (if is_dir_node (Some n) \<noteq> is_dir_node (node_at fs a)
                \<or> (is_dir_node (Some n) \<and> children fs b \<noteq> [])
             then fs_throw fs else (None, move_tree a b fs))))"

definition fs_rename :: "'a platform_scheme \<Rightarrow> string \<Rightarrow> string \<Rightarrow> fsys \<Rightarrow> fs_effect" where
  "fs_rename pf p p' =
     fs_write pf (U_rename p p')
       (\<lambda>fs. case (resolve_nofollow fs p, resolve_nofollow fs p') of
          (Some a, Some b) \<Rightarrow> rename_node a b fs
        | _ \<Rightarrow> fs_throw fs)"

definition set_node :: "fpath \<Rightarrow> fnode \<Rightarrow> fsys \<Rightarrow> fsys" where
  "set_node q n fs =
     (if q \<in> fst ` set fs then map (\<lambda>e. if fst e = q then (q, n) else e) fs else fs @ [(q, n)])"

text \<open>copy_file of the file at a to the path b, with overwrite_existing (ov) or skip_existing.\<close>

definition copy_file :: "bool \<Rightarrow> fpath \<Rightarrow> fnode \<Rightarrow> fpath \<Rightarrow> fsys \<Rightarrow> fs_effect" where
  "copy_file ov a n b fs =
     (case walk max_links fs (butlast b) [last b] of
        None \<Rightarrow> fs_throw fs
      | Some q \<Rightarrow>
          (case node_at fs q of
             None \<Rightarrow> (None, set_node q n fs)
           | Some (File m d) \<Rightarrow>
               (if q = a then fs_throw fs else (None, if ov then set_node q n fs else fs))
           | Some _ \<Rightarrow> fs_throw fs))"

text \<open>The entries below a copied directory, each at the same place below the target.\<close>

fun copy_entries :: "bool \<Rightarrow> fmeta \<Rightarrow> fpath \<Rightarrow> fpath \<Rightarrow> (fpath \<times> fnode) list \<Rightarrow> fsys \<Rightarrow> fs_effect" where
  "copy_entries ov m a b [] fs = (None, fs)"
| "copy_entries ov m a b ((r, n) # es) fs =
     (let t = b @ drop (length a) r in
      case n of
        Link _ \<Rightarrow> copy_entries ov m a b es fs
      | Dir _ \<Rightarrow>
          (case node_at fs t of
             None \<Rightarrow> copy_entries ov m a b es (set_node t (Dir m) fs)
           | Some (Dir _) \<Rightarrow> copy_entries ov m a b es fs
           | Some _ \<Rightarrow> fs_throw fs)
      | File _ _ \<Rightarrow>
          (case copy_file ov r n t fs of
             (None, fs') \<Rightarrow> copy_entries ov m a b es fs'
           | (Some e, fs') \<Rightarrow> (Some e, fs')))"

text \<open>
  copy with recursive and skip_symlinks. A directory copied below itself never ends before the
  path is too long: it throws.
\<close>

definition copy_node :: "bool \<Rightarrow> fmeta \<Rightarrow> fpath \<Rightarrow> fpath \<Rightarrow> fsys \<Rightarrow> fs_effect" where
  "copy_node ov m a b fs =
     (if a = b then fs_throw fs
      else (case node_at fs a of
          None \<Rightarrow> fs_throw fs
        | Some (Link _) \<Rightarrow> (None, fs)
        | Some (File fm d) \<Rightarrow>
            (if is_dir_node (node_at fs b) then copy_file ov a (File fm d) (b @ [last a]) fs
             else if \<not> is_dir_node (node_at fs (butlast b)) then fs_throw fs
             else copy_file ov a (File fm d) b fs)
        | Some (Dir _) \<Rightarrow>
            (if prefix a b then fs_throw fs
             else if is_dir_node (node_at fs b)
               then copy_entries ov m a b (filter (\<lambda>e. strict_prefix a (fst e)) fs) fs
             else if node_at fs b \<noteq> None \<or> \<not> is_dir_node (node_at fs (butlast b)) then fs_throw fs
             else copy_entries ov m a b (filter (\<lambda>e. strict_prefix a (fst e)) fs) (set_node b (Dir m) fs))))"

definition fs_copy :: "'a platform_scheme \<Rightarrow> string \<Rightarrow> string \<Rightarrow> bool \<Rightarrow> fsys \<Rightarrow> fs_effect" where
  "fs_copy pf p p' ov =
     fs_write pf (U_copy p p' ov)
       (\<lambda>fs. case (resolve_nofollow fs p, resolve_nofollow fs p') of
          (Some a, Some b) \<Rightarrow> copy_node ov (fresh_meta pf) a b fs
        | _ \<Rightarrow> fs_throw fs)"

section \<open>Streams\<close>

text \<open>
  An ifstream on a path: None when it is not good. Opening a directory for reading succeeds, and
  nothing can be read from it.
\<close>

definition fs_read_file :: "'a platform_scheme \<Rightarrow> string \<Rightarrow> fsys \<Rightarrow> string option" where
  "fs_read_file pf p fs =
     (if path_max \<le> length p \<or> read_fault pf (Q_open p) fs then None
      else (case resolve fs p of
          None \<Rightarrow> None
        | Some q \<Rightarrow>
            (case node_at fs q of
               Some (File m d) \<Rightarrow> Some d
             | Some (Dir m) \<Rightarrow> Some []
             | _ \<Rightarrow> None)))"

text \<open>Opening an ofstream makes or empties the file; the flag says whether the stream is good.\<close>

definition fs_open_write :: "'a platform_scheme \<Rightarrow> string \<Rightarrow> fsys \<Rightarrow> bool \<times> fsys" where
  "fs_open_write pf p fs =
     (case write_fault pf (U_open p) fs of
        Some fs' \<Rightarrow> (False, fs')
      | None \<Rightarrow>
          (if path_max \<le> length p then (False, fs)
           else (case resolve fs p of
               None \<Rightarrow> (False, fs)
             | Some q \<Rightarrow>
                 (case node_at fs q of
                    None \<Rightarrow>
                      (if is_dir_node (node_at fs (butlast q))
                       then (True, set_node q (File (fresh_meta pf) []) fs) else (False, fs))
                  | Some (File m d) \<Rightarrow> (True, set_node q (File m []) fs)
                  | Some _ \<Rightarrow> (False, fs)))))"

text \<open>write and close on an open stream; a fault leaves the state it leaves, and no one is told.\<close>

definition fs_fill :: "'a platform_scheme \<Rightarrow> string \<Rightarrow> string \<Rightarrow> fsys \<Rightarrow> fsys" where
  "fs_fill pf p content fs =
     (case write_fault pf (U_fill p content) fs of
        Some fs' \<Rightarrow> fs'
      | None \<Rightarrow>
          (case resolve fs p of
             None \<Rightarrow> fs
           | Some q \<Rightarrow>
               (case node_at fs q of Some (File m d) \<Rightarrow> set_node q (File m content) fs | _ \<Rightarrow> fs)))"

section \<open>Facts the components use\<close>

lemma fs_exists_Inr [simp]: "fs_exists pf fs p = Inr b \<longleftrightarrow> (\<exists>n. fs_status pf fs p = Inr n \<and> b = (n \<noteq> None))"
  by (cases "fs_status pf fs p") (auto simp: fs_exists_def)

lemma fs_status_short: "fs_status pf fs p = Inr n \<Longrightarrow> length p < path_max"
  by (auto simp: fs_status_def split: if_splits)

lemma fs_status_resolve: "fs_status pf fs p = Inr n \<Longrightarrow> \<exists>q. resolve fs p = Some q \<and> n = node_at fs q"
  by (auto simp: fs_status_def split: if_splits option.splits)

lemma length_path_join: "length p < length (path_join p n) \<or> n = [] \<and> path_join p n = p"
  by (auto simp: path_join_def)

lemma path_join_slash [simp]: "p \<noteq> [] \<Longrightarrow> last p \<noteq> CHR ''/'' \<Longrightarrow> path_join p n = p @ CHR ''/'' # n"
  by (simp add: path_join_def)

text \<open>Every entry of a directory is one of its children, under its own path.\<close>

lemma fs_iterate_entries:
  assumes "fs_iterate pf fs p = Inr es" "e \<in> set es"
  shows "\<exists>q n. resolve fs p = Some q \<and> n \<in> set (children fs q) \<and> e = path_join p n"
  using assms by (auto simp: fs_iterate_def split: if_splits option.splits)

lemma map_of_filter_key: "map_of (filter (\<lambda>e. P (fst e)) xs) k = (if P k then map_of xs k else None)"
  by (induction xs) auto

lemma node_at_drop_tree:
  "q \<noteq> [] \<Longrightarrow> node_at (drop_tree q fs) r = (if prefix q r then None else node_at fs r)"
  using map_of_filter_key [of "\<lambda>k. \<not> prefix q k" fs r] by (auto simp: node_at_def drop_tree_def)

lemma map_of_set_node: "map_of (set_node q n fs) r = (if r = q then Some n else map_of fs r)"
proof (cases "q \<in> fst ` set fs")
  case True
  have "map_of (map (\<lambda>e. if fst e = q then (q, n) else e) xs) r =
      (if r = q then (if q \<in> fst ` set xs then Some n else None) else map_of xs r)" for xs
    by (induction xs) force+
  with True show ?thesis by (simp add: set_node_def)
next
  case False
  then have "map_of fs q = None" by (simp add: map_of_eq_None_iff)
  with False show ?thesis by (auto simp: set_node_def map_add_def split: option.splits)
qed

lemma node_at_set_node:
  "q \<noteq> [] \<Longrightarrow> node_at (set_node q n fs) r = (if r = q then Some n else node_at fs r)"
  by (auto simp: node_at_def map_of_set_node)

text \<open>Renaming moves exactly the tree at a to b.\<close>

lemma map_of_move_tree:
  assumes "\<not> prefix a b" "\<not> prefix b a"
  shows "map_of (move_tree a b fs) r =
      (if prefix b r then map_of fs (a @ drop (length b) r)
       else if prefix a r then None else map_of fs r)"
proof (induction fs)
  case Nil
  then show ?case by (simp add: move_tree_def drop_tree_def)
next
  case (Cons e fs)
  have disj: "\<not> (prefix a x \<and> prefix b x)" for x
    using assms prefix_same_cases by blast
  obtain k n where e: "e = (k, n)" by (cases e)
  show ?case
  proof (cases "prefix b k")
    case True
    then have "move_tree a b (e # fs) = move_tree a b fs"
      by (simp add: move_tree_def drop_tree_def e)
    moreover have nk: "\<not> prefix a k" using True disj by blast
    moreover have "a @ drop (length b) r \<noteq> k" using nk by auto
    ultimately show ?thesis using Cons True by (auto simp: e)
  next
    case False
    then have mt: "move_tree a b (e # fs) =
        (if prefix a k then (b @ drop (length a) k, n) else (k, n)) # move_tree a b fs"
      by (simp add: move_tree_def drop_tree_def e)
    show ?thesis
    proof (cases "prefix a k")
      case True
      then obtain s where s: "k = a @ s" by (auto simp: prefix_def)
      with mt True have mt: "move_tree a b (e # fs) = (b @ s, n) # move_tree a b fs" by simp
      have "(r = b @ s) \<longleftrightarrow> prefix b r \<and> a @ drop (length b) r = k"
        using s by (auto simp: prefix_def)
      with mt Cons s show ?thesis using disj by (auto simp: e)
    next
      case nota: False
      with False mt Cons show ?thesis by (auto simp: e)
    qed
  qed
qed

lemma node_at_move_tree:
  assumes "\<not> prefix a b" "\<not> prefix b a"
  shows "node_at (move_tree a b fs) r =
      (if prefix b r then node_at fs (a @ drop (length b) r)
       else if prefix a r then None else node_at fs r)"
proof -
  have "a \<noteq> []" "b \<noteq> []" using assms by auto
  then show ?thesis
    using map_of_move_tree [OF assms, of fs r] by (auto simp: node_at_def)
qed

lemma fs_write_None: "write_fault pf u fs = None \<Longrightarrow> fs_write pf u f fs = f fs"
  by (simp add: fs_write_def)

lemma fs_throw_simps [simp]: "fst (fs_throw fs) = Some Filesystem_error" "snd (fs_throw fs) = fs"
  "fs_throw fs = (x, fs') \<longleftrightarrow> x = Some Filesystem_error \<and> fs' = fs"
  by (auto simp: fs_throw_def)

text \<open>Creating directories never changes a node that is there.\<close>

lemma add_dirs_keeps: "node_at fs r = Some n \<Longrightarrow> node_at (snd (add_dirs m q cs fs)) r = Some n"
proof (induction m q cs fs rule: add_dirs.induct)
  case (2 m q c cs fs)
  have "node_at (fs @ [(q @ [c], Dir m)]) r = Some n" if "node_at fs (q @ [c]) = None"
    using "2.prems" that by (auto simp: node_at_def map_add_def split: option.splits if_splits)
  with 2 show ?case by (auto split: option.splits fnode.splits)
qed simp

lemma add_dirs_existing:
  "\<lbrakk> \<And>i. i \<le> length cs \<Longrightarrow> is_dir_node (node_at fs (q @ take i cs)) \<rbrakk> \<Longrightarrow> add_dirs m q cs fs = (None, fs)"
proof (induction m q cs fs rule: add_dirs.induct)
  case (2 m q c cs fs)
  from "2.prems" [of 1] obtain m' where d: "node_at fs (q @ [c]) = Some (Dir m')"
    by (auto elim: is_dir_node.elims)
  moreover have "add_dirs m (q @ [c]) cs fs = (None, fs)"
    using d "2.prems" [of "Suc i" for i] by (intro "2.IH" (2)) auto
  ultimately show ?case by simp
qed simp

text \<open>A platform on which nothing fails, for concrete runs.\<close>

definition calm_platform :: platform where
  "calm_platform =
     \<lparr>dom_parse = (\<lambda>s. None), schema_ok = conforms, conv_string = (\<lambda>j. []), conv_int = (\<lambda>j. 0),
      conv_bool = (\<lambda>j. False), read_fault = (\<lambda>q fs. False), write_fault = (\<lambda>u fs. None),
      dir_denied = (\<lambda>p fs. False), disk_space = (\<lambda>p fs. (8000000000, 2000000000, 1000000000)),
      fresh_meta = root_meta, popen_cmd = (\<lambda>c fs. Some fs), mount_cifs = (\<lambda>s p d fs. Some fs),
      umount_force = (\<lambda>p fs. Some fs)\<rparr>"

text \<open>A file system of plain nodes.\<close>

definition plain_file :: "string \<Rightarrow> fnode" where
  "plain_file d = File root_meta d"

definition plain_dir :: fnode where
  "plain_dir = Dir root_meta"

lemma plain_simps [simp]:
  "is_dir_node (Some plain_dir)" "\<not> is_link_node (Some plain_dir)" "\<not> is_file_node (Some plain_dir)"
  "is_file_node (Some (plain_file d))" "\<not> is_dir_node (Some (plain_file d))"
  "\<not> is_link_node (Some (plain_file d))" "plain_dir \<noteq> Link t" "plain_file d \<noteq> Link t"
  by (simp_all add: plain_dir_def plain_file_def)

lemma calm_platform_simps [simp]:
  "\<not> read_fault calm_platform q fs" "write_fault calm_platform u fs = None"
  "\<not> dir_denied calm_platform p fs" "fresh_meta calm_platform = root_meta"
  "disk_space calm_platform p fs = (8000000000, 2000000000, 1000000000)"
  "popen_cmd calm_platform c fs = Some fs"
  by (simp_all add: calm_platform_def)

end
