(* ===== verification/Saf_Core.thy ===== *)
theory Saf_Core
  imports Saf_Map Saf_Json
begin

text \<open>
  The data every component passes around (SA_Common.h), the registry of providers
  (DocumentProviderFactory), the manager that routes a request to its provider
  (DocumentProviderManager) and the list of observers (StatusHandler).
\<close>

section \<open>Requests\<close>

datatype storage_type = INVALID | INTERNAL | USB | GDRIVE | NETWORK

primrec storage_rank :: "storage_type \<Rightarrow> int" where
  "storage_rank INVALID = -1"
| "storage_rank INTERNAL = 0"
| "storage_rank USB = 1"
| "storage_rank GDRIVE = 2"
| "storage_rank NETWORK = 3"

lemma storage_rank_inj [simp]: "storage_rank a = storage_rank b \<longleftrightarrow> a = b"
  by (cases a; cases b) simp_all

instantiation storage_type :: linorder
begin

definition less_eq_storage_type :: "storage_type \<Rightarrow> storage_type \<Rightarrow> bool" where
  "less_eq_storage_type a b \<longleftrightarrow> storage_rank a \<le> storage_rank b"

definition less_storage_type :: "storage_type \<Rightarrow> storage_type \<Rightarrow> bool" where
  "less_storage_type a b \<longleftrightarrow> storage_rank a < storage_rank b"

instance
  by standard (auto simp: less_eq_storage_type_def less_storage_type_def)

end

text \<open>Values with the type they are to be sent as; setErrorMessage of the cloud and network providers.\<close>

datatype data_type = STRING | NUMBER | BOOLEAN

type_synonym value_pair_map = "(string, string \<times> data_type) omap"

text \<open>emplace leaves an entry that is there alone.\<close>

definition value_emplace :: "string \<Rightarrow> string \<times> data_type \<Rightarrow> value_pair_map \<Rightarrow> value_pair_map" where
  "value_emplace k v m = (if omap_find k m = None then omap_put k v m else m)"

definition setErrorMessage :: "value_pair_map \<Rightarrow> string \<Rightarrow> value_pair_map" where
  "setErrorMessage valueMap errorText =
     value_emplace ''returnValue'' (''false'', BOOLEAN)
       (value_emplace ''errorText'' (errorText, STRING)
         (value_emplace ''errorCode'' (''-1'', NUMBER) valueMap))"

datatype method_type =
    LIST_METHOD | GET_PROP_METHOD | LIST_STORAGES_METHOD | COPY_METHOD | MOVE_METHOD
  | REMOVE_METHOD | EJECT_METHOD | RENAME_METHOD | EXTRA_METHOD | ATTACH_METHOD
  | AUTHENTICATE_METHOD

text \<open>The member function of SAFLunaService a request's callback is bound to.\<close>

datatype reply_handler =
    onHandleExtraCommandReply | onListReply | onGetPropertiesReply | onListOfStoragesReply
  | onCopyReply | onMoveReply | onRemoveReply | onEjectReply | onRenameReply

text \<open>A message of the bus: its payload and the identity the answer goes to.\<close>

record lsmsg =
  payload :: string
  token :: nat

record request_data =
  cb :: reply_handler
  storageType :: storage_type
  methodType :: method_type
  params :: json
  sessionId :: string
  subs :: lsmsg

text \<open>
  What a provider does with a request: it calls the request's callback, or it calls another
  service of the bus and goes on in one of its static reply functions with the request as the
  context.
\<close>

datatype ls_callback =
    USBStorageProvider_onListStoragesMethodReply | USBStorageProvider_onGetPropertiesReply
  | USBStorageProvider_onReply | InternalStorageProvider_onReply

datatype effect =
    Reply request_data json
  | LSCall string string ls_callback request_data

fun reply_of :: "effect \<Rightarrow> json option" where
  "reply_of (Reply rd j) = Some j"
| "reply_of (LSCall u p k rd) = None"

section \<open>The registry\<close>

datatype provider = InternalStorageProvider | USBStorageProvider | GDriveProvider | NetworkProvider

type_synonym factories = "(storage_type, provider) omap"

text \<open>Registrator: map::emplace keeps an entry that is there.\<close>

definition register_factory :: "storage_type \<Rightarrow> provider \<Rightarrow> factories \<Rightarrow> factories" where
  "register_factory t p fs = (if omap_find t fs = None then omap_put t p fs else fs)"

definition getSupportedDocumentProviders :: "factories \<Rightarrow> storage_type list" where
  "getSupportedDocumentProviders fs = map fst fs"

text \<open>A null pointer for a type with no factory.\<close>

definition createDocumentProvider :: "factories \<Rightarrow> storage_type \<Rightarrow> provider option" where
  "createDocumentProvider fs t = omap_find t fs"

text \<open>The four static Registrator objects, in any order of static initialisation.\<close>

definition registrations :: "(storage_type \<times> provider) list" where
  "registrations =
     [(INTERNAL, InternalStorageProvider), (USB, USBStorageProvider),
      (GDRIVE, GDriveProvider), (NETWORK, NetworkProvider)]"

definition register_all :: "(storage_type \<times> provider) list \<Rightarrow> factories" where
  "register_all rs = fold (\<lambda>r. register_factory (fst r) (snd r)) rs []"

section \<open>The manager\<close>

text \<open>
  addRequest: a copy or move whose destination is the cloud goes to the cloud provider. None is
  the call of a member function through a null provider.
\<close>

definition manager_addRequest ::
  "'a pbn_scheme \<Rightarrow> factories \<Rightarrow> request_data \<Rightarrow> (provider \<times> request_data) option" where
  "manager_addRequest pf fs rd =
     (let rd' = (if (methodType rd = COPY_METHOD \<or> methodType rd = MOVE_METHOD)
                    \<and> storageType rd \<noteq> GDRIVE
                    \<and> asString pf (jget (params rd) ''destStorageType'') = ''cloud''
                 then rd\<lparr>storageType := GDRIVE\<rparr> else rd)
      in case createDocumentProvider fs (storageType rd') of
           None \<Rightarrow> None
         | Some p \<Rightarrow> Some (p, rd'))"

section \<open>Observers\<close>

text \<open>StatusHandler keeps a list of observer pointers; 0 is the null pointer.\<close>

type_synonym observers = "nat list"

definition observer_Register :: "nat \<Rightarrow> observers \<Rightarrow> observers" where
  "observer_Register p obs = (if p \<noteq> 0 then p # obs else obs)"

definition observer_Unregister :: "nat \<Rightarrow> observers \<Rightarrow> observers" where
  "observer_Unregister p obs = (if p \<noteq> 0 then removeAll p obs else obs)"

text \<open>
  A StatusHandler holds its list by a pointer that new (std::nothrow) may leave null. None as a
  result: the null pointer is used.
\<close>

type_synonym status_handler = "observers option"

definition StatusHandler :: "bool \<Rightarrow> status_handler" where
  "StatusHandler allocated = (if allocated then Some [] else None)"

definition StatusHandler_copy :: "bool \<Rightarrow> status_handler \<Rightarrow> status_handler option" where
  "StatusHandler_copy allocated obj = (if \<not> allocated then Some None else map_option Some obj)"

definition handler_Register :: "nat \<Rightarrow> status_handler \<Rightarrow> status_handler option" where
  "handler_Register p h = (if p = 0 then Some h else map_option (\<lambda>obs. Some (observer_Register p obs)) h)"

definition StatusHandler_destroy :: "status_handler \<Rightarrow> status_handler option" where
  "StatusHandler_destroy h = map_option (\<lambda>obs. None) h"

section \<open>Facts\<close>

lemma status_handler_allocated:
  "handler_Register p (Some obs) = Some (Some (observer_Register p obs))" "StatusHandler_copy True (Some obs) = Some (Some obs)"
  by (simp_all add: handler_Register_def observer_Register_def StatusHandler_copy_def)

text \<open>Without memory for the list the first registration, and the destructor, use the null pointer.\<close>

lemma status_handler_out_of_memory:
  "p \<noteq> 0 \<Longrightarrow> handler_Register p (StatusHandler False) = None" "StatusHandler_destroy (StatusHandler False) = None"
  by (simp_all add: handler_Register_def StatusHandler_def StatusHandler_destroy_def)

lemma omap_ok_register: "omap_ok fs \<Longrightarrow> omap_ok (register_factory t p fs)"
  by (simp add: register_factory_def om.ok_put)

lemma find_register:
  "omap_find t (register_factory t' p fs) =
     (if t = t' \<and> omap_find t fs = None then Some p else omap_find t fs)"
  by (auto simp: register_factory_def om.find_put)

lemma find_fold_register:
  "distinct (map fst rs) \<Longrightarrow>
   omap_find t (fold (\<lambda>r. register_factory (fst r) (snd r)) rs fs) =
     (case omap_find t fs of Some p \<Rightarrow> Some p | None \<Rightarrow> map_of rs t)"
proof (induction rs arbitrary: fs)
  case (Cons r rs)
  then show ?case
    by (cases r) (auto simp: find_register map_of_eq_None_iff [THEN iffD2] split: option.splits)
qed (simp split: option.splits)

lemma omap_ok_fold_register:
  "omap_ok fs \<Longrightarrow> omap_ok (fold (\<lambda>r. register_factory (fst r) (snd r)) rs fs)"
  by (induction rs arbitrary: fs) (auto simp: omap_ok_register)

text \<open>The order in which the translation units initialise does not matter.\<close>

lemma register_all_find:
  assumes "set rs = set registrations" "distinct (map fst rs)"
  shows "omap_find t (register_all rs) = map_of registrations t"
proof -
  have "omap_find t (register_all rs) = map_of rs t"
    using find_fold_register [OF assms(2), of t "[]"]
    by (simp add: register_all_def om.find_clear)
  also have "\<dots> = map_of registrations t"
    using assms map_of_inject_set [of rs registrations] by (simp add: registrations_def)
  finally show ?thesis .
qed

end
