(* ===== verification/Saf_Utility.thy ===== *)
theory Saf_Utility
  imports Saf_Filesystem Saf_Core Saf_Errors
begin

text \<open>
  SAFUtilityOperation: path validation, the objects that list a folder, describe a storage and
  copy, remove, move, rename or create on the file system, the table of mounted Samba drives of
  the singleton, and the check of a copy or move between providers. The state is \<open>world\<close>: the
  file system, the Samba table and the shell commands issued through popen.
\<close>

record world =
  w_fs :: fsys
  w_samba :: "(string, string) omap"   \<comment> \<open>mSambaDrivePathMap\<close>
  w_cmds :: "string list"              \<comment> \<open>commands given to popen, latest first\<close>

section \<open>Path validation\<close>

text \<open>The free function validateInternalPath.\<close>

definition validateInternalPath :: "'a platform_scheme \<Rightarrow> fsys \<Rightarrow> string \<Rightarrow> bool" where
  "validateInternalPath pf fs path =
     (if path = [] \<or> str_find ''/'' path \<noteq> Some 0 \<or> path ! (length path - 1) = CHR ''/'' then False
      else (case fs_exists pf fs path of Inr b \<Rightarrow> b | Inl Filesystem_error \<Rightarrow> False))"

text \<open>The member SAFUtilityOperation::validateInternalPath.\<close>

definition util_validateInternalPath :: "'a platform_scheme \<Rightarrow> fsys \<Rightarrow> string \<Rightarrow> string \<Rightarrow> bool" where
  "util_validateInternalPath pf fs path sid =
     (if str_starts ''/media'' path \<or> str_starts ''/tmp'' path \<or> str_starts (''/home/'' @ sid) path
      then fs_exists_ec pf fs path else False)"

definition validateSambaPath :: "'a platform_scheme \<Rightarrow> world \<Rightarrow> string \<Rightarrow> string \<Rightarrow> bool" where
  "validateSambaPath pf w path driveId =
     (case omap_find driveId (w_samba w) of
        None \<Rightarrow> False
      | Some m \<Rightarrow> str_starts m path \<and> fs_exists_ec pf (w_fs w) path)"

definition setDriveDetails :: "string \<Rightarrow> (string, string) omap \<Rightarrow> world \<Rightarrow> world" where
  "setDriveDetails type inputMap w =
     (if type = ''SAMBA'' then w\<lparr>w_samba := fold (\<lambda>e. omap_put (fst e) (snd e)) inputMap []\<rparr> else w)"

section \<open>Checks of a copy or move between providers\<close>

definition error_object :: "int \<Rightarrow> string \<Rightarrow> json \<Rightarrow> json" where
  "error_object code text j =
     jputs [(''returnValue'', JBool False), (''errorCode'', JNum code), (''errorText'', JStr text)] j"

definition validateInterProviderOperation ::
  "'a platform_scheme \<Rightarrow> request_data \<Rightarrow> world \<Rightarrow> bool \<times> effect list" where
  "validateInterProviderOperation pf rd w =
     (let srcDriveId = asString pf (jget (params rd) ''srcDriveId'');
          destDriveId = asString pf (jget (params rd) ''destDriveId'');
          srcPath = asString pf (jget (params rd) ''srcPath'');
          destPath = asString pf (jget (params rd) ''destPath'');
          srcStorageType = asString pf (jget (params rd) ''srcStorageType'');
          destStorageType = asString pf (jget (params rd) ''destStorageType'');
          r0 = jobject;
          (result, r1, out) =
            (if destStorageType = ''network'' \<and> str_contains ''UPNP'' destDriveId
             then (let r = error_object (saf_code STORAGE_TYPE_NOT_SUPPORTED) ''Operation not Permitted'' r0
                   in (False, r, [Reply rd r]))
             else (True, r0, []))
      in if destStorageType = ''network'' \<and> \<not> validateSambaPath pf w destPath destDriveId
         then (False, out @ [Reply rd (error_object (saf_code PERMISSION_DENIED)
                 ''No such file or directory at destination'' r1)])
         else if destStorageType = ''internal'' \<and> \<not> util_validateInternalPath pf (w_fs w) destPath (sessionId rd)
         then (False, out @ [Reply rd (error_object (saf_code PERMISSION_DENIED)
                 ''No such file or directory at destination'' r1)])
         else if srcStorageType = ''network'' \<and> \<not> validateSambaPath pf w srcPath srcDriveId
         then (False, out @ [Reply rd (error_object (saf_code INVALID_SOURCE_PATH)
                 ''No such file or directory at source'' r1)])
         else if srcStorageType = ''internal'' \<and> \<not> util_validateInternalPath pf (w_fs w) srcPath (sessionId rd)
         then (False, out @ [Reply rd (error_object (saf_code INVALID_SOURCE_PATH)
                 ''No such file or directory at source'' r1)])
         else (result, out))"

section \<open>Shell commands and the internal storage's root\<close>

definition run_popen :: "'a platform_scheme \<Rightarrow> string \<Rightarrow> world \<Rightarrow> bool \<times> world" where
  "run_popen pf cmd w =
     (case popen_cmd pf cmd (w_fs w) of
        None \<Rightarrow> (False, w\<lparr>w_cmds := cmd # w_cmds w\<rparr>)
      | Some fs' \<Rightarrow> (True, w\<lparr>w_fs := fs', w_cmds := cmd # w_cmds w\<rparr>))"

definition setPathPerm :: "'a platform_scheme \<Rightarrow> string \<Rightarrow> string \<Rightarrow> world \<Rightarrow> world" where
  "setPathPerm pf path sid w =
     (if \<not> fs_exists_ec pf (w_fs w) path then w
      else (let w1 = snd (run_popen pf (''chown '' @ sid @ '': '' @ path) w)
            in snd (run_popen pf (''chmod 700 '' @ path) w1)))"

definition getInternalPath :: "'a platform_scheme \<Rightarrow> string \<Rightarrow> world \<Rightarrow> string \<times> world" where
  "getInternalPath pf sid w =
     (let path = (if str_contains ''root'' sid then ''/home/'' @ sid @ ''/safInternal''
                  else ''/home/'' @ sid @ ''/rootfs'' @ ''/safInternal'')
      in if \<not> fs_exists_ec pf (w_fs w) path then
           (case fs_create_directories pf path (w_fs w) of
              (Some Filesystem_error, fs') \<Rightarrow> ([], w\<lparr>w_fs := fs'\<rparr>)
            | (None, fs') \<Rightarrow>
                (let w1 = snd (run_popen pf (''chown '' @ sid @ '': '' @ path) (w\<lparr>w_fs := fs'\<rparr>));
                     w2 = snd (run_popen pf (''chmod 700 '' @ path) w1)
                 in (path, w2)))
         else (path, w))"

text \<open>The constructor of the singleton makes its scratch directory.\<close>

definition SAFUtilityOperation_init :: "'a platform_scheme \<Rightarrow> world \<Rightarrow> world" where
  "SAFUtilityOperation_init pf w =
     (case fs_exists pf (w_fs w) ''/tmp/internal'' of
        Inr False \<Rightarrow> w\<lparr>w_fs := snd (fs_create_directories pf ''/tmp/internal'' (w_fs w)), w_samba := []\<rparr>
      | _ \<Rightarrow> w\<lparr>w_samba := []\<rparr>)"

section \<open>Describing files and folders\<close>

record folder_content =
  mName :: string
  mPath :: string
  mType :: string
  mModTime :: string
  mSize :: "64 word"

definition getFileType :: "'a platform_scheme \<Rightarrow> fsys \<Rightarrow> string \<Rightarrow> string" where
  "getFileType pf fs filePath =
     (if \<not> validateInternalPath pf fs filePath then ''unknown''
      else (case fs_is_regular_file pf fs filePath of
          Inl Filesystem_error \<Rightarrow> ''unknown''
        | Inr True \<Rightarrow> ''regular''
        | Inr False \<Rightarrow>
            (case fs_is_symlink pf fs filePath of
               Inl Filesystem_error \<Rightarrow> ''unknown''
             | Inr True \<Rightarrow> ''linkfile''
             | Inr False \<Rightarrow>
                 (case fs_is_directory pf fs filePath of
                    Inl Filesystem_error \<Rightarrow> ''unknown''
                  | Inr True \<Rightarrow> ''directory''
                  | Inr False \<Rightarrow> ''unknown''))))"

text \<open>Entries whose path has a component starting with a dot are hidden.\<close>

definition visible :: "string \<Rightarrow> bool" where
  "visible entryPath \<longleftrightarrow> \<not> str_contains ''/.'' entryPath"

lemma validate_short:
  assumes "validateInternalPath pf fs p"
  shows "length p < path_max" "p \<noteq> []" "last p \<noteq> CHR ''/''" "prefix ''/'' p"
proof -
  from assms show "p \<noteq> []" "prefix ''/'' p" by (auto simp: validateInternalPath_def split: if_splits)
  with assms show "last p \<noteq> CHR ''/''"
    by (auto simp: validateInternalPath_def last_conv_nth split: if_splits)
  from assms show "length p < path_max"
    by (auto simp: validateInternalPath_def split: if_splits sum.splits fs_error.splits
        dest!: fs_status_short)
qed

lemma iterate_longer:
  assumes "validateInternalPath pf fs p" "fs_iterate pf fs p = Inr es" "e \<in> set es"
  shows "length p < length e"
proof -
  from fs_iterate_entries [OF assms(2,3)] obtain n where "e = path_join p n" by blast
  with validate_short [OF assms(1)] show ?thesis by simp
qed

text \<open>
  The size of a folder is the sum over its visible entries, in 64-bit arithmetic; any exception
  makes it 0. The recursion ends because a path longer than the system's limit is not valid.
\<close>

function getFileSize :: "'a platform_scheme \<Rightarrow> fsys \<Rightarrow> string \<Rightarrow> 64 word" where
  "getFileSize pf fs filePath =
     (if \<not> validateInternalPath pf fs filePath then 0
      else (case fs_is_regular_file pf fs filePath of
          Inl Filesystem_error \<Rightarrow> 0
        | Inr True \<Rightarrow> (case fs_file_size pf fs filePath of Inr n \<Rightarrow> n | Inl Filesystem_error \<Rightarrow> 0)
        | Inr False \<Rightarrow>
            (case fs_is_directory pf fs filePath of
               Inl Filesystem_error \<Rightarrow> 0
             | Inr False \<Rightarrow> 0
             | Inr True \<Rightarrow>
                 (case fs_iterate pf fs filePath of
                    Inl Filesystem_error \<Rightarrow> 0
                  | Inr es \<Rightarrow> sum_list (map (getFileSize pf fs) (filter visible es))))))"
  by pat_completeness auto
termination
proof (relation "measure (\<lambda>(pf, fs, p). path_max - length p)", goal_cases)
  case (2 pf fs p b b' es e)
  then have "length p < length e" using iterate_longer [of pf fs p es e] by auto
  moreover have "length p < path_max" using 2 validate_short by blast
  ultimately show ?case by simp
qed simp

declare getFileSize.simps [simp del]

definition getModTime :: "'a platform_scheme \<Rightarrow> fsys \<Rightarrow> string \<Rightarrow> string" where
  "getModTime pf fs path =
     (if validateInternalPath pf fs path
      then (case fs_last_write_time pf fs path of Inr t \<Rightarrow> t | Inl Filesystem_error \<Rightarrow> [])
      else [])"

text \<open>FolderContent; on an empty path the members keep their defaults.\<close>

definition folderContent :: "'a platform_scheme \<Rightarrow> fsys \<Rightarrow> string \<Rightarrow> folder_content" where
  "folderContent pf fs absPath =
     (if absPath = [] then \<lparr>mName = [], mPath = absPath, mType = [], mModTime = [], mSize = 0\<rparr>
      else \<lparr>mName = after_last (CHR ''/'') absPath, mPath = absPath,
            mType = getFileType pf fs absPath, mModTime = getModTime pf fs absPath,
            mSize = getFileSize pf fs absPath\<rparr>)"

record folder_contents =
  mFullPath :: string
  mTotalCount :: "32 word"
  mContents :: "folder_content list"
  fc_status :: int

definition folderContents :: "'a platform_scheme \<Rightarrow> fsys \<Rightarrow> string \<Rightarrow> folder_contents" where
  "folderContents pf fs fullPath =
     (if \<not> validateInternalPath pf fs fullPath
      then \<lparr>mFullPath = fullPath, mTotalCount = 0, mContents = [], fc_status = op_code OP_INVALID_PATH\<rparr>
      else (case fs_iterate pf fs fullPath of
          Inl Filesystem_error \<Rightarrow>
            \<lparr>mFullPath = fullPath, mTotalCount = 0, mContents = [], fc_status = op_code OP_INVALID_PATH\<rparr>
        | Inr es \<Rightarrow>
            (let cs = map (folderContent pf fs) (filter visible es)
             in \<lparr>mFullPath = fullPath, mTotalCount = of_nat (length cs), mContents = cs,
                 fc_status = op_code OP_NO_ERROR\<rparr>)))"

record space_info =
  si_path :: string
  mCapacity :: "32 word"
  mFreeSpace :: "32 word"
  mAvailSpace :: "32 word"
  mIsWritable :: bool
  mIsDeletable :: bool
  si_status :: int

text \<open>InternalSpaceInfo: the byte counts of the device are stored in 32 bits.\<close>

definition internalSpaceInfo :: "'a platform_scheme \<Rightarrow> fsys \<Rightarrow> string \<Rightarrow> space_info" where
  "internalSpaceInfo pf fs path =
     (let s0 = \<lparr>si_path = path, mCapacity = 0, mFreeSpace = 0, mAvailSpace = 0,
                mIsWritable = False, mIsDeletable = False, si_status = op_code OP_NO_ERROR\<rparr>
      in if \<not> validateInternalPath pf fs path then s0\<lparr>si_status := op_code OP_INVALID_PATH\<rparr>
         else (case fs_space pf fs path of
             Inl Filesystem_error \<Rightarrow> s0\<lparr>si_status := op_code OP_INVALID_PATH\<rparr>
           | Inr (c, f, a) \<Rightarrow>
               (let s1 = s0\<lparr>mCapacity := ucast c, mFreeSpace := ucast f, mAvailSpace := ucast a\<rparr>
                in case fs_perms pf fs path of
                     Inl Filesystem_error \<Rightarrow> s1\<lparr>si_status := op_code OP_INVALID_PATH\<rparr>
                   | Inr (ow, gw) \<Rightarrow>
                       s1\<lparr>mIsWritable := ow, mIsDeletable := gw, si_status := op_code OP_SUCCESS\<rparr>)))"

definition getCapacityMB :: "space_info \<Rightarrow> 32 word" where
  "getCapacityMB s = mCapacity s div 1000000"

definition getFreeSpaceMB :: "space_info \<Rightarrow> 32 word" where
  "getFreeSpaceMB s = mFreeSpace s div 1000000"

definition getAvailSpaceMB :: "space_info \<Rightarrow> 32 word" where
  "getAvailSpaceMB s = mAvailSpace s div 1000000"

text \<open>getLastModTime: an invalid path also turns the object's status.\<close>

definition getLastModTime :: "'a platform_scheme \<Rightarrow> fsys \<Rightarrow> space_info \<Rightarrow> string \<times> space_info" where
  "getLastModTime pf fs s =
     (if validateInternalPath pf fs (si_path s)
      then ((case fs_last_write_time pf fs (si_path s) of Inr t \<Rightarrow> t | Inl Filesystem_error \<Rightarrow> []), s)
      else ([], s\<lparr>si_status := op_code OP_INVALID_PATH\<rparr>))"

section \<open>Properties of paths and listings\<close>

text \<open>What a hidden folder, an escape through dots and the resolution of a path give.\<close>

lemma split_slash_append: "split_slash (u @ CHR ''/'' # v) = split_slash u @ split_slash v"
proof (induction u)
  case (Cons c u)
  have "split_slash u \<noteq> []" by (cases u) (auto split: list.splits)
  with Cons show ?case by (auto split: list.splits)
qed simp

lemma comps_append: "comps (u @ CHR ''/'' # v) = comps u @ comps v"
  by (simp add: comps_def split_slash_append)

lemma walk_dotdot: "walk b fs q (''..'' # cs) = walk b fs (butlast q) cs"
  by simp

lemma comps_tmp: "comps ''/tmp/..'' = [''tmp'', ''..'']"
  by (simp add: comps_def)

lemma resolve_tmp_escape:
  assumes "\<not> is_link_node (node_at fs [''tmp''])"
  shows "resolve fs (''/tmp/..'' @ CHR ''/'' # p) = resolve fs (CHR ''/'' # p)"
proof -
  have "comps (''/tmp/..'' @ CHR ''/'' # p) = ''tmp'' # ''..'' # comps p"
    "comps (CHR ''/'' # p) = comps p"
    using comps_append [of "''/tmp/..''" p] comps_append [of "[]" p] comps_tmp
    by (simp_all add: comps_def)
  then show ?thesis using assms
    by (auto simp: resolve_def split: option.splits fnode.splits)
qed

text \<open>
  The check on the prefix of an internal path does not confine it: for every existing path,
  the same path behind /tmp/.. passes the check for every session, as the check reads the text
  of the path and the file system resolves the dots.
\<close>

theorem allowed_prefix_can_be_left:
  assumes "\<not> is_link_node (node_at fs [''tmp''])" "fs_exists_ec pf fs (CHR ''/'' # p)"
    and "length p + 8 < path_max" "\<not> read_fault pf (Q_status (''/tmp/../'' @ p)) fs"
  shows "util_validateInternalPath pf fs (''/tmp/../'' @ p) sid"
proof -
  have "resolve fs (''/tmp/../'' @ p) = resolve fs (CHR ''/'' # p)"
    using resolve_tmp_escape [OF assms(1), of p] by simp
  then show ?thesis using assms
    by (auto simp: util_validateInternalPath_def fs_exists_ec_def fs_exists_def fs_status_def
        split: if_splits option.splits)
qed

theorem allowed_prefix_can_be_left_witness:
  "util_validateInternalPath calm_platform
     [([''tmp''], plain_dir), ([''etc''], plain_dir), ([''etc'', ''shadow''], plain_file ''x'')]
     ''/tmp/../etc/shadow'' ''root''"
proof -
  let ?fs = "[([''tmp''], plain_dir), ([''etc''], plain_dir), ([''etc'', ''shadow''], plain_file ''x'')]"
  have "fs_exists_ec calm_platform ?fs ''/etc/shadow''"
    by (simp add: fs_exists_ec_def fs_exists_def fs_status_def path_max_def resolve_def
        comps_def node_at_def plain_dir_def plain_file_def)
  then show ?thesis
    using allowed_prefix_can_be_left [of ?fs calm_platform "''etc/shadow''" "''root''"]
    by (simp add: node_at_def plain_dir_def path_max_def calm_platform_def)
qed

text \<open>
  A storage's capacity and free space are reported modulo 2^32 bytes: the megabytes are those of
  the low 32 bits of the byte count, so no storage ever shows more than 4294.
\<close>

theorem space_kept_in_32_bits:
  assumes "si_status (internalSpaceInfo pf fs path) = op_code OP_SUCCESS"
  shows "\<exists>c f a. fs_space pf fs path = Inr (c, f, a)
     \<and> uint (getCapacityMB (internalSpaceInfo pf fs path)) = (uint c mod 2 ^ 32) div 1000000
     \<and> uint (getFreeSpaceMB (internalSpaceInfo pf fs path)) = (uint f mod 2 ^ 32) div 1000000
     \<and> uint (getCapacityMB (internalSpaceInfo pf fs path)) \<le> 4294"
proof -
  have u: "uint (ucast (x :: 64 word) :: 32 word) = uint x mod 2 ^ 32" for x
    by (simp add: unsigned_ucast_eq take_bit_eq_mod)
  have b: "(uint (x :: 64 word) mod 2 ^ 32) div 1000000 \<le> 4294" for x
    using pos_mod_bound [of "2 ^ 32 :: int" "uint x"] by simp
  from assms obtain c f a r where "fs_space pf fs path = Inr (c, f, a)" "fs_perms pf fs path = Inr r"
      "validateInternalPath pf fs path"
    by (auto simp: internalSpaceInfo_def Let_def split: if_splits sum.splits fs_error.splits prod.splits)
  then show ?thesis using u b
    by (cases r) (auto simp: internalSpaceInfo_def Let_def getCapacityMB_def getFreeSpaceMB_def uint_div)
qed

theorem space_kept_in_32_bits_witness:
  "\<exists>c f a. fs_space calm_platform [([''tmp''], plain_dir)] ''/tmp'' = Inr (c, f, a)
     \<and> uint c div 1000000 = 8000
     \<and> uint (getCapacityMB (internalSpaceInfo calm_platform [([''tmp''], plain_dir)] ''/tmp'')) = 3705"
proof -
  let ?i = "internalSpaceInfo calm_platform [([''tmp''], plain_dir)] ''/tmp''"
  have sp: "fs_space calm_platform [([''tmp''], plain_dir)] ''/tmp'' = Inr (8000000000, 2000000000, 1000000000)"
    by (simp add: fs_space_def calm_platform_def)
  have "si_status ?i = op_code OP_SUCCESS"
    by (simp add: internalSpaceInfo_def validateInternalPath_def fs_exists_def fs_perms_def fs_space_def fs_status_def
       calm_platform_def path_max_def resolve_def comps_def node_at_def plain_dir_def Let_def)
  from space_kept_in_32_bits [OF this] sp show ?thesis by simp
qed

lemma contains_dot_join:
  assumes "CHR ''/'' \<notin> set n"
  shows "str_contains ''/.'' (p @ CHR ''/'' # n) \<longleftrightarrow> str_contains ''/.'' p \<or> prefix ''.'' n"
proof
  assume "str_contains ''/.'' (p @ CHR ''/'' # n)"
  then obtain u v where "p @ CHR ''/'' # n = u @ CHR ''/'' # CHR ''.'' # v"
    by (auto simp: str_contains_iff)
  then show "str_contains ''/.'' p \<or> prefix ''.'' n" using assms
    by (auto simp: str_contains_iff append_eq_append_conv2 Cons_eq_append_conv append_eq_Cons_conv)
next
  assume "str_contains ''/.'' p \<or> prefix ''.'' n"
  then consider u v where "p = u @ ''/.'' @ v" | v where "n = CHR ''.'' # v"
    by (auto simp: str_contains_iff prefix_def)
  then show "str_contains ''/.'' (p @ CHR ''/'' # n)"
  proof cases
    case 1
    then show ?thesis using str_find_append [of "''/.''" u "v @ CHR ''/'' # n"]
      by (simp add: str_contains_def del: str_find.simps)
  next
    case 2
    then show ?thesis using str_find_append [of "''/.''" p v]
      by (simp add: str_contains_def del: str_find.simps)
  qed
qed

text \<open>
  A folder that can be listed gives the names of its entries that do not start with a dot, in
  the order of the directory, and counts them; nothing at all is listed of a folder the process
  may not read, and nothing of a folder below a hidden one, however visible its own entries are.
\<close>

theorem listing_is_visible_entries:
  assumes "fc_status (folderContents pf fs path) = op_code OP_NO_ERROR" "resolve fs path = Some q"
    and "\<forall>n \<in> set (children fs q). CHR ''/'' \<notin> set n"
  shows "is_dir_node (node_at fs q)
     \<and> map mName (mContents (folderContents pf fs path)) =
        (if dir_denied pf path fs \<or> str_contains ''/.'' path then []
         else filter (\<lambda>n. \<not> prefix ''.'' n) (children fs q))
     \<and> unat (mTotalCount (folderContents pf fs path)) = length (mContents (folderContents pf fs path)) mod 2 ^ 32"
proof -
  from assms(1) have v: "validateInternalPath pf fs path"
    by (auto simp: folderContents_def split: if_splits)
  from assms(1) v obtain es where es: "fs_iterate pf fs path = Inr es"
    by (auto simp: folderContents_def split: if_splits sum.splits fs_error.splits)
  note p = validate_short [OF v]
  from es assms(2) have q: "is_dir_node (node_at fs q)"
    "es = (if dir_denied pf path fs then [] else map (\<lambda>n. path @ CHR ''/'' # n) (children fs q))"
    using p by (auto simp: fs_iterate_def split: if_splits)
  have nm: "mName (folderContent pf fs (path @ CHR ''/'' # n)) = n" if "n \<in> set (children fs q)" for n
    using that assms(3) by (simp add: folderContent_def)
  have vis: "visible (path @ CHR ''/'' # n) \<longleftrightarrow> \<not> str_contains ''/.'' path \<and> \<not> prefix ''.'' n"
    if "n \<in> set (children fs q)" for n
    using contains_dot_join that assms(3) by (simp add: visible_def)
  have c: "mContents (folderContents pf fs path) = map (folderContent pf fs) (filter visible es)"
    "unat (mTotalCount (folderContents pf fs path)) = length (mContents (folderContents pf fs path)) mod 2 ^ 32"
    using v es by (simp_all add: folderContents_def Let_def unsigned_of_nat take_bit_eq_mod)
  have "map mName (map (folderContent pf fs) (filter visible es)) =
        (if dir_denied pf path fs \<or> str_contains ''/.'' path then []
         else filter (\<lambda>n. \<not> prefix ''.'' n) (children fs q))"
    using nm vis by (auto simp: q(2) filter_map o_def intro!: map_idI cong: filter_cong)
  then show ?thesis using q(1) c by simp
qed

theorem listing_is_visible_entries_witness:
  "map mName (mContents (folderContents calm_platform
      [([''tmp''], plain_dir), ([''tmp'', ''.x''], plain_dir), ([''tmp'', ''a''], plain_file ''1'')] ''/tmp''))
   = [''a'']"
proof -
  let ?fs = "[([''tmp''], plain_dir), ([''tmp'', ''.x''], plain_dir), ([''tmp'', ''a''], plain_file ''1'')]"
  have r: "resolve ?fs ''/tmp'' = Some [''tmp'']" "children ?fs [''tmp''] = [''.x'', ''a'']"
    "\<not> str_contains ''/.'' ''/tmp''"
    by (simp_all add: resolve_def comps_def node_at_def plain_dir_def children_def str_contains_def)
  have "fc_status (folderContents calm_platform ?fs ''/tmp'') = op_code OP_NO_ERROR"
    by (simp add: folderContents_def validateInternalPath_def fs_iterate_def fs_exists_def fs_status_def r(1)
       path_max_def node_at_def Let_def)
  from listing_is_visible_entries [OF this r(1)] r show ?thesis by simp
qed

end
