(* ===== verification/Saf_Operations.thy ===== *)
theory Saf_Operations
  imports Saf_Utility
begin

text \<open>
  The operation objects of SAFUtilityOperation: InternalCopy, InternalMove, InternalRemove,
  InternalRename and InternalCreateDir. Each constructor runs its operation (the future of
  std::async is a temporary, so the copy ends before the constructor does) and leaves a status:
  a negative code, or the progress. The progress loop the providers share follows, proved once
  against the contract \<open>transfer_job\<close> of an object that can be polled.
\<close>

section \<open>Copy\<close>

record internal_copy =
  cSrcPath :: string
  cDestPath :: string
  cSrcSize :: "32 word"
  cDestSize :: "32 word"
  cStatus :: int
  cOverwrite :: bool

text \<open>The checks that open InternalCopy::init and InternalMove::init: the status, or where to copy.\<close>

definition transfer_prepare ::
  "'a platform_scheme \<Rightarrow> string \<Rightarrow> string \<Rightarrow> bool \<Rightarrow> fsys \<Rightarrow> (int + string) \<times> fsys" where
  "transfer_prepare pf src dest ov fs =
     (if \<not> validateInternalPath pf fs src then (Inl (op_code OP_INVALID_SOURCE_PATH), fs)
      else if \<not> validateInternalPath pf fs dest then (Inl (op_code OP_INVALID_DEST_PATH), fs)
      else (let desPath = dest @ CHR ''/'' # after_last (CHR ''/'') src in
        case fs_exists pf fs desPath of
          Inl Filesystem_error \<Rightarrow> (Inl (op_code OP_PERMISSION_DENIED), fs)
        | Inr ex \<Rightarrow>
            (if ex \<and> \<not> ov then (Inl (op_code OP_FILE_ALREADY_EXISTS), fs)
             else (case fs_is_directory pf fs src of
                 Inl Filesystem_error \<Rightarrow> (Inl (op_code OP_PERMISSION_DENIED), fs)
               | Inr False \<Rightarrow> (Inr dest, fs)
               | Inr True \<Rightarrow>
                   (if ex then (Inr desPath, fs)
                    else (case fs_create_directories pf desPath fs of
                        (Some Filesystem_error, fs') \<Rightarrow> (Inl (op_code OP_PERMISSION_DENIED), fs')
                      | (None, fs') \<Rightarrow> (Inr desPath, fs')))))))"

text \<open>The asynchronous part: fs::copy inside its own try block.\<close>

definition copy_async ::
  "'a platform_scheme \<Rightarrow> string \<Rightarrow> string \<Rightarrow> bool \<Rightarrow> fsys \<Rightarrow> int \<times> fsys" where
  "copy_async pf src dest ov fs =
     (case fs_copy pf src dest ov fs of
        (None, fs') \<Rightarrow> (op_code OP_SUCCESS, fs')
      | (Some Filesystem_error, fs') \<Rightarrow> (op_code OP_PERMISSION_DENIED, fs'))"

definition internalCopy ::
  "'a platform_scheme \<Rightarrow> string \<Rightarrow> string \<Rightarrow> bool \<Rightarrow> fsys \<Rightarrow> internal_copy \<times> fsys" where
  "internalCopy pf src dest ov fs =
     (let c0 = \<lparr>cSrcPath = src, cDestPath = dest, cSrcSize = 0, cDestSize = 0,
                cStatus = op_code OP_NO_ERROR, cOverwrite = ov\<rparr>
      in case transfer_prepare pf src dest ov fs of
           (Inl st, fs') \<Rightarrow> (c0\<lparr>cStatus := st\<rparr>, fs')
         | (Inr d, fs') \<Rightarrow>
             (let c1 = c0\<lparr>cDestPath := d, cSrcSize := ucast (getFileSize pf fs' src),
                          cDestSize := ucast (getFileSize pf fs' d)\<rparr>;
                  (st, fs'') = copy_async pf src d ov fs'
              in (c1\<lparr>cStatus := st\<rparr>, fs'')))"

text \<open>The arithmetic on sizes is unsigned 32-bit; the division is only reached when change is positive.\<close>

definition copy_getStatus :: "'a platform_scheme \<Rightarrow> fsys \<Rightarrow> internal_copy \<Rightarrow> int \<times> internal_copy" where
  "copy_getStatus pf fs c =
     (if cStatus c < 0 then (cStatus c, c)
      else (let size = ucast (getFileSize pf fs (cDestPath c)) :: 32 word;
                c1 = c\<lparr>cDestSize := size\<rparr>;
                change = cSrcSize c1 - size + cDestSize c1;
                st = (if 0 \<le> cStatus c1 \<and> 0 < change then sint (change div cSrcSize c1 * 100)
                      else if 0 \<le> cStatus c1 \<and> change = 0 then op_code OP_SUCCESS
                      else cStatus c1)
            in (st, c1\<lparr>cStatus := st\<rparr>)))"

section \<open>Move\<close>

text \<open>InternalMove has the members of InternalCopy; its init removes the source after the copy.\<close>

definition internalMove ::
  "'a platform_scheme \<Rightarrow> string \<Rightarrow> string \<Rightarrow> bool \<Rightarrow> fsys \<Rightarrow> internal_copy \<times> fsys" where
  "internalMove pf src dest ov fs =
     (let c0 = \<lparr>cSrcPath = src, cDestPath = dest, cSrcSize = 0, cDestSize = 0,
                cStatus = op_code OP_NO_ERROR, cOverwrite = ov\<rparr>
      in case transfer_prepare pf src dest ov fs of
           (Inl st, fs') \<Rightarrow> (c0\<lparr>cStatus := st\<rparr>, fs')
         | (Inr d, fs') \<Rightarrow>
             (let c1 = c0\<lparr>cDestPath := d, cSrcSize := ucast (getFileSize pf fs' src),
                          cDestSize := ucast (getFileSize pf fs' d)\<rparr>;
                  (st, fs2) = copy_async pf src d ov fs'
              in case fs_remove_all pf src fs2 of
                   (None, fs3) \<Rightarrow> (c1\<lparr>cStatus := st\<rparr>, fs3)
                 | (Some Filesystem_error, fs3) \<Rightarrow>
                     (c1\<lparr>cStatus := op_code OP_PERMISSION_DENIED\<rparr>, fs3)))"

text \<open>InternalMove::getStatus has no early return; on a negative status neither branch applies.\<close>

definition move_getStatus :: "'a platform_scheme \<Rightarrow> fsys \<Rightarrow> internal_copy \<Rightarrow> int \<times> internal_copy" where
  "move_getStatus pf fs c =
     (let size = ucast (getFileSize pf fs (cDestPath c)) :: 32 word;
          c1 = c\<lparr>cDestSize := size\<rparr>;
          change = cSrcSize c1 - size + cDestSize c1;
          st = (if 0 \<le> cStatus c1 \<and> 0 < change then sint (change div cSrcSize c1 * 100)
                else if 0 \<le> cStatus c1 \<and> change = 0 then op_code OP_SUCCESS
                else cStatus c1)
      in (st, c1\<lparr>cStatus := st\<rparr>))"

section \<open>Remove, rename, create\<close>

definition internalRemove :: "'a platform_scheme \<Rightarrow> string \<Rightarrow> fsys \<Rightarrow> int \<times> fsys" where
  "internalRemove pf path fs =
     (if validateInternalPath pf fs path
      then (case fs_remove_all pf path fs of
          (None, fs') \<Rightarrow> (op_code OP_SUCCESS, fs')
        | (Some Filesystem_error, fs') \<Rightarrow> (op_code OP_PERMISSION_DENIED, fs'))
      else (op_code OP_INVALID_PATH, fs))"

definition internalRename :: "'a platform_scheme \<Rightarrow> string \<Rightarrow> string \<Rightarrow> fsys \<Rightarrow> int \<times> fsys" where
  "internalRename pf oldAbsPath newName fs =
     (if \<not> validateInternalPath pf fs oldAbsPath then (op_code OP_INVALID_SOURCE_PATH, fs)
      else if newName = [] \<or> str_contains ''/'' newName then (op_code OP_INVALID_DEST_PATH, fs)
      else (let newAbsPath = upto_last (CHR ''/'') oldAbsPath @ newName
            in case fs_rename pf oldAbsPath newAbsPath fs of
                 (None, fs') \<Rightarrow> (op_code OP_SUCCESS, fs')
               | (Some Filesystem_error, fs') \<Rightarrow> (op_code OP_PERMISSION_DENIED, fs')))"

definition internalCreateDir :: "'a platform_scheme \<Rightarrow> string \<Rightarrow> fsys \<Rightarrow> int \<times> fsys" where
  "internalCreateDir pf path fs =
     (if validateInternalPath pf fs path
      then (case fs_create_directories pf path fs of
          (None, fs') \<Rightarrow> (op_code OP_SUCCESS, fs')
        | (Some Filesystem_error, fs') \<Rightarrow> (op_code OP_PERMISSION_DENIED, fs'))
      else (op_code OP_INVALID_PATH, fs))"

section \<open>The methods of the singleton\<close>

definition util_getListFolderContents :: "'a platform_scheme \<Rightarrow> string \<Rightarrow> world \<Rightarrow> folder_contents" where
  "util_getListFolderContents pf path w = folderContents pf (w_fs w) path"

definition util_getProperties :: "'a platform_scheme \<Rightarrow> string \<Rightarrow> world \<Rightarrow> space_info" where
  "util_getProperties pf path w = internalSpaceInfo pf (w_fs w) (if path = [] then ''/tmp'' else path)"

definition util_copy ::
  "'a platform_scheme \<Rightarrow> string \<Rightarrow> string \<Rightarrow> bool \<Rightarrow> world \<Rightarrow> internal_copy \<times> world" where
  "util_copy pf src dest ov w =
     (case internalCopy pf src dest ov (w_fs w) of (c, fs') \<Rightarrow> (c, w\<lparr>w_fs := fs'\<rparr>))"

definition util_move ::
  "'a platform_scheme \<Rightarrow> string \<Rightarrow> string \<Rightarrow> bool \<Rightarrow> world \<Rightarrow> internal_copy \<times> world" where
  "util_move pf src dest ov w =
     (case internalMove pf src dest ov (w_fs w) of (c, fs') \<Rightarrow> (c, w\<lparr>w_fs := fs'\<rparr>))"

definition util_remove :: "'a platform_scheme \<Rightarrow> string \<Rightarrow> world \<Rightarrow> int \<times> world" where
  "util_remove pf path w =
     (case internalRemove pf path (w_fs w) of (st, fs') \<Rightarrow> (st, w\<lparr>w_fs := fs'\<rparr>))"

definition util_rename :: "'a platform_scheme \<Rightarrow> string \<Rightarrow> string \<Rightarrow> world \<Rightarrow> int \<times> world" where
  "util_rename pf src dest w =
     (case internalRename pf src dest (w_fs w) of (st, fs') \<Rightarrow> (st, w\<lparr>w_fs := fs'\<rparr>))"

section \<open>The progress loop\<close>

text \<open>
  The loop that ends copy and move in the providers: poll, put the outcome into the reply object,
  answer when the status changed, stop at 100 or at an error. On an error the code polls a second
  time for the error code. It may run forever, so it is a partial function. \<open>fresh\<close> says whether
  the reply object is a new one in every round (USBStorageProvider::moveMethod) or is kept.
\<close>

partial_function (option) progress_loop ::
  "('j \<Rightarrow> int \<times> 'j) \<Rightarrow> (int \<Rightarrow> string) \<Rightarrow> bool \<Rightarrow> int \<Rightarrow> json \<Rightarrow> json list \<Rightarrow> 'j \<Rightarrow> (json list) option" where
  "progress_loop poll text fresh prev resp out j =
     (let (st, j1) = poll j;
          r0 = jput ''returnValue'' (JBool (\<not> st < 0)) (if fresh then jobject else resp);
          (r1, j2) =
            (if \<not> st < 0 then (jput ''progress'' (JNum st) r0, j1)
             else (let (st', j') = poll j1;
                       errorCode = getInternalErrorCode st'
                   in (jput ''errorText'' (JStr (text errorCode)) (jput ''errorCode'' (JNum errorCode) r0), j')));
          out' = (if st \<noteq> prev then out @ [r1] else out)
      in if 100 \<le> st \<or> st < 0 then Some out' else progress_loop poll text fresh st r1 out' j2)"

definition progress_report ::
  "('j \<Rightarrow> int \<times> 'j) \<Rightarrow> (int \<Rightarrow> string) \<Rightarrow> bool \<Rightarrow> json \<Rightarrow> 'j \<Rightarrow> (json list) option" where
  "progress_report poll text fresh resp j = progress_loop poll text fresh (-20) resp [] j"

text \<open>
  What the loop needs of an object: a poll gives an error or at least 100, never the sentinel
  -20, and polling again gives the same.
\<close>

locale transfer_job =
  fixes poll :: "'j \<Rightarrow> int \<times> 'j"
    and ok :: "'j \<Rightarrow> bool"
  assumes settled: "ok j \<Longrightarrow> fst (poll j) < 0 \<or> 100 \<le> fst (poll j)"
    and not_sentinel: "ok j \<Longrightarrow> fst (poll j) \<noteq> -20"
    and stable: "ok j \<Longrightarrow> fst (poll (snd (poll j))) = fst (poll j)"
    and ok_poll: "ok j \<Longrightarrow> ok (snd (poll j))"
begin

text \<open>The single reply of the loop.\<close>

definition verdict :: "(int \<Rightarrow> string) \<Rightarrow> bool \<Rightarrow> json \<Rightarrow> 'j \<Rightarrow> json" where
  "verdict text fresh resp j =
     (let st = fst (poll j); r0 = jput ''returnValue'' (JBool (\<not> st < 0)) (if fresh then jobject else resp)
      in if st < 0
         then jput ''errorText'' (JStr (text (getInternalErrorCode st)))
                (jput ''errorCode'' (JNum (getInternalErrorCode st)) r0)
         else jput ''progress'' (JNum st) r0)"

lemma loop_once:
  assumes "ok j"
  shows "progress_report poll text fresh resp j = Some [verdict text fresh resp j]"
proof -
  obtain st j1 where p: "poll j = (st, j1)" by (cases "poll j")
  obtain st' j2 where p1: "poll j1 = (st', j2)" by (cases "poll j1")
  from p p1 stable [OF assms] have st': "st' = st" by simp
  have "st < 0 \<or> 100 \<le> st" "st \<noteq> -20"
    using settled [OF assms] not_sentinel [OF assms] p by auto
  then show ?thesis
    unfolding progress_report_def verdict_def
    by (subst progress_loop.simps) (auto simp: p p1 st' Let_def)
qed

end

section \<open>Polling a copy or a move\<close>

text \<open>
  The size of the destination cancels out of the change, so what is compared with the source
  size is the source size itself: a status that is no error always polls as 100.
\<close>

definition job_ok :: "internal_copy \<Rightarrow> bool" where
  "job_ok c \<longleftrightarrow> cStatus c = 100 \<or> op_failure (cStatus c)"

lemma change_cancels: "(s::32 word) - d + d = s"
  by simp

lemma poll_hundred: "(0::32 word) < s \<Longrightarrow> sint (s div s * 100) = 100"
  by (simp add: word_gt_0 word_div_def uint_0_iff)

lemma copy_poll:
  "fst (copy_getStatus pf fs c) = (if cStatus c < 0 then cStatus c else 100)"
  "snd (copy_getStatus pf fs c) =
     (if cStatus c < 0 then c
      else c\<lparr>cDestSize := ucast (getFileSize pf fs (cDestPath c)), cStatus := 100\<rparr>)"
  by (auto simp: copy_getStatus_def Let_def poll_hundred word_gt_0)

lemma move_poll:
  "fst (move_getStatus pf fs c) = (if cStatus c < 0 then cStatus c else 100)"
  "snd (move_getStatus pf fs c) =
     c\<lparr>cDestSize := ucast (getFileSize pf fs (cDestPath c)),
       cStatus := (if cStatus c < 0 then cStatus c else 100)\<rparr>"
  by (auto simp: move_getStatus_def Let_def poll_hundred word_gt_0)

interpretation copy_job: transfer_job "copy_getStatus pf fs" job_ok
  by unfold_locales (auto simp: copy_poll job_ok_def op_failure_def)

interpretation move_job: transfer_job "move_getStatus pf fs" job_ok
  by unfold_locales (auto simp: move_poll job_ok_def op_failure_def)

lemma transfer_prepare_failure:
  "fst (transfer_prepare pf src dest ov fs) = Inl st \<Longrightarrow> op_failure st"
  by (auto simp: transfer_prepare_def op_failure_def Let_def split: if_splits sum.splits fs_error.splits
      bool.splits prod.splits option.splits)

lemma copy_async_status:
  "copy_async pf src d ov fs = (st, fs') \<Longrightarrow> st = 100 \<or> st = -6"
  by (auto simp: copy_async_def split: prod.splits option.splits fs_error.splits)

lemma job_ok_copy: "job_ok (fst (internalCopy pf src dest ov fs))"
proof (cases "transfer_prepare pf src dest ov fs")
  case (Pair r fs')
  then show ?thesis
    using transfer_prepare_failure [of pf src dest ov fs]
    by (cases r) (auto simp: internalCopy_def job_ok_def op_failure_def Let_def
        dest!: copy_async_status split: prod.splits)
qed

lemma job_ok_move: "job_ok (fst (internalMove pf src dest ov fs))"
proof (cases "transfer_prepare pf src dest ov fs")
  case (Pair r fs')
  then show ?thesis
    using transfer_prepare_failure [of pf src dest ov fs]
    by (cases r) (auto simp: internalMove_def job_ok_def op_failure_def Let_def
        dest!: copy_async_status split: prod.splits option.splits fs_error.splits)
qed

section \<open>Properties of the operations\<close>

text \<open>
  C21: A remove that reports success deletes the tree the path names, the path itself included and a
  final symbolic link not followed, and nothing else: every other node is as it was.
\<close>

theorem remove_deletes_exactly:
  assumes "internalRemove pf path fs = (op_code OP_SUCCESS, fs')"
    and "write_fault pf (U_remove path) fs = None"
  shows "\<exists>q. q \<noteq> [] \<and> resolve_nofollow fs path = Some q
     \<and> (\<forall>r. node_at fs' r = (if prefix q r then None else node_at fs r))"
  using assms
  by (auto simp: internalRemove_def fs_remove_all_def fs_write_None node_at_drop_tree
      split: if_splits option.splits fs_error.splits prod.splits)

theorem remove_deletes_exactly_witness:
  "\<exists>fs'. internalRemove calm_platform ''/tmp/a'' [([''tmp''], plain_dir), ([''tmp'', ''a''], plain_dir)] = (100, fs')
     \<and> node_at fs' [''tmp'', ''a''] = None \<and> node_at fs' [''tmp''] = Some plain_dir"
proof -
  let ?fs = "[([''tmp''], plain_dir), ([''tmp'', ''a''], plain_dir)]"
  have r: "resolve_nofollow ?fs ''/tmp/a'' = Some [''tmp'', ''a'']" "resolve ?fs ''/tmp/a'' = Some [''tmp'', ''a'']"
    by (simp_all add: resolve_nofollow_def resolve_def comps_def node_at_def plain_dir_def)
  have "validateInternalPath calm_platform ?fs ''/tmp/a''"
    by (simp add: validateInternalPath_def fs_exists_def fs_status_def r path_max_def node_at_def)
  then obtain fs' where i: "internalRemove calm_platform ''/tmp/a'' ?fs = (op_code OP_SUCCESS, fs')"
    by (simp add: internalRemove_def fs_remove_all_def fs_write_None r)
  from remove_deletes_exactly [OF i] r have "\<forall>q. node_at fs' q = (if prefix [''tmp'', ''a''] q then None else node_at ?fs q)"
    by auto
  from this [rule_format, of "[''tmp'', ''a'']"] this [rule_format, of "[''tmp'']"]
  have "node_at fs' [''tmp'', ''a''] = None" "node_at fs' [''tmp''] = Some plain_dir"
    by (simp_all add: node_at_def [of ?fs])
  with i show ?thesis by auto
qed

text \<open>The last component of a path and the path before it.\<close>

lemma comps_snoc: "CHR ''/'' \<notin> set n \<Longrightarrow> n \<noteq> [] \<Longrightarrow> n \<noteq> ''.'' \<Longrightarrow> comps (u @ CHR ''/'' # n) = comps u @ [n]"
proof -
  assume a: "CHR ''/'' \<notin> set n" "n \<noteq> []" "n \<noteq> ''.''"
  have "split_slash n = [n]" using a(1) by (induction n) (auto split: if_splits)
  with a show ?thesis by (simp add: comps_append) (simp add: comps_def)
qed

lemma resolve_nofollow_snoc:
  assumes "CHR ''/'' \<notin> set n" "n \<noteq> []" "n \<noteq> ''.''" "n \<noteq> ''..''"
  shows "resolve_nofollow fs (u @ CHR ''/'' # n) = map_option (\<lambda>d. d @ [n]) (walk max_links fs [] (comps u))"
  using assms by (simp add: resolve_nofollow_def comps_snoc split: option.splits)

text \<open>
  C22: A rename that reports success moves the whole tree of the old name to the new name inside the
  same directory, replacing what was there, and touches nothing else: a new name with a slash is
  refused, so a rename never leaves its directory.
\<close>

theorem rename_stays_in_directory:
  assumes "internalRename pf (u @ CHR ''/'' # n) newName fs = (op_code OP_SUCCESS, fs')"
    and "CHR ''/'' \<notin> set n" "n \<notin> {[], ''.'', ''..''}" "newName \<notin> {''.'', ''..'', n}"
    and "write_fault pf (U_rename (u @ CHR ''/'' # n) (u @ CHR ''/'' # newName)) fs = None"
  shows "\<exists>d. walk max_links fs [] (comps u) = Some d
     \<and> (\<forall>r. node_at fs' r =
          (if prefix (d @ [newName]) r then node_at fs (d @ [n] @ drop (length d + 1) r)
           else if prefix (d @ [n]) r then None else node_at fs r))"
proof -
  from assms(1) have nn: "newName \<noteq> []" "CHR ''/'' \<notin> set newName"
    using str_find_append [of "''/''"]
    by (auto simp: internalRename_def str_contains_iff in_set_conv_decomp split: if_splits)
  from assms(1,2,5) nn have f: "fs_rename pf (u @ CHR ''/'' # n) (u @ CHR ''/'' # newName) fs = (None, fs')"
    by (auto simp: internalRename_def Let_def split: if_splits prod.splits option.splits fs_error.splits)
  from assms(2-4) nn obtain d where d: "walk max_links fs [] (comps u) = Some d"
    "rename_node (d @ [n]) (d @ [newName]) fs = (None, fs')"
    using f by (auto simp: fs_rename_def fs_write_None assms(5) resolve_nofollow_snoc split: option.splits)
  have "\<not> prefix (d @ [n]) (d @ [newName])" "\<not> prefix (d @ [newName]) (d @ [n])" "d @ [n] \<noteq> d @ [newName]"
    using assms(4) by (auto simp: same_prefix_prefix)
  then have "fs' = move_tree (d @ [n]) (d @ [newName]) fs"
    using d(2) by (auto simp: rename_node_def split: if_splits option.splits)
  with d(1) assms(4) show ?thesis by (auto simp: node_at_move_tree)
qed

theorem rename_stays_in_directory_witness:
  "\<exists>fs'. internalRename calm_platform ''/tmp/a'' ''b'' [([''tmp''], plain_dir), ([''tmp'', ''a''], plain_file ''x'')]
           = (100, fs')
     \<and> node_at fs' [''tmp'', ''b''] = Some (plain_file ''x'') \<and> node_at fs' [''tmp'', ''a''] = None"
proof -
  let ?fs = "[([''tmp''], plain_dir), ([''tmp'', ''a''], plain_file ''x'')]"
  have r: "resolve_nofollow ?fs ''/tmp/a'' = Some [''tmp'', ''a'']" "resolve ?fs ''/tmp/a'' = Some [''tmp'', ''a'']"
    "resolve_nofollow ?fs ''/tmp/b'' = Some [''tmp'', ''b'']"
    by (simp_all add: resolve_nofollow_def resolve_def comps_def node_at_def plain_dir_def plain_file_def)
  have n: "node_at ?fs [''tmp''] = Some plain_dir" "node_at ?fs [''tmp'', ''a''] = Some (plain_file ''x'')"
    "node_at ?fs [''tmp'', ''b''] = None"
    by (simp_all add: node_at_def)
  have "validateInternalPath calm_platform ?fs ''/tmp/a''"
    by (simp add: validateInternalPath_def fs_exists_def fs_status_def r path_max_def n)
  then obtain fs' where i: "internalRename calm_platform (''/tmp'' @ CHR ''/'' # ''a'') ''b'' ?fs = (op_code OP_SUCCESS, fs')"
    using upto_last_append [of "CHR ''/''" "''a''" "''/tmp''"]
    by (simp add: internalRename_def fs_rename_def fs_write_None r rename_node_def n str_contains_def)
  have w: "walk max_links ?fs [] (comps ''/tmp'') = Some [''tmp'']"
    by (simp add: comps_def node_at_def plain_dir_def)
  from rename_stays_in_directory [OF i] w
  have "\<forall>r. node_at fs' r = (if prefix [''tmp'', ''b''] r then node_at ?fs ([''tmp'', ''a''] @ drop 2 r)
           else if prefix [''tmp'', ''a''] r then None else node_at ?fs r)"
    by (simp add: numeral_2_eq_2)
  from this [rule_format, of "[''tmp'', ''b'']"] this [rule_format, of "[''tmp'', ''a'']"]
  have "node_at fs' [''tmp'', ''b''] = Some (plain_file ''x'')" "node_at fs' [''tmp'', ''a''] = None"
    by (simp_all add: n)
  with i show ?thesis by auto
qed

text \<open>A directory with one file and an empty folder beside it.\<close>

definition desk :: fsys where
  "desk = [([''tmp''], plain_dir), ([''tmp'', ''a''], plain_file ''x''), ([''tmp'', ''d''], plain_dir)]"

lemma desk_simps [simp]:
  "node_at desk [''tmp''] = Some plain_dir" "node_at desk [''tmp'', ''a''] = Some (plain_file ''x'')"
  "node_at desk [''tmp'', ''d''] = Some plain_dir" "node_at desk [''tmp'', ''d'', ''a''] = None"
  by (simp_all add: desk_def node_at_def)

lemma desk_paths [simp]:
  "resolve desk ''/tmp/a'' = Some [''tmp'', ''a'']" "resolve desk ''/tmp/d'' = Some [''tmp'', ''d'']"
  "resolve desk ''/tmp/d/a'' = Some [''tmp'', ''d'', ''a'']"
  "resolve_nofollow desk ''/tmp/a'' = Some [''tmp'', ''a'']" "resolve_nofollow desk ''/tmp/d'' = Some [''tmp'', ''d'']"
  by (simp_all add: resolve_nofollow_def resolve_def comps_def plain_dir_def plain_file_def
      desk_simps [unfolded plain_dir_def plain_file_def])

lemma desk_prepare:
  assumes "\<And>q. \<not> read_fault pf q desk"
  shows "transfer_prepare pf ''/tmp/a'' ''/tmp/d'' False desk = (Inr ''/tmp/d'', desk)"
proof -
  have a: "after_last (CHR ''/'') ''/tmp/a'' = ''a''"
    using after_last_append [of "CHR ''/''" "''a''" "''/tmp''"] by simp
  show ?thesis
    by (simp add: transfer_prepare_def validateInternalPath_def fs_exists_def fs_is_directory_def
        fs_status_def path_max_def a assms)
qed

text \<open>
  C23: A move that reports success has copied the source without an error and then removed exactly the
  tree of the source.
\<close>

theorem move_success_means_moved:
  assumes "internalMove pf src dest ov fs = (c, fs')" "cStatus c = op_code OP_SUCCESS"
    and "write_fault pf (U_remove src) = (\<lambda>_. None)"
  shows "\<exists>fs1 fs2 q. transfer_prepare pf src dest ov fs = (Inr (cDestPath c), fs1)
     \<and> fs_copy pf src (cDestPath c) ov fs1 = (None, fs2)
     \<and> resolve_nofollow fs2 src = Some q
     \<and> (\<forall>r. node_at fs' r = (if prefix q r then None else node_at fs2 r))"
proof -
  obtain r fs1 where p: "transfer_prepare pf src dest ov fs = (r, fs1)" by fastforce
  have "\<exists>d. r = Inr d"
  proof (cases r)
    case (Inl st)
    then have "op_failure st" using p transfer_prepare_failure [of pf src dest ov fs] by simp
    then show ?thesis using assms p Inl by (auto simp: internalMove_def op_failure_def Let_def)
  qed simp
  then obtain d where d: "r = Inr d" by blast
  show ?thesis using assms p d
    by (auto simp: internalMove_def copy_async_def fs_remove_all_def fs_write_None node_at_drop_tree Let_def
        split: prod.splits option.splits fs_error.splits if_splits)
qed

theorem move_success_means_moved_witness:
  "\<exists>c fs'. internalMove calm_platform ''/tmp/a'' ''/tmp/d'' False desk = (c, fs') \<and> cStatus c = 100
     \<and> node_at fs' [''tmp'', ''d'', ''a''] = Some (plain_file ''x'') \<and> node_at fs' [''tmp'', ''a''] = None"
proof -
  let ?new = "set_node [''tmp'', ''d'', ''a''] (plain_file ''x'') desk"
  have c: "fs_copy calm_platform ''/tmp/a'' ''/tmp/d'' False desk = (None, ?new)"
    by (simp add: fs_copy_def fs_write_None copy_node_def copy_file_def plain_file_def
        desk_simps [unfolded plain_file_def])
  have r: "resolve_nofollow ?new ''/tmp/a'' = Some [''tmp'', ''a'']"
    by (simp add: resolve_nofollow_def comps_def node_at_set_node plain_dir_def
        desk_simps [unfolded plain_dir_def])
  obtain m fs' where m: "internalMove calm_platform ''/tmp/a'' ''/tmp/d'' False desk = (m, fs')" by fastforce
  have st: "cStatus m = op_code OP_SUCCESS" "cDestPath m = ''/tmp/d''"
    using m by (auto simp: internalMove_def desk_prepare copy_async_def c fs_remove_all_def fs_write_None r)
  have wf: "write_fault calm_platform (U_remove ''/tmp/a'') = (\<lambda>_. None)" by (intro ext) simp
  from move_success_means_moved [OF m st(1) wf] st(2) c r
  have "\<forall>r. node_at fs' r = (if prefix [''tmp'', ''a''] r then None else node_at ?new r)"
    by (auto simp: desk_prepare)
  with m st show ?thesis by (auto simp: node_at_set_node)
qed

text \<open>
  C24: A move whose copy fails still removes the source: the client gets an error and the data is
  neither at its old nor at its new place.
\<close>

theorem failed_move_removes_source:
  assumes "transfer_prepare pf src dest ov fs = (Inr d, fs1)"
    and "fs_copy pf src d ov fs1 = (Some Filesystem_error, fs2)"
    and "resolve_nofollow fs2 src = Some q" "q \<noteq> []" "write_fault pf (U_remove src) fs2 = None"
  shows "\<exists>c fs'. internalMove pf src dest ov fs = (c, fs') \<and> cStatus c = op_code OP_PERMISSION_DENIED
     \<and> (\<forall>r. node_at fs' r = (if prefix q r then None else node_at fs2 r))"
  using assms
  by (auto simp: internalMove_def copy_async_def fs_remove_all_def fs_write_None node_at_drop_tree Let_def)

theorem failed_move_removes_source_witness:
  "\<exists>c fs'. internalMove (calm_platform\<lparr>write_fault := \<lambda>u fs. case u of U_copy _ _ _ \<Rightarrow> Some fs | _ \<Rightarrow> None\<rparr>)
         ''/tmp/a'' ''/tmp/d'' False desk = (c, fs') \<and> cStatus c = -6
     \<and> node_at fs' [''tmp'', ''d'', ''a''] = None \<and> node_at fs' [''tmp'', ''a''] = None"
proof -
  let ?pf = "calm_platform\<lparr>write_fault := \<lambda>u fs. case u of U_copy _ _ _ \<Rightarrow> Some fs | _ \<Rightarrow> None\<rparr>"
  have f: "fs_copy ?pf ''/tmp/a'' ''/tmp/d'' False desk = (Some Filesystem_error, desk)"
    by (simp add: fs_copy_def fs_write_def)
  have p: "transfer_prepare ?pf ''/tmp/a'' ''/tmp/d'' False desk = (Inr ''/tmp/d'', desk)"
    by (rule desk_prepare) simp
  show ?thesis using failed_move_removes_source [OF p f, of "[''tmp'', ''a'']"] by fastforce
qed

text \<open>Every node but the root lies in a directory.\<close>

definition wf_tree :: "fsys \<Rightarrow> bool" where
  "wf_tree fs \<longleftrightarrow> (\<forall>q. q \<noteq> [] \<and> node_at fs q \<noteq> None \<longrightarrow> is_dir_node (node_at fs (butlast q)))"

lemma wf_tree_ancestors: "wf_tree fs \<Longrightarrow> node_at fs q \<noteq> None \<Longrightarrow> node_at fs (take i q) \<noteq> None"
proof (induction q rule: rev_induct)
  case (snoc c q)
  then have "is_dir_node (node_at fs q)" by (auto simp: wf_tree_def dest: spec [of _ "q @ [c]"])
  then have "node_at fs q \<noteq> None" by (cases "node_at fs q") simp_all
  with snoc show ?case by (cases "i \<le> length q") auto
qed simp

lemma add_dirs_present:
  "(\<And>i. i \<le> length cs \<Longrightarrow> node_at fs (q @ take i cs) \<noteq> None) \<Longrightarrow> snd (add_dirs m q cs fs) = fs"
proof (induction m q cs fs rule: add_dirs.induct)
  case (2 m q c cs fs)
  from "2.prems" [of 1] obtain n where n: "node_at fs (q @ [c]) = Some n" by auto
  show ?case
  proof (cases n)
    case (Dir m')
    then have "snd (add_dirs m (q @ [c]) cs fs) = fs"
      using "2.prems" [of "Suc i" for i] n by (intro "2.IH" (2)) auto
    with n Dir show ?thesis by simp
  qed (use n in simp_all)
qed simp

text \<open>
  InternalCreateDir never creates a directory: it asks first that its path be valid, and a valid
  path exists, so the file system is unchanged whatever the path.
\<close>

theorem create_directory_creates_nothing:
  assumes "wf_tree fs" "write_fault pf (U_mkdirs path) fs = None"
  shows "snd (internalCreateDir pf path fs) = fs"
proof -
  have "snd (fs_create_directories pf path fs) = fs" if v: "validateInternalPath pf fs path"
  proof -
    from v obtain q where q: "resolve fs path = Some q" "node_at fs q \<noteq> None"
      by (fastforce simp: validateInternalPath_def split: if_splits sum.splits fs_error.splits dest!: fs_status_resolve)
    have "snd (add_dirs (fresh_meta pf) [] q fs) = fs"
      using wf_tree_ancestors [OF assms(1) q(2)] by (intro add_dirs_present) simp
    then show ?thesis using q assms(2) by (simp add: fs_create_directories_def fs_write_None)
  qed
  then show ?thesis
    by (auto simp: internalCreateDir_def split: prod.splits option.splits fs_error.splits)
qed

theorem create_directory_creates_nothing_witness:
  "internalCreateDir calm_platform ''/new'' [] = (op_code OP_INVALID_PATH, [])
     \<and> snd (internalCreateDir calm_platform ''/tmp'' [([''tmp''], plain_dir)]) = [([''tmp''], plain_dir)]"
proof -
  have "wf_tree [([''tmp''], plain_dir)]" by (auto simp: wf_tree_def node_at_def split: if_splits)
  moreover have "wf_tree []" by (auto simp: wf_tree_def node_at_def)
  moreover have "fst (internalCreateDir calm_platform ''/new'' []) = op_code OP_INVALID_PATH"
    by (simp add: internalCreateDir_def validateInternalPath_def fs_exists_def fs_status_def path_max_def
        resolve_def comps_def node_at_def)
  ultimately show ?thesis
    using create_directory_creates_nothing [of "[([''tmp''], plain_dir)]" calm_platform "''/tmp''"]
      create_directory_creates_nothing [of "[]" calm_platform "''/new''"] by (simp add: prod_eq_iff)
qed

end
