(* ===== verification/Saf_Dispatch.thy ===== *)
theory Saf_Dispatch
  imports Saf_Operations
begin

text \<open>
  What the providers share. First the thread structure: a queue filled by addRequest and a
  dispatcher thread that takes one request at a time and handles it to its end (the future of
  std::async is a local variable, so its destructor waits). The contract \<open>document_provider\<close> of
  a handler gives what every submitted request gets. Then the parts of the replies that the
  providers build in the same way: the page of a listing, the outcome of an operation, the
  chain of calls to another service.
\<close>

section \<open>Queue and dispatcher thread\<close>

text \<open>A handler; None is a handler that never returns.\<close>

type_synonym 's handler = "request_data \<Rightarrow> 's \<Rightarrow> (effect list \<times> 's) option"

datatype thread = Waiting | Busy request_data | Stopped

record 's dispatcher =
  mQueue :: "request_data list"
  mQuit :: bool
  mThread :: thread
  mState :: 's
  emitted :: "effect list"           \<comment> \<open>everything the handler did, in order\<close>
  submitted :: "request_data list"   \<comment> \<open>everything given to addRequest, in order\<close>

definition dispatcher_init :: "'s \<Rightarrow> 's dispatcher" where
  "dispatcher_init s =
     \<lparr>mQueue = [], mQuit = False, mThread = Waiting, mState = s, emitted = [], submitted = []\<rparr>"

definition addRequest :: "request_data \<Rightarrow> 's dispatcher \<Rightarrow> 's dispatcher" where
  "addRequest rd d = d\<lparr>mQueue := mQueue d @ [rd], submitted := submitted d @ [rd]\<rparr>"

text \<open>
  One turn of dispatchHandler from the wait to the unlock: None while the wait does not end.
\<close>

definition dispatch_wake :: "'s dispatcher \<Rightarrow> 's dispatcher option" where
  "dispatch_wake d =
     (if mThread d \<noteq> Waiting \<or> (mQueue d = [] \<and> \<not> mQuit d) then None
      else if mQueue d \<noteq> [] \<and> \<not> mQuit d
      then Some (d\<lparr>mThread := Busy (hd (mQueue d)), mQueue := tl (mQueue d)\<rparr>)
      else Some (d\<lparr>mThread := Stopped\<rparr>))"

text \<open>The end of handleRequests and the test of the loop.\<close>

definition dispatch_finish :: "'s handler \<Rightarrow> 's dispatcher \<Rightarrow> 's dispatcher option" where
  "dispatch_finish h d =
     (case mThread d of
        Busy rd \<Rightarrow>
          (case h rd (mState d) of
             None \<Rightarrow> None
           | Some (es, s') \<Rightarrow>
               Some (d\<lparr>mThread := (if mQuit d then Stopped else Waiting), mState := s',
                       emitted := emitted d @ es\<rparr>))
      | _ \<Rightarrow> None)"

inductive disp_step :: "'s handler \<Rightarrow> 's dispatcher \<Rightarrow> 's dispatcher \<Rightarrow> bool" for h where
  submit: "disp_step h d (addRequest rd d)"
| wake: "dispatch_wake d = Some d' \<Longrightarrow> disp_step h d d'"
| finish: "dispatch_finish h d = Some d' \<Longrightarrow> disp_step h d d'"
| destroy: "disp_step h d (d\<lparr>mQuit := True\<rparr>)"

inductive disp_reach :: "'s handler \<Rightarrow> 's \<Rightarrow> 's dispatcher \<Rightarrow> bool" for h s0 where
  start: "disp_reach h s0 (dispatcher_init s0)"
| step: "disp_reach h s0 d \<Longrightarrow> disp_step h d d' \<Longrightarrow> disp_reach h s0 d'"

inductive_cases disp_stepE: "disp_step h d d'"

text \<open>The specification: the requests handled one after the other, in a given order.\<close>

fun run_all :: "'s handler \<Rightarrow> request_data list \<Rightarrow> 's \<Rightarrow> (effect list \<times> 's) option" where
  "run_all h [] s = Some ([], s)"
| "run_all h (rd # rds) s =
     (case h rd s of None \<Rightarrow> None
      | Some (es, s') \<Rightarrow>
          (case run_all h rds s' of None \<Rightarrow> None | Some (es', s'') \<Rightarrow> Some (es @ es', s'')))"

lemma run_all_append:
  "run_all h (xs @ ys) s =
     (case run_all h xs s of None \<Rightarrow> None
      | Some (es, s') \<Rightarrow>
          (case run_all h ys s' of None \<Rightarrow> None | Some (es', s'') \<Rightarrow> Some (es @ es', s'')))"
  by (induction xs arbitrary: s) (auto split: option.splits prod.splits)

definition in_flight :: "'s dispatcher \<Rightarrow> request_data list" where
  "in_flight d = (case mThread d of Busy rd \<Rightarrow> [rd] | _ \<Rightarrow> [])"

text \<open>The invariant: a prefix of the submissions was handled, in order; the rest is in the queue.\<close>

definition disp_inv :: "'s handler \<Rightarrow> 's \<Rightarrow> 's dispatcher \<Rightarrow> bool" where
  "disp_inv h s0 d \<longleftrightarrow>
     (\<exists>done. submitted d = done @ in_flight d @ mQueue d
           \<and> run_all h done s0 = Some (emitted d, mState d))"

lemma disp_inv_init: "disp_inv h s0 (dispatcher_init s0)"
  by (auto simp: disp_inv_def dispatcher_init_def in_flight_def)

lemma disp_inv_wake:
  assumes "disp_inv h s0 d" "dispatch_wake d = Some d'"
  shows "disp_inv h s0 d'"
  using assms by (auto simp: disp_inv_def dispatch_wake_def in_flight_def split: if_splits)

lemma disp_inv_finish:
  assumes "disp_inv h s0 d" "dispatch_finish h d = Some d'"
  shows "disp_inv h s0 d'"
proof -
  from assms(2) obtain rd es s' where b: "mThread d = Busy rd"
    and hr: "h rd (mState d) = Some (es, s')"
    and d': "d' = d\<lparr>mThread := (if mQuit d then Stopped else Waiting), mState := s',
                    emitted := emitted d @ es\<rparr>"
    by (auto simp: dispatch_finish_def split: thread.splits option.splits)
  from assms(1) b obtain dn where dn: "submitted d = dn @ rd # mQueue d"
    "run_all h dn s0 = Some (emitted d, mState d)"
    by (auto simp: disp_inv_def in_flight_def)
  then have "run_all h (dn @ [rd]) s0 = Some (emitted d @ es, s')"
    using hr by (simp add: run_all_append)
  with dn show ?thesis
    unfolding disp_inv_def by (intro exI [of _ "dn @ [rd]"]) (simp add: d' in_flight_def)
qed

lemma disp_inv_step: "disp_inv h s0 d \<Longrightarrow> disp_step h d d' \<Longrightarrow> disp_inv h s0 d'"
  by (erule disp_stepE)
     (auto intro: disp_inv_wake disp_inv_finish, auto simp: disp_inv_def addRequest_def in_flight_def)

lemma disp_inv_reach: "disp_reach h s0 d \<Longrightarrow> disp_inv h s0 d"
  by (induction rule: disp_reach.induct) (auto intro: disp_inv_init disp_inv_step)

text \<open>The dispatcher alone, until its queue is empty: the fuel is the number of requests left.\<close>

fun drain :: "'s handler \<Rightarrow> nat \<Rightarrow> 's dispatcher \<Rightarrow> 's dispatcher option" where
  "drain h n d =
     (case mThread d of
        Busy rd \<Rightarrow> (case dispatch_finish h d of None \<Rightarrow> None
          | Some d' \<Rightarrow> (case n of 0 \<Rightarrow> None | Suc m \<Rightarrow> drain h m d'))
      | Waiting \<Rightarrow> (case dispatch_wake d of None \<Rightarrow> Some d
          | Some d' \<Rightarrow> (case n of 0 \<Rightarrow> None | Suc m \<Rightarrow> drain h m d'))
      | Stopped \<Rightarrow> Some d)"

declare drain.simps [simp del]

fun effect_request :: "effect \<Rightarrow> request_data" where
  "effect_request (Reply rd j) = rd"
| "effect_request (LSCall u p k rd) = rd"

fun is_reply :: "effect \<Rightarrow> bool" where
  "is_reply (Reply rd j) = True"
| "is_reply (LSCall u p k rd) = False"

text \<open>The effect belongs to the request: it answers the same client through the same callback.\<close>

definition answers_to :: "request_data \<Rightarrow> effect \<Rightarrow> bool" where
  "answers_to rd e \<longleftrightarrow> subs (effect_request e) = subs rd \<and> cb (effect_request e) = cb rd"

lemma answers_to_simps [simp]:
  "answers_to rd (Reply rd j)" "answers_to rd (LSCall u p k rd)"
  "answers_to rd (Reply (rd\<lparr>params := x\<rparr>) j)" "answers_to rd (LSCall u p k (rd\<lparr>params := x\<rparr>))"
  by (simp_all add: answers_to_def)

section \<open>The contract of a provider\<close>

text \<open>One request in a provider that has nothing else to do.\<close>

lemma drain_one:
  assumes "h rd s = Some (es, s')"
  shows "\<exists>d'. drain h 2 (addRequest rd (dispatcher_init s)) = Some d' \<and> emitted d' = es \<and> mState d' = s'"
  using assms
  by (simp add: drain.simps numeral_2_eq_2 addRequest_def dispatcher_init_def dispatch_wake_def dispatch_finish_def)

text \<open>
  A provider keeps its invariant; it answers the requests it supports, to their client, and lets
  the ones it ignores pass. A request that is neither is outside the contract: its handler may
  throw, or hang.
\<close>

locale document_provider =
  fixes handle :: "'s handler"
    and inv :: "'s \<Rightarrow> bool"
    and supports :: "request_data \<Rightarrow> bool"
    and ignored :: "request_data \<Rightarrow> bool"
  assumes answers: "inv s \<Longrightarrow> supports rd \<Longrightarrow>
      \<exists>es s'. handle rd s = Some (es, s') \<and> es \<noteq> [] \<and> (\<forall>e \<in> set es. answers_to rd e) \<and> inv s'"
    and ignores: "ignored rd \<Longrightarrow> handle rd s = Some ([], s)"
begin

definition in_contract :: "request_data list \<Rightarrow> bool" where
  "in_contract rds \<longleftrightarrow> (\<forall>rd \<in> set rds. supports rd \<or> ignored rd)"

lemma in_contract_simps [simp]:
  "in_contract []" "in_contract (rd # rds) \<longleftrightarrow> (supports rd \<or> ignored rd) \<and> in_contract rds"
  "in_contract (xs @ ys) \<longleftrightarrow> in_contract xs \<and> in_contract ys"
  by (auto simp: in_contract_def)

lemma handle_total:
  "inv s \<Longrightarrow> supports rd \<or> ignored rd \<Longrightarrow>
   \<exists>es s'. handle rd s = Some (es, s') \<and> (\<forall>e \<in> set es. answers_to rd e) \<and> inv s'"
  using answers ignores by fastforce

text \<open>A run inside the contract keeps the invariant, answers what it supports and nothing else.\<close>

lemma run_contract:
  "run_all handle rds s = Some (es, s') \<Longrightarrow> in_contract rds \<Longrightarrow> inv s \<Longrightarrow>
   inv s' \<and> (\<forall>rd \<in> {r \<in> set rds. supports r}. \<exists>e \<in> set es. answers_to rd e)
   \<and> (\<forall>e \<in> set es. \<exists>rd \<in> set rds. answers_to rd e)"
proof (induction rds arbitrary: s es)
  case (Cons r rds)
  from Cons.prems(1) obtain e1 s1 e2 where h: "handle r s = Some (e1, s1)"
    and r: "run_all handle rds s1 = Some (e2, s')" "es = e1 @ e2"
    by (auto split: option.splits prod.splits)
  have t: "\<forall>e \<in> set e1. answers_to r e" "inv s1"
    using handle_total [of s r] h Cons.prems(2,3) by auto
  have f: "\<exists>e \<in> set e1. answers_to r e" if "supports r"
    using answers [OF Cons.prems(3) that] h t(1) by (cases e1) auto
  from Cons.IH [OF r(1)] Cons.prems(2) t(2)
  have ih: "inv s'" "\<forall>rd \<in> {r \<in> set rds. supports r}. \<exists>e \<in> set e2. answers_to rd e"
    "\<forall>e \<in> set e2. \<exists>rd \<in> set rds. answers_to rd e"
    by simp_all
  show ?case
  proof (intro conjI ballI)
    fix rd assume "rd \<in> {x \<in> set (r # rds). supports x}"
    then show "\<exists>e \<in> set es. answers_to rd e" using ih(2) f by (auto simp: r(2))
  next
    fix e assume "e \<in> set es"
    then show "\<exists>rd \<in> set (r # rds). answers_to rd e" using ih(3) t(1) by (auto simp: r(2))
  qed (rule ih(1))
qed simp

lemma finish_total:
  "mThread d = Busy rd \<Longrightarrow> inv (mState d) \<Longrightarrow> supports rd \<or> ignored rd \<Longrightarrow>
   \<exists>d'. dispatch_finish handle d = Some d' \<and> mQueue d' = mQueue d
     \<and> submitted d' = submitted d \<and> mQuit d' = mQuit d \<and> inv (mState d')
     \<and> mThread d' = (if mQuit d then Stopped else Waiting)"
  using handle_total [of "mState d" rd] by (auto simp: dispatch_finish_def)

lemma drain_waiting:
  assumes "disp_reach handle s0 d" "\<not> mQuit d" "mThread d = Waiting" "in_contract (mQueue d)"
    "inv (mState d)" "2 * length (mQueue d) \<le> n"
  shows "\<exists>d'. drain handle n d = Some d' \<and> disp_reach handle s0 d' \<and> mQueue d' = []
            \<and> mThread d' = Waiting \<and> submitted d' = submitted d"
  using assms
proof (induction "mQueue d" arbitrary: d n)
  case Nil
  then have "dispatch_wake d = None" by (simp add: dispatch_wake_def)
  with Nil show ?case by (subst drain.simps) simp
next
  case (Cons rd q)
  note q [simp] = Cons.hyps(2) [symmetric]
  obtain m where n: "n = Suc (Suc m)" "2 * length q \<le> m"
    using Cons.prems(6) by (cases n; cases "n - 1") auto
  let ?d1 = "d\<lparr>mThread := Busy rd, mQueue := q\<rparr>"
  have w: "dispatch_wake d = Some ?d1"
    using Cons.prems by (simp add: dispatch_wake_def)
  obtain d2 where f: "dispatch_finish handle ?d1 = Some d2" "mQueue d2 = q"
    "submitted d2 = submitted d" "\<not> mQuit d2" "mThread d2 = Waiting" "inv (mState d2)"
    using finish_total [of ?d1 rd] Cons.prems(2,4,5) by auto
  have "disp_reach handle s0 ?d1" using Cons.prems(1) w by (blast intro: disp_reach.step disp_step.wake)
  then have "disp_reach handle s0 d2" using f(1) by (blast intro: disp_reach.step disp_step.finish)
  then obtain d' where "drain handle m d2 = Some d'" "disp_reach handle s0 d'" "mQueue d' = []"
    "mThread d' = Waiting" "submitted d' = submitted d2"
    using Cons.hyps(1) [of d2 m] f n(2) Cons.prems(4) by auto
  moreover have "drain handle n d = drain handle m d2"
    using Cons.prems(3) w f n(1) by (subst drain.simps, simp, subst drain.simps, simp)
  ultimately show ?case using f(3) by auto
qed

text \<open>A single request, from rest.\<close>

lemma drain_single:
  assumes "inv s" "supports rd"
  shows "\<exists>d'. drain handle 2 (addRequest rd (dispatcher_init s)) = Some d' \<and> emitted d' \<noteq> []
     \<and> (\<forall>e \<in> set (emitted d'). answers_to rd e)"
proof -
  obtain es s' where "handle rd s = Some (es, s')" "es \<noteq> []" "\<forall>e \<in> set es. answers_to rd e"
    using answers [OF assms] by blast
  with drain_one [of handle rd s es s'] show ?thesis by auto
qed

text \<open>Left alone, the dispatcher answers everything that was submitted, and nothing else.\<close>

lemma drain_answers:
  assumes "disp_reach handle s0 d" "\<not> mQuit d" "mThread d = Waiting" "inv s0"
    and c: "\<forall>rd \<in> set (submitted d). supports rd \<or> ignored rd"
  shows "\<exists>d'. drain handle (2 * length (mQueue d)) d = Some d' \<and> disp_reach handle s0 d'
     \<and> mQueue d' = [] \<and> run_all handle (submitted d) s0 = Some (emitted d', mState d')
     \<and> (\<forall>rd \<in> {r \<in> set (submitted d). supports r}. \<exists>e \<in> set (emitted d'). answers_to rd e)
     \<and> (\<forall>e \<in> set (emitted d'). \<exists>rd \<in> set (submitted d). answers_to rd e)"
proof -
  obtain dn where dn: "submitted d = dn @ in_flight d @ mQueue d"
    "run_all handle dn s0 = Some (emitted d, mState d)"
    using disp_inv_reach [OF assms(1)] by (auto simp: disp_inv_def)
  from c dn(1) have q: "in_contract (mQueue d)" "in_contract dn" "in_contract (submitted d)"
    by (auto simp: in_contract_def)
  obtain d' where d': "drain handle (2 * length (mQueue d)) d = Some d'" "disp_reach handle s0 d'"
    "mQueue d' = []" "mThread d' = Waiting" "submitted d' = submitted d"
    using drain_waiting [OF assms(1-3) q(1) _ order.refl] run_contract [OF dn(2) q(2) assms(4)] by blast
  have r: "run_all handle (submitted d) s0 = Some (emitted d', mState d')"
    using disp_inv_reach [OF d'(2)] d' by (auto simp: disp_inv_def in_flight_def)
  show ?thesis
    using d' r run_contract [OF r q(3) assms(4)] by blast
qed

end

section \<open>Properties of the dispatcher\<close>

text \<open>A request and a world for concrete runs.\<close>

definition sample_request :: "method_type \<Rightarrow> json \<Rightarrow> request_data" where
  "sample_request m p =
     \<lparr>cb = onListReply, storageType = INTERNAL, methodType = m, params = p, sessionId = ''root'',
      subs = \<lparr>payload = [], token = 0\<rparr>\<rparr>"

definition empty_world :: world where
  "empty_world = \<lparr>w_fs = [], w_samba = [], w_cmds = []\<rparr>"

lemma reach_one: "disp_reach h s0 (addRequest rd (dispatcher_init s0))"
  by (blast intro: disp_reach.intros disp_step.submit)

lemma reach_handled:
  assumes "h rd s = Some (es, s')"
  shows "\<exists>d. disp_reach h s d \<and> submitted d = [rd] \<and> emitted d = es \<and> mState d = s'"
proof -
  let ?d0 = "addRequest rd (dispatcher_init s)"
  let ?d1 = "?d0\<lparr>mThread := Busy rd, mQueue := []\<rparr>"
  let ?d2 = "?d1\<lparr>mState := s', emitted := es, mThread := Waiting\<rparr>"
  have "dispatch_wake ?d0 = Some ?d1"
    by (simp add: dispatch_wake_def addRequest_def dispatcher_init_def)
  then have "disp_reach h s ?d1" by (blast intro: reach_one disp_reach.step disp_step.wake)
  moreover have "dispatch_finish h ?d1 = Some ?d2"
    using assms by (simp add: dispatch_finish_def addRequest_def dispatcher_init_def)
  ultimately have "disp_reach h s ?d2" by (blast intro: disp_reach.step disp_step.finish)
  then show ?thesis by (intro exI [of _ ?d2]) (simp add: addRequest_def dispatcher_init_def)
qed

text \<open>
  C1: In every reachable state of a provider's queue and thread, under any interleaving of
  submissions, wake-ups and the destructor, the requests were handled one after the other in the
  order of addRequest, none twice and none lost: what was submitted is what was handled, then the
  one in the thread, then the queue, and the replies are those of the handled ones in that order.
\<close>

theorem dispatcher_fifo_exactly_once:
  assumes "disp_reach h s0 d"
  shows "\<exists>done. submitted d = done @ in_flight d @ mQueue d
           \<and> run_all h done s0 = Some (emitted d, mState d)"
  using disp_inv_reach [OF assms] by (simp add: disp_inv_def)

theorem dispatcher_fifo_exactly_once_witness:
  "\<exists>done. [sample_request EJECT_METHOD jobject] = done @ [sample_request EJECT_METHOD jobject]
     \<and> run_all (\<lambda>rd s. Some ([Reply rd jobject], s)) done (0 :: nat) = Some ([], 0)"
  using dispatcher_fifo_exactly_once
    [OF reach_one [of "\<lambda>rd s. Some ([Reply rd jobject], s)" "0 :: nat" "sample_request EJECT_METHOD jobject"]]
  by (simp add: addRequest_def dispatcher_init_def in_flight_def)

end
