(* ===== verification/Saf_Replies.thy ===== *)
theory Saf_Replies
  imports Saf_Dispatch
begin

text \<open>
  The parts of the replies the providers build in the same way: the page of a listing, the
  outcome of an operation, the progress of a copy or move, and the chain of calls to another
  service that collects the answers in the request's parameters.
\<close>

section \<open>The page of a listing\<close>

text \<open>
  The two bounds of the loop, computed in int and size_t: the comparison of end is made on
  64 bits, unsigned, so that a negative sum counts as beyond the end. The signed overflow of
  \<open>limit + offset - 1\<close> is taken to wrap.
\<close>

definition page_bounds :: "nat \<Rightarrow> 32 word \<Rightarrow> 32 word \<Rightarrow> 32 word \<times> 32 word" where
  "page_bounds n offset limit =
     (let size = of_nat n :: 64 word;
          start = (if sint (ucast size :: 32 word) < sint offset then ucast (size + 1) else offset - 1);
          start = (if sint start < 0 then ucast (size + 1) else start);
          sum = limit + offset - 1;
          end0 = (if size < scast sum then ucast size else sum);
          end0 = (if sint end0 < 0 then ucast size else end0)
      in (start, end0))"

text \<open>The indices the loop visits.\<close>

definition page_indices :: "nat \<Rightarrow> 32 word \<Rightarrow> 32 word \<Rightarrow> int list" where
  "page_indices n offset limit =
     (case page_bounds n offset limit of (start, end0) \<Rightarrow> [sint start .. sint end0 - 1])"

definition page :: "'c list \<Rightarrow> 32 word \<Rightarrow> 32 word \<Rightarrow> 'c list" where
  "page xs offset limit = map (\<lambda>i. xs ! nat i) (page_indices (length xs) offset limit)"

text \<open>Word arithmetic on small naturals.\<close>

lemma sint_of_nat_32: "n < 2 ^ 31 \<Longrightarrow> sint (of_nat n :: 32 word) = int n"
  by (simp add: signed_of_nat signed_take_bit_int_eq_self)

lemma ucast_of_nat_64: "n < 2 ^ 31 \<Longrightarrow> ucast (of_nat n :: 64 word) = (of_nat n :: 32 word)"
  by (simp add: unsigned_of_nat take_bit_nat_eq_self)

lemma sint_32_bounds: "- (2 ^ 31) \<le> sint (s :: 32 word)" "sint (s :: 32 word) < 2 ^ 31"
  using sint_range_size [of s] by (simp_all add: word_size)

lemma uint_scast_64:
  "uint (scast (s :: 32 word) :: 64 word) = (if sint s < 0 then sint s + 2 ^ 64 else sint s)"
proof -
  have "uint (scast s :: 64 word) = sint s mod 2 ^ 64"
    by transfer (simp add: take_bit_eq_mod)
  also have "\<dots> = (sint s + 2 ^ 64) mod 2 ^ 64" by simp
  finally show ?thesis
    using sint_32_bounds [of s] mod_pos_pos_trivial [of "sint s" "2 ^ 64"]
      mod_pos_pos_trivial [of "sint s + 2 ^ 64" "2 ^ 64"] by auto
qed

lemma less_scast_64:
  assumes "n < 2 ^ 31"
  shows "(of_nat n :: 64 word) < scast (s :: 32 word) \<longleftrightarrow> sint s < 0 \<or> int n < sint s"
proof -
  have "uint (of_nat n :: 64 word) = int n"
    using assms by (simp add: uint_nat unsigned_of_nat take_bit_nat_eq_self)
  then show ?thesis using sint_32_bounds [of s] assms
    by (auto simp: word_less_def uint_scast_64)
qed

lemma sint_minus_one: "sint (x :: 32 word) = - (2 ^ 31) \<or> sint (x - 1) = sint x - 1"
  using sint_32_bounds [of x] signed_take_bit_int_eq_self_iff [of 31 "sint x - 1"]
  by (auto simp: sint_word_ariths)

lemma sint_minus_one_min: "sint (x::32 word) = - (2 ^ 31) \<Longrightarrow> sint (x - 1) = 2 ^ 31 - 1"
  by (simp add: sint_word_ariths)

text \<open>The bounds as integers: start is the offset less one or beyond the end, end is in range.\<close>

lemma page_indices_eq:
  assumes "n < 2 ^ 31 - 1"
  shows "page_indices n offset limit =
     (let e = sint (limit + offset - 1)
      in if 1 \<le> sint offset \<and> sint offset \<le> int n
         then [sint offset - 1 .. (if 0 \<le> e \<and> e \<le> int n then e else int n) - 1] else [])"
proof -
  obtain s e where b: "page_bounds n offset limit = (s, e)" by (cases "page_bounds n offset limit")
  have n: "sint (of_nat n :: 32 word) = int n" "sint (1 + of_nat n :: 32 word) = int n + 1"
    "ucast (of_nat n :: 64 word) = (of_nat n :: 32 word)"
    "ucast (1 + of_nat n :: 64 word) = (1 + of_nat n :: 32 word)"
    using assms sint_of_nat_32 [of n] sint_of_nat_32 [of "Suc n"] ucast_of_nat_64 [of n]
      ucast_of_nat_64 [of "Suc n"] by simp_all
  have start: "sint s = sint offset - 1 \<and> 1 \<le> sint offset \<and> sint offset \<le> int n
      \<or> int n \<le> sint s \<and> \<not> (1 \<le> sint offset \<and> sint offset \<le> int n)"
    using b n sint_minus_one [of offset] sint_minus_one_min [of offset] assms
    by (auto simp: page_bounds_def Let_def add.commute split: if_splits)
  have stop: "sint e = (let k = sint (limit + offset - 1) in if 0 \<le> k \<and> k \<le> int n then k else int n)"
    using b n assms less_scast_64 [of n "limit + offset - 1"]
    by (auto simp: page_bounds_def Let_def split: if_splits)
  show ?thesis using start stop b by (auto simp: page_indices_def Let_def)
qed

lemma map_nth_upto:
  assumes "0 \<le> a" "b \<le> int (length xs)"
  shows "map (\<lambda>i. xs ! nat i) [a .. b - 1] = take (nat b - nat a) (drop (nat a) xs)"
proof (rule nth_equalityI)
  show "length (map (\<lambda>i. xs ! nat i) [a .. b - 1]) = length (take (nat b - nat a) (drop (nat a) xs))"
    using assms by auto
next
  fix i assume "i < length (map (\<lambda>i. xs ! nat i) [a .. b - 1])"
  then have "i < nat (b - a)" by simp
  then show "map (\<lambda>i. xs ! nat i) [a .. b - 1] ! i = take (nat b - nat a) (drop (nat a) xs) ! i"
    using assms by (simp add: nat_add_distrib)
qed

lemma page_eq:
  assumes "length xs < 2 ^ 31 - 1"
  shows "page xs offset limit =
     (if 1 \<le> sint offset \<and> sint offset \<le> int (length xs)
      then (let e = sint (limit + offset - 1);
                stop = (if 0 \<le> e \<and> e \<le> int (length xs) then nat e else length xs)
            in take (stop - nat (sint offset - 1)) (drop (nat (sint offset - 1)) xs))
      else [])"
proof (cases "1 \<le> sint offset \<and> sint offset \<le> int (length xs)")
  case True
  define e where "e = sint (limit + offset - 1)"
  define b where "b = (if 0 \<le> e \<and> e \<le> int (length xs) then e else int (length xs))"
  have "page xs offset limit = map (\<lambda>i. xs ! nat i) [sint offset - 1 .. b - 1]"
    using page_indices_eq [OF assms] True by (simp add: page_def Let_def b_def e_def)
  also have "\<dots> = take (nat b - nat (sint offset - 1)) (drop (nat (sint offset - 1)) xs)"
    using True by (intro map_nth_upto) (auto simp: b_def)
  finally show ?thesis using True by (auto simp: Let_def b_def e_def)
next
  case False
  then show ?thesis using page_indices_eq [OF assms] by (auto simp: page_def Let_def)
qed

section \<open>Parts of the replies\<close>

definition content_json :: "folder_content \<Rightarrow> json" where
  "content_json c =
     jputs [(''name'', JStr (mName c)), (''path'', JStr (mPath c)), (''type'', JStr (mType c)),
            (''size'', JStr (nat_str (unat (mSize c))))] jobject"

text \<open>errorCode and errorText of a negative status, in the words of the provider.\<close>

definition put_status_error :: "(int \<Rightarrow> string) \<Rightarrow> int \<Rightarrow> json \<Rightarrow> json" where
  "put_status_error text st j =
     (let errorCode = getInternalErrorCode st
      in jputs [(''errorCode'', JNum errorCode), (''errorText'', JStr (text errorCode))] j)"

definition list_response ::
  "(folder_content \<Rightarrow> json) \<Rightarrow> (int \<Rightarrow> string) \<Rightarrow> folder_contents \<Rightarrow> 32 word \<Rightarrow> 32 word \<Rightarrow> json" where
  "list_response content text conts offset limit =
     (if 0 \<le> fc_status conts
      then jputs [(''returnValue'', JBool True),
                  (''files'', fold (\<lambda>c a. jappend a (content c))
                      (page (mContents conts) offset limit) jarray),
                  (''totalCount'', JNum (sint (mTotalCount conts))),
                  (''fullPath'', JStr (mFullPath conts))] jobject
      else put_status_error text (fc_status conts) (jput ''returnValue'' (JBool False) jobject))"

text \<open>The reply to a remove or a rename.\<close>

definition status_response :: "(int \<Rightarrow> string) \<Rightarrow> int \<Rightarrow> json" where
  "status_response text st =
     (let r = jput ''returnValue'' (JBool (\<not> st < 0)) jobject
      in if st < 0 then put_status_error text st r else r)"

text \<open>The \<open>overwrite\<close> parameter.\<close>

definition overwrite_of :: "'a pbn_scheme \<Rightarrow> json \<Rightarrow> bool" where
  "overwrite_of pf p = (if hasKey p ''overwrite'' then asBool pf (jget p ''overwrite'') else False)"

text \<open>The progress loop's answers as the effects of a handler.\<close>

definition transfer_effects :: "request_data \<Rightarrow> json list option \<Rightarrow> 's \<Rightarrow> (effect list \<times> 's) option" where
  "transfer_effects rd js s = map_option (\<lambda>r. (map (Reply rd) r, s)) js"

lemma fold_jappend: "fold (\<lambda>c a. jappend a (f c)) xs (JArr ys) = JArr (ys @ map f xs)"
  by (induction xs arbitrary: ys) simp_all

section \<open>Chained calls to another service\<close>

text \<open>
  onReply of the USB and of the internal provider: the answer is appended to the array
  \<open>response\<close> of the request's parameters; the first of the \<open>nextReq\<close> that are left is called,
  and when there is none the request's callback gets the array.
\<close>

definition collect_response :: "json list \<Rightarrow> json \<Rightarrow> json" where
  "collect_response js p =
     (let p1 = (if hasKey p ''response'' then p else jput ''response'' jarray p)
      in jput ''response'' (fold (\<lambda>x a. jappend a x) js (jget p1 ''response'')) p1)"

definition next_call :: "'a pbn_scheme \<Rightarrow> ls_callback \<Rightarrow> request_data \<Rightarrow> effect list \<times> request_data" where
  "next_call pf k rd =
     (let p = params rd
      in if hasKey p ''nextReq'' \<and> isArray (jget p ''nextReq'') \<and> 0 < arraySize (jget p ''nextReq'')
         then (let uri = asString pf (jget (jidx (jget p ''nextReq'') 0) ''uri'');
                   pl = asString pf (jget (jidx (jget p ''nextReq'') 0) ''payload'');
                   rd' = rd\<lparr>params := jput ''nextReq'' (JArr (tl (elements (jget p ''nextReq'')))) p\<rparr>
               in ([LSCall uri pl k rd'], rd'))
         else ([Reply rd (jget p ''response'')], rd))"

section \<open>What the shared parts give\<close>

text \<open>The whole answer to a copy or move, from the status its object was left with.\<close>

definition transfer_reply :: "(int \<Rightarrow> string) \<Rightarrow> int \<Rightarrow> json" where
  "transfer_reply text st =
     (if st < 0 then put_status_error text st (jput ''returnValue'' (JBool False) jobject)
      else jputs [(''returnValue'', JBool True), (''progress'', JNum 100)] jobject)"

lemma copy_report:
  "job_ok c \<Longrightarrow>
   progress_report (copy_getStatus pf fs) text fresh jobject c = Some [transfer_reply text (cStatus c)]"
  by (simp add: copy_job.loop_once copy_job.verdict_def copy_poll transfer_reply_def put_status_error_def
      Let_def)

lemma move_report:
  "job_ok c \<Longrightarrow>
   progress_report (move_getStatus pf fs) text fresh jobject c = Some [transfer_reply text (cStatus c)]"
  by (simp add: move_job.loop_once move_job.verdict_def move_poll transfer_reply_def put_status_error_def
      Let_def)

lemma util_copy_ok: "util_copy pf src dest ov w = (c, w') \<Longrightarrow> job_ok c"
  using job_ok_copy [of pf src dest ov "w_fs w"] by (auto simp: util_copy_def split: prod.splits)

lemma util_move_ok: "util_move pf src dest ov w = (c, w') \<Longrightarrow> job_ok c"
  using job_ok_move [of pf src dest ov "w_fs w"] by (auto simp: util_move_def split: prod.splits)

lemma copy_effects:
  "util_copy pf src dest ov w = (c, w') \<Longrightarrow>
   transfer_effects rd (progress_report (copy_getStatus pf (w_fs w')) text fresh jobject c) w' =
     Some ([Reply rd (transfer_reply text (cStatus c))], w')"
  by (simp add: transfer_effects_def copy_report util_copy_ok)

lemma move_effects:
  "util_move pf src dest ov w = (c, w') \<Longrightarrow>
   transfer_effects rd (progress_report (move_getStatus pf (w_fs w')) text fresh jobject c) w' =
     Some ([Reply rd (transfer_reply text (cStatus c))], w')"
  by (simp add: transfer_effects_def move_report util_move_ok)

text \<open>A check between providers either passes silently or answers and stops.\<close>

lemma validate_effects:
  assumes "validateInterProviderOperation pf rd w = (b, out)"
  shows "b \<longleftrightarrow> out = []" "length out \<le> 2" "\<forall>e \<in> set out. answers_to rd e"
  using assms by (auto simp: validateInterProviderOperation_def Let_def split: if_splits)

lemma validate_replies: "validateInterProviderOperation pf rd w = (b, out) \<Longrightarrow> list_all is_reply out"
  by (auto simp: validateInterProviderOperation_def Let_def split: if_splits)

lemmas handler_simps = copy_effects move_effects Let_def

section \<open>Properties of the paging\<close>

lemma sint_page_sum:
  assumes "1 \<le> sint offset" "sint limit + sint offset - 1 < 2 ^ 31"
  shows "sint (limit + offset - 1 :: 32 word) = sint limit + sint offset - 1"
proof -
  have "sint (offset - 1) = sint offset - 1" using sint_minus_one [of offset] assms(1) by simp
  moreover have "sint (limit + (offset - 1)) = signed_take_bit 31 (sint limit + sint (offset - 1))"
    by (simp add: sint_word_add)
  ultimately show ?thesis
    using assms sint_32_bounds [of limit]
    by (simp add: signed_take_bit_int_eq_self add_diff_eq)
qed

text \<open>
  C19: With an offset from 1 and a limit that is not negative, and no overflow of their sum, a
  page is exactly the slice of the listing: the first offset - 1 entries are skipped and at most
  limit entries are given.
\<close>

theorem page_is_slice:
  assumes "length xs < 2 ^ 31 - 1" "1 \<le> sint offset" "0 \<le> sint limit"
    "sint limit + sint offset - 1 < 2 ^ 31"
  shows "page xs offset limit = take (nat (sint limit)) (drop (nat (sint offset - 1)) xs)"
proof -
  have e: "sint (limit + offset - 1) = sint limit + sint offset - 1"
    using assms(2,4) by (rule sint_page_sum)
  show ?thesis
  proof (cases "sint offset \<le> int (length xs)")
    case True
    then show ?thesis using assms
      by (auto simp: page_eq e Let_def nat_diff_distrib nat_add_distrib)
  next
    case False
    then show ?thesis using assms(1,2) by (simp add: page_eq)
  qed
qed

theorem page_is_slice_witness:
  "page [10, 20, 30, 40 :: nat] 2 2 = [20, 30]"
  using page_is_slice [of "[10, 20, 30, 40 :: nat]" 2 2] by simp

text \<open>
  C20: Whatever 32-bit words a client sends as offset and limit, the loop that builds a page only
  visits indices of the listing: it never reads outside the vector of entries.
\<close>

theorem page_never_out_of_range:
  assumes "n < 2 ^ 31 - 1"
  shows "set (page_indices n offset limit) \<subseteq> {0 ..< int n}"
  using assms by (auto simp: page_indices_eq Let_def split: if_splits)

theorem page_never_out_of_range_witness:
  "set (page_indices 3 0xFFFFFFFF 0x7FFFFFFF) \<subseteq> {0 ..< 3}"
  using page_never_out_of_range [where n = 3 and offset = "0xFFFFFFFF" and limit = "0x7FFFFFFF"] by simp

text \<open>
  What a negative limit does depends on the offset: while limit + offset is not positive the
  rest of the listing is given, as if there were no limit; beyond that the page is empty.
\<close>

theorem page_negative_limit:
  assumes "length xs < 2 ^ 31 - 1" "1 \<le> sint offset" "sint limit < 0"
  shows "page xs offset limit =
     (if sint limit + sint offset \<le> 0 then drop (nat (sint offset - 1)) xs else [])"
proof -
  have "sint offset < 2 ^ 31" by (rule sint_32_bounds)
  then have e: "sint (limit + offset - 1) = sint limit + sint offset - 1"
    using assms(2,3) by (intro sint_page_sum) auto
  show ?thesis using assms by (auto simp: page_eq e Let_def)
qed

theorem page_negative_limit_witness:
  "page [10, 20, 30 :: nat] 2 (-5) = [20, 30] \<and> page [10, 20, 30 :: nat] 3 (-2) = []"
  using page_negative_limit [of "[10, 20, 30 :: nat]" 2 "-5"]
    page_negative_limit [of "[10, 20, 30 :: nat]" 3 "-2"] by simp

section \<open>Properties of the check between providers\<close>

text \<open>
  One side of a copy or move that the check allows. Nothing is asked of a side whose type is neither
  network nor internal: a USB or cloud side is allowed with any path, whether it exists or not.
\<close>

definition side_allowed ::
  "'a platform_scheme \<Rightarrow> world \<Rightarrow> string \<Rightarrow> string \<Rightarrow> string \<Rightarrow> string \<Rightarrow> bool" where
  "side_allowed pf w sid type drive path \<longleftrightarrow>
     (type = ''network'' \<longrightarrow> (\<exists>m. omap_find drive (w_samba w) = Some m \<and> prefix m path \<and> fs_exists_ec pf (w_fs w) path))
     \<and> (type = ''internal'' \<longrightarrow> fs_exists_ec pf (w_fs w) path
          \<and> (prefix ''/media'' path \<or> prefix ''/tmp'' path \<or> prefix (''/home/'' @ sid) path))"

lemma side_allowed_check:
  "side_allowed pf w sid type drive path \<longleftrightarrow>
     \<not> (type = ''network'' \<and> \<not> validateSambaPath pf w path drive)
     \<and> \<not> (type = ''internal'' \<and> \<not> util_validateInternalPath pf (w_fs w) path sid)"
  by (auto simp: side_allowed_def validateSambaPath_def util_validateInternalPath_def split: option.splits)

lemma error_object_members [simp]:
  "isObject j \<Longrightarrow> jget (error_object c t j) ''returnValue'' = JBool False"
  "isObject j \<Longrightarrow> jget (error_object c t j) ''errorCode'' = JNum c"
  "isObject (error_object c t j) = isObject j"
  by (simp_all add: error_object_def)

text \<open>
  C12: The check of a copy or move between providers looks at the network and the internal sides of a
  request only. It allows exactly the requests in which every network side has a path that exists and
  starts with the mount of the share its drive id names, every internal side has a path that exists
  and starts with /media, /tmp or the session's home, and the destination is no media server; a side
  of another type, USB or cloud, is allowed with any path, existing or not. An allowed request
  gets no reply from the check; a refused one only refusals.
\<close>

theorem transfer_check_decides:
  assumes "validateInterProviderOperation pf rd w = (ok, out)"
  shows "(ok \<longleftrightarrow> side_allowed pf w (sessionId rd) (asString pf (jget (params rd) ''srcStorageType''))
                  (asString pf (jget (params rd) ''srcDriveId'')) (asString pf (jget (params rd) ''srcPath''))
              \<and> side_allowed pf w (sessionId rd) (asString pf (jget (params rd) ''destStorageType''))
                  (asString pf (jget (params rd) ''destDriveId'')) (asString pf (jget (params rd) ''destPath''))
              \<and> \<not> (asString pf (jget (params rd) ''destStorageType'') = ''network''
                   \<and> str_contains ''UPNP'' (asString pf (jget (params rd) ''destDriveId''))))
     \<and> (ok \<longleftrightarrow> out = []) \<and> (\<forall>e \<in> set out. \<exists>j. e = Reply rd j \<and> jget j ''returnValue'' = JBool False)"
  using assms
  by (auto simp: validateInterProviderOperation_def side_allowed_check Let_def split: if_splits)

text \<open>A copy between two mounted shares, and one to a media server.\<close>

definition share_copy :: "string \<Rightarrow> request_data" where
  "share_copy dest = sample_request COPY_METHOD
     (jputs [(''srcStorageType'', JStr ''network''), (''srcDriveId'', JStr ''SAMBA_1''),
             (''srcPath'', JStr ''/a''), (''destStorageType'', JStr ''network''),
             (''destDriveId'', JStr dest), (''destPath'', JStr ''/b'')] jobject)"

definition two_shares :: world where
  "two_shares = empty_world\<lparr>w_fs := [([''a''], plain_dir), ([''b''], plain_dir)],
     w_samba := omap_put ''SAMBA_2'' ''/b'' (omap_put ''SAMBA_1'' ''/a'' [])\<rparr>"

lemma share_copy_simps [simp]:
  "jget (params (share_copy d)) ''srcStorageType'' = JStr ''network''"
  "jget (params (share_copy d)) ''destStorageType'' = JStr ''network''"
  "jget (params (share_copy d)) ''srcDriveId'' = JStr ''SAMBA_1''"
  "jget (params (share_copy d)) ''destDriveId'' = JStr d"
  "jget (params (share_copy d)) ''srcPath'' = JStr ''/a''"
  "jget (params (share_copy d)) ''destPath'' = JStr ''/b''"
  by (simp_all add: share_copy_def sample_request_def)

lemma two_shares_simps [simp]:
  "omap_find ''SAMBA_1'' (w_samba two_shares) = Some ''/a''"
  "omap_find ''SAMBA_2'' (w_samba two_shares) = Some ''/b''"
  "omap_find ''UPNP_1'' (w_samba two_shares) = None"
  "fs_exists_ec calm_platform (w_fs two_shares) ''/a''" "fs_exists_ec calm_platform (w_fs two_shares) ''/b''"
  by (simp_all add: two_shares_def omap_find_def plain_dir_def fs_exists_ec_def fs_exists_def fs_status_def
      path_max_def resolve_def comps_def node_at_def)

theorem transfer_check_decides_witness:
  "validateInterProviderOperation calm_platform (share_copy ''SAMBA_2'') two_shares = (True, [])"
proof -
  obtain ok out where v:
    "validateInterProviderOperation calm_platform (share_copy ''SAMBA_2'') two_shares = (ok, out)"
    by (rule prod.exhaust)
  from transfer_check_decides [OF v] v show ?thesis
    by (auto simp: side_allowed_def str_contains_def)
qed

text \<open>
  A copy or move onto a media server is refused twice: the first refusal does not end the check,
  which goes on, finds no mount for the drive and sends a second, different error.
\<close>

theorem upnp_destination_answered_twice:
  assumes "asString pf (jget (params rd) ''destStorageType'') = ''network''"
    and "str_contains ''UPNP'' (asString pf (jget (params rd) ''destDriveId''))"
    and "omap_find (asString pf (jget (params rd) ''destDriveId'')) (w_samba w) = None"
  shows "\<exists>j1 j2. validateInterProviderOperation pf rd w = (False, [Reply rd j1, Reply rd j2])
     \<and> jget j1 ''errorCode'' = JNum (saf_code STORAGE_TYPE_NOT_SUPPORTED)
     \<and> jget j2 ''errorCode'' = JNum (saf_code PERMISSION_DENIED)"
  using assms
  by (simp add: validateInterProviderOperation_def validateSambaPath_def Let_def)

theorem upnp_destination_answered_twice_witness:
  "\<exists>j1 j2. validateInterProviderOperation calm_platform (share_copy ''UPNP_1'') two_shares
     = (False, [Reply (share_copy ''UPNP_1'') j1, Reply (share_copy ''UPNP_1'') j2])"
  using upnp_destination_answered_twice [of calm_platform "share_copy ''UPNP_1''" two_shares]
  by (auto simp: str_contains_def)

text \<open>
  The check of a copy or move never asks whose the network drives are: unless a side is internal,
  the verdict is the same for every session, also for one that mounted neither share.
\<close>

theorem transfer_check_ignores_session:
  assumes "asString pf (jget (params rd) ''srcStorageType'') \<noteq> ''internal''"
    and "asString pf (jget (params rd) ''destStorageType'') \<noteq> ''internal''"
  shows "fst (validateInterProviderOperation pf (rd\<lparr>sessionId := other\<rparr>) w) =
         fst (validateInterProviderOperation pf rd w)"
  using assms by (simp add: validateInterProviderOperation_def Let_def)

theorem transfer_check_ignores_session_witness:
  "fst (validateInterProviderOperation calm_platform ((share_copy ''SAMBA_2'')\<lparr>sessionId := ''guest''\<rparr>) two_shares)
   = fst (validateInterProviderOperation calm_platform (share_copy ''SAMBA_2'') two_shares)"
  using transfer_check_ignores_session [of calm_platform "share_copy ''SAMBA_2''" "''guest''" two_shares]
  by simp

end
