(* ===== verification/Saf_Internal.thy ===== *)
theory Saf_Internal
  imports Saf_Replies
begin

text \<open>
  InternalStorageProvider: one definition per member function. A handler gets the request and
  the world and gives what it did (the replies through the request's callback) and the world
  after it; None would be a handler that never returns.
\<close>

definition DEFAULT_INTERNAL_DRIVE_NAME :: string where
  "DEFAULT_INTERNAL_DRIVE_NAME = ''INTERNAL''"

definition DEFAULT_INTERNAL_STORAGE_ID :: string where
  "DEFAULT_INTERNAL_STORAGE_ID = ''INTERNAL_STORAGE''"

text \<open>The error replies that carry no returnValue.\<close>

definition bare_error :: "int \<Rightarrow> string \<Rightarrow> json" where
  "bare_error code text = jputs [(''errorCode'', JNum code), (''errorText'', JStr text)] jobject"

section \<open>The methods\<close>

definition internal_listFolderContents ::
  "'a platform_scheme \<Rightarrow> request_data \<Rightarrow> world \<Rightarrow> (effect list \<times> world) option" where
  "internal_listFolderContents pf rd w =
     (let driveId = asString pf (jget (params rd) ''driveId'');
          path = asString pf (jget (params rd) ''path'')
      in if \<not> util_validateInternalPath pf (w_fs w) path (sessionId rd)
         then Some ([Reply rd (bare_error (saf_code PERMISSION_DENIED) ''Permission Denied'')], w)
         else if DEFAULT_INTERNAL_STORAGE_ID \<noteq> driveId
         then Some ([Reply rd (bare_error (saf_code INVALID_PARAM) ''Invalid DriveID'')], w)
         else (let offset = asInt pf (jget (params rd) ''offset'');
                   limit = asInt pf (jget (params rd) ''limit'');
                   conts = util_getListFolderContents pf path w
               in Some ([Reply rd (list_response content_json getInternalErrorString conts offset limit)], w)))"

definition internal_getProperties ::
  "'a platform_scheme \<Rightarrow> request_data \<Rightarrow> world \<Rightarrow> (effect list \<times> world) option" where
  "internal_getProperties pf rd w =
     (let driveId = asString pf (jget (params rd) ''driveId'')
      in if DEFAULT_INTERNAL_STORAGE_ID \<noteq> driveId
         then Some ([Reply rd (bare_error (saf_code INVALID_PARAM) ''Invalid DriveID'')], w)
         else (let path0 = (if hasKey (params rd) ''path'' then asString pf (jget (params rd) ''path'') else []);
                   (path, w1) = (if path0 = [] then getInternalPath pf (sessionId rd) w else (path0, w))
               in if \<not> util_validateInternalPath pf (w_fs w1) path (sessionId rd)
                  then Some ([Reply rd (bare_error (saf_code INVALID_PATH)
                         (getInternalErrorString (saf_code INVALID_PATH)))], w1)
                  else (let prop = util_getProperties pf path w1
                        in if si_status prop < 0
                           then Some ([Reply rd (status_response getInternalErrorString (si_status prop))], w1)
                           else (let r0 = jput ''returnValue'' (JBool True) jobject;
                                     r1 = (if hasKey (params rd) ''storageType''
                                           then jput ''storageType''
                                                  (JStr (asString pf (jget (params rd) ''storageType''))) r0
                                           else r0);
                                     attrObj = jput ''LastModTimeStamp''
                                                 (JStr (fst (getLastModTime pf (w_fs w1) prop))) jobject;
                                     r2 = jputs [(''writable'', JBool (mIsWritable prop)),
                                                 (''deletable'', JBool (mIsDeletable prop)),
                                                 (''attributes'', jappend jarray attrObj)] r1;
                                     (root, w2) = getInternalPath pf (sessionId rd) w1;
                                     r3 = (if path = root
                                           then jputs [(''totalSpace'', JNum (sint (getCapacityMB prop))),
                                                       (''freeSpace'', JNum (sint (getFreeSpaceMB prop)))] r2
                                           else r2)
                                 in Some ([Reply rd r3], w2)))))"

definition internal_copy_method ::
  "'a platform_scheme \<Rightarrow> request_data \<Rightarrow> world \<Rightarrow> (effect list \<times> world) option" where
  "internal_copy_method pf rd w =
     (let driveId = asString pf (jget (params rd) ''srcDriveId'')
      in if DEFAULT_INTERNAL_STORAGE_ID \<noteq> driveId
         then Some ([Reply rd (bare_error (saf_code INVALID_PARAM) ''Invalid DriveID'')], w)
         else (let srcPath = asString pf (jget (params rd) ''srcPath'');
                   destPath = asString pf (jget (params rd) ''destPath'');
                   (valid, out) = validateInterProviderOperation pf rd w
               in if \<not> valid then Some (out, w)
                  else (let (c, w') = util_copy pf srcPath destPath (overwrite_of pf (params rd)) w
                        in transfer_effects rd
                             (progress_report (copy_getStatus pf (w_fs w')) getInternalErrorString False
                                jobject c) w')))"

definition internal_move_method ::
  "'a platform_scheme \<Rightarrow> request_data \<Rightarrow> world \<Rightarrow> (effect list \<times> world) option" where
  "internal_move_method pf rd w =
     (let driveId = asString pf (jget (params rd) ''srcDriveId'')
      in if DEFAULT_INTERNAL_STORAGE_ID \<noteq> driveId
         then Some ([Reply rd (bare_error (saf_code INVALID_PARAM) ''Invalid DriveID'')], w)
         else (let srcPath = asString pf (jget (params rd) ''srcPath'');
                   destPath = asString pf (jget (params rd) ''destPath'');
                   (valid, out) = validateInterProviderOperation pf rd w
               in if \<not> valid then Some (out, w)
                  else (let (c, w') = util_move pf srcPath destPath (overwrite_of pf (params rd)) w
                        in transfer_effects rd
                             (progress_report (move_getStatus pf (w_fs w')) getInternalErrorString False
                                jobject c) w')))"

definition internal_remove_method ::
  "'a platform_scheme \<Rightarrow> request_data \<Rightarrow> world \<Rightarrow> (effect list \<times> world) option" where
  "internal_remove_method pf rd w =
     (let driveId = asString pf (jget (params rd) ''driveId'');
          path = asString pf (jget (params rd) ''path'')
      in if \<not> util_validateInternalPath pf (w_fs w) path (sessionId rd)
         then Some ([Reply rd (bare_error (saf_code PERMISSION_DENIED) ''Permission Denied'')], w)
         else if DEFAULT_INTERNAL_STORAGE_ID \<noteq> driveId
         then Some ([Reply rd (bare_error (saf_code INVALID_PARAM) ''Invalid DriveID'')], w)
         else (let (st, w') = util_remove pf path w
               in Some ([Reply rd (status_response getInternalErrorString st)], w')))"

definition internal_rename_method ::
  "'a platform_scheme \<Rightarrow> request_data \<Rightarrow> world \<Rightarrow> (effect list \<times> world) option" where
  "internal_rename_method pf rd w =
     (let driveId = asString pf (jget (params rd) ''driveId'');
          srcPath = asString pf (jget (params rd) ''path'')
      in if \<not> util_validateInternalPath pf (w_fs w) srcPath (sessionId rd)
         then Some ([Reply rd (bare_error (saf_code PERMISSION_DENIED) ''Permission Denied'')], w)
         else if DEFAULT_INTERNAL_STORAGE_ID \<noteq> driveId
         then Some ([Reply rd (bare_error (saf_code INVALID_PARAM) ''Invalid DriveID'')], w)
         else (let destPath = asString pf (jget (params rd) ''newName'');
                   (st, w') = util_rename pf srcPath destPath w
               in Some ([Reply rd (status_response getInternalErrorString st)], w')))"

text \<open>eject and listStoragesMethod answer with the parameters, the result being a member of them.\<close>

definition with_response :: "json \<Rightarrow> request_data \<Rightarrow> request_data" where
  "with_response r rd = rd\<lparr>params := jput ''response'' r (params rd)\<rparr>"

definition internal_eject ::
  "'a platform_scheme \<Rightarrow> request_data \<Rightarrow> world \<Rightarrow> (effect list \<times> world) option" where
  "internal_eject pf rd w =
     (let respObj = error_object (saf_code UNKNOWN_ERROR) ''Not supported yet'' jobject;
          rd' = with_response respObj rd
      in Some ([Reply rd' (params rd')], w))"

definition internal_listStoragesMethod ::
  "'a platform_scheme \<Rightarrow> request_data \<Rightarrow> world \<Rightarrow> (effect list \<times> world) option" where
  "internal_listStoragesMethod pf rd w =
     (let (path, w') = getInternalPath pf (sessionId rd) w;
          internalRes = jputs [(''driveName'', JStr DEFAULT_INTERNAL_DRIVE_NAME),
                               (''driveId'', JStr DEFAULT_INTERNAL_STORAGE_ID),
                               (''path'', JStr path)] jobject;
          respObj = jput ''internal'' (jappend jarray internalRes) jobject;
          rd' = with_response respObj rd
      in Some ([Reply rd' (params rd')], w'))"

section \<open>Dispatch\<close>

definition internal_handleRequests :: "'a platform_scheme \<Rightarrow> world handler" where
  "internal_handleRequests pf rd w =
     (case methodType rd of
        LIST_METHOD \<Rightarrow> internal_listFolderContents pf rd w
      | GET_PROP_METHOD \<Rightarrow> internal_getProperties pf rd w
      | COPY_METHOD \<Rightarrow> internal_copy_method pf rd w
      | MOVE_METHOD \<Rightarrow> internal_move_method pf rd w
      | REMOVE_METHOD \<Rightarrow> internal_remove_method pf rd w
      | EJECT_METHOD \<Rightarrow> internal_eject pf rd w
      | RENAME_METHOD \<Rightarrow> internal_rename_method pf rd w
      | LIST_STORAGES_METHOD \<Rightarrow> internal_listStoragesMethod pf rd w
      | _ \<Rightarrow> Some ([], w))"

text \<open>The static reply function; the provider itself makes no call that ends here.\<close>

definition internal_onReply ::
  "'a pbn_scheme \<Rightarrow> request_data \<Rightarrow> string \<Rightarrow> effect list \<times> request_data" where
  "internal_onReply pf rd message =
     (case dom_parse pf message of
        None \<Rightarrow> ([], rd)
      | Some root \<Rightarrow>
          next_call pf InternalStorageProvider_onReply
            (rd\<lparr>params := collect_response [root] (params rd)\<rparr>))"

definition storage_methods :: "method_type \<Rightarrow> bool" where
  "storage_methods m \<longleftrightarrow>
     m \<in> {LIST_METHOD, GET_PROP_METHOD, COPY_METHOD, MOVE_METHOD, REMOVE_METHOD, EJECT_METHOD,
          RENAME_METHOD, LIST_STORAGES_METHOD}"

section \<open>The contract\<close>

lemmas internal_methods =
  internal_listFolderContents_def internal_getProperties_def internal_copy_method_def
  internal_move_method_def internal_remove_method_def internal_rename_method_def
  internal_eject_def internal_listStoragesMethod_def

lemma internal_unsupported:
  "\<not> storage_methods (methodType rd) \<Longrightarrow> internal_handleRequests pf rd w = Some ([], w)"
  by (cases "methodType rd") (simp_all add: internal_handleRequests_def storage_methods_def)

lemma internal_copy_cases:
  "\<exists>es w'. internal_copy_method pf rd w = Some (es, w') \<and> es \<noteq> [] \<and> (\<forall>e \<in> set es. answers_to rd e)"
  by (auto simp: internal_copy_method_def handler_simps split: prod.splits dest: validate_effects)

lemma internal_move_cases:
  "\<exists>es w'. internal_move_method pf rd w = Some (es, w') \<and> es \<noteq> [] \<and> (\<forall>e \<in> set es. answers_to rd e)"
  by (auto simp: internal_move_method_def handler_simps split: prod.splits dest: validate_effects)

lemma internal_supported:
  assumes "storage_methods (methodType rd)"
  shows "\<exists>es w'. internal_handleRequests pf rd w = Some (es, w') \<and> es \<noteq> []
           \<and> (\<forall>e \<in> set es. answers_to rd e)"
  using assms internal_copy_cases [of pf rd w] internal_move_cases [of pf rd w]
  by (cases "methodType rd")
     (auto simp: internal_handleRequests_def storage_methods_def internal_listFolderContents_def
       internal_getProperties_def internal_remove_method_def internal_rename_method_def
       internal_eject_def internal_listStoragesMethod_def with_response_def Let_def split: prod.splits)

interpretation internal_provider: document_provider "internal_handleRequests pf" "\<lambda>_. True"
  "\<lambda>rd. storage_methods (methodType rd)" "\<lambda>rd. \<not> storage_methods (methodType rd)"
  by (unfold_locales, metis internal_supported, erule internal_unsupported)

section \<open>Properties\<close>

text \<open>
  Left alone in any reachable state, the internal storage provider's thread empties its queue in at
  most two steps for each request in it, and then every submitted request of a supported method
  has an answer, sent to its own client through its own callback; nothing is sent that was not
  asked for, and the answers are those of handling the requests in their order.
\<close>

theorem internal_requests_answered:
  assumes "disp_reach (internal_handleRequests pf) s0 d" "\<not> mQuit d" "mThread d = Waiting"
  shows "\<exists>d'. drain (internal_handleRequests pf) (2 * length (mQueue d)) d = Some d' \<and> mQueue d' = []
     \<and> run_all (internal_handleRequests pf) (submitted d) s0 = Some (emitted d', mState d')
     \<and> (\<forall>rd \<in> {r \<in> set (submitted d). storage_methods (methodType r)}. \<exists>e \<in> set (emitted d'). answers_to rd e)
     \<and> (\<forall>e \<in> set (emitted d'). \<exists>rd \<in> set (submitted d). answers_to rd e)"
  using internal_provider.drain_answers [OF assms] by blast

theorem internal_requests_answered_witness:
  "\<exists>d'. drain (internal_handleRequests calm_platform) 2
          (addRequest (sample_request EJECT_METHOD jobject) (dispatcher_init (empty_world))) = Some d'
      \<and> (\<exists>e \<in> set (emitted d'). answers_to (sample_request EJECT_METHOD jobject) e)"
proof -
  let ?rd = "sample_request EJECT_METHOD jobject"
  let ?d = "addRequest ?rd (dispatcher_init (empty_world))"
  have d: "mQueue ?d = [?rd]" "submitted ?d = [?rd]" "\<not> mQuit ?d" "mThread ?d = Waiting"
    by (simp_all add: addRequest_def dispatcher_init_def)
  have "storage_methods (methodType ?rd)" by (simp add: sample_request_def storage_methods_def)
  then show ?thesis
    using internal_requests_answered [OF reach_one [of "internal_handleRequests calm_platform" _ ?rd] d(3,4)] d by auto
qed

text \<open>
  C14: A copy or a move in the internal storage that passes its checks gets exactly one reply, when it
  is over: the progress loop ends at its first turn, with progress 100 or with one of the
  operation's own errors, and the file system is the one the operation left.
\<close>

theorem copy_and_move_answer_once:
  assumes "asString pf (jget (params rd) ''srcDriveId'') = DEFAULT_INTERNAL_STORAGE_ID"
    and "validateInterProviderOperation pf rd w = (True, out)"
    and "asString pf (jget (params rd) ''srcPath'') = src" "asString pf (jget (params rd) ''destPath'') = dest"
  shows "(\<exists>c fs'. internalCopy pf src dest (overwrite_of pf (params rd)) (w_fs w) = (c, fs')
      \<and> internal_copy_method pf rd w =
          Some ([Reply rd (transfer_reply getInternalErrorString (cStatus c))], w\<lparr>w_fs := fs'\<rparr>)
      \<and> (cStatus c = op_code OP_SUCCESS \<or> op_failure (cStatus c)))
    \<and> (\<exists>c fs'. internalMove pf src dest (overwrite_of pf (params rd)) (w_fs w) = (c, fs')
      \<and> internal_move_method pf rd w =
          Some ([Reply rd (transfer_reply getInternalErrorString (cStatus c))], w\<lparr>w_fs := fs'\<rparr>)
      \<and> (cStatus c = op_code OP_SUCCESS \<or> op_failure (cStatus c)))"
  using assms job_ok_copy [of pf src dest "overwrite_of pf (params rd)" "w_fs w"]
    job_ok_move [of pf src dest "overwrite_of pf (params rd)" "w_fs w"]
  by (auto simp: internal_copy_method_def internal_move_method_def util_copy_def util_move_def job_ok_def
      copy_effects move_effects Let_def split: prod.splits)

theorem copy_and_move_answer_once_witness:
  "\<exists>rd st w'. jget (params rd) ''srcPath'' = JStr ''/tmp/a''
     \<and> internal_copy_method calm_platform rd (empty_world\<lparr>w_fs := desk\<rparr>)
       = Some ([Reply rd (transfer_reply getInternalErrorString st)], w')"
proof -
  let ?rd = "sample_request COPY_METHOD (jputs [(''srcDriveId'', JStr DEFAULT_INTERNAL_STORAGE_ID),
      (''srcPath'', JStr ''/tmp/a''), (''destPath'', JStr ''/tmp/d'')] jobject)"
  have "validateInterProviderOperation calm_platform ?rd (empty_world\<lparr>w_fs := desk\<rparr>) = (True, [])"
    by (simp add: validateInterProviderOperation_def sample_request_def asString_def calm_platform_def)
  from copy_and_move_answer_once [OF _ this, of "''/tmp/a''" "''/tmp/d''"]
  show ?thesis by (intro exI [of _ ?rd]) (auto simp: sample_request_def)
qed

end
