(* ===== verification/Saf_Usb.thy ===== *)
theory Saf_Usb
  imports Saf_Replies
begin

text \<open>
  USBStorageProvider: the table of attached devices, read from the answer of the physical device
  manager; the resolution of a drive id of the form serial, dash, uuid; and the methods, each a
  handler of a request. The state is the table of devices and the world the methods work on.
\<close>

section \<open>The table of devices\<close>

record usb_drive_info =
  mDriveName :: string
  mMountPath :: string
  mFsType :: string
  mUuid :: string
  mVolumeLabel :: string
  mIsMounted :: bool

record usb_device_info =
  mStorageType :: string
  mSerialNumber :: string
  mDeviceNumber :: "32 word"
  mDeviceSetId :: string
  mStorageDriveList :: "usb_drive_info list"

type_synonym usb_attached = "(string, usb_device_info) omap"

record usb_state =
  usbStorages :: usb_attached
  u_world :: world

text \<open>make_shared value-initialises: the members of the new objects are empty, 0 and false.\<close>

definition string_member :: "'a pbn_scheme \<Rightarrow> json \<Rightarrow> string \<Rightarrow> string" where
  "string_member pf j k = (if hasKey j k then asString pf (jget j k) else [])"

definition parse_drive :: "'a pbn_scheme \<Rightarrow> json \<Rightarrow> usb_drive_info" where
  "parse_drive pf j =
     \<lparr>mDriveName = string_member pf j ''driveName'', mMountPath = string_member pf j ''mountName'',
      mFsType = string_member pf j ''fsType'', mUuid = string_member pf j ''uuid'',
      mVolumeLabel = string_member pf j ''volumeLabel'',
      mIsMounted = (if hasKey j ''isMounted'' then asBool pf (jget j ''isMounted'') else False)\<rparr>"

definition parse_device :: "'a pbn_scheme \<Rightarrow> json \<Rightarrow> usb_device_info" where
  "parse_device pf j =
     \<lparr>mStorageType = string_member pf j ''deviceType'', mSerialNumber = [],
      mDeviceNumber = (if hasKey j ''deviceNum'' then asInt pf (jget j ''deviceNum'') else 0),
      mDeviceSetId = string_member pf j ''deviceSetId'',
      mStorageDriveList =
        (if hasKey j ''storageDriveList''
         then map (parse_drive pf) (elements (jget j ''storageDriveList'')) else [])\<rparr>"

text \<open>The list of devices of an answer: of the only entry of deviceListInfo, or at the top.\<close>

definition device_list :: "json \<Rightarrow> json list" where
  "device_list j =
     (let a = (if hasKey j ''deviceListInfo'' \<and> isArray (jget j ''deviceListInfo'')
                  \<and> arraySize (jget j ''deviceListInfo'') = 1
                  \<and> hasKey (jidx (jget j ''deviceListInfo'') 0) ''storageDeviceList''
                  \<and> isArray (jget (jidx (jget j ''deviceListInfo'') 0) ''storageDeviceList'')
               then elements (jget (jidx (jget j ''deviceListInfo'') 0) ''storageDeviceList'') else [])
      in if hasKey j ''storageDeviceList'' \<and> isArray (jget j ''storageDeviceList'')
         then elements (jget j ''storageDeviceList'') else a)"

definition populateDeviceInfo :: "'a pbn_scheme \<Rightarrow> json \<Rightarrow> usb_attached \<Rightarrow> usb_attached" where
  "populateDeviceInfo pf pbnObj tab =
     fold (\<lambda>j t. if hasKey j ''serialNumber''
                 then omap_put (asString pf (jget j ''serialNumber'')) (parse_device pf j) t else t)
       (device_list pbnObj) tab"

definition cleanDeviceInfo :: "usb_attached \<Rightarrow> usb_attached" where
  "cleanDeviceInfo tab = []"

section \<open>Drive ids\<close>

text \<open>The id is cut at its first dash; without a dash the second part is empty.\<close>

definition split_drive_id :: "string \<Rightarrow> string \<times> string" where
  "split_drive_id driveId =
     (case str_find ''-'' driveId of
        Some i \<Rightarrow> (take i driveId, drop (i + 1) driveId)
      | None \<Rightarrow> (driveId, []))"

text \<open>The first drive with the given uuid.\<close>

definition find_uuid :: "string \<Rightarrow> usb_drive_info list \<Rightarrow> usb_drive_info option" where
  "find_uuid u ds = find (\<lambda>d. mUuid d = u) ds"

definition getDriveName2 :: "usb_attached \<Rightarrow> string \<Rightarrow> string \<Rightarrow> string" where
  "getDriveName2 tab driveId subId =
     (case omap_find driveId tab of
        None \<Rightarrow> []
      | Some dev \<Rightarrow>
          (let ds = mStorageDriveList dev
           in if subId = [] \<and> length ds = 1 then mDriveName (ds ! 0)
              else if subId \<noteq> [] \<and> length ds = 1
              then (if mUuid (ds ! 0) = subId then mDriveName (ds ! 0) else ''NO SUB'')
              else if subId \<noteq> [] \<and> 1 < length ds
              then (let n = (case find_uuid subId ds of Some d \<Rightarrow> mDriveName d | None \<Rightarrow> [])
                    in if n = [] then ''NO SUB'' else n)
              else if subId = [] \<and> 1 < length ds then ''UUID'' else []))"

definition getDriveName :: "usb_attached \<Rightarrow> string \<Rightarrow> string" where
  "getDriveName tab driveId = (case split_drive_id driveId of (m, s) \<Rightarrow> getDriveName2 tab m s)"

definition isStorageIdExists :: "usb_attached \<Rightarrow> string \<Rightarrow> bool" where
  "isStorageIdExists tab driveId =
     (case split_drive_id driveId of (mainId, subId) \<Rightarrow>
       (case omap_find mainId tab of
          None \<Rightarrow> False
        | Some dev \<Rightarrow>
            (let ds = mStorageDriveList dev
             in if subId = [] \<and> length ds = 1 then True
                else if subId \<noteq> [] \<and> length ds = 1 then mUuid (ds ! 0) = subId
                else if subId \<noteq> [] \<and> 1 < length ds then find_uuid subId ds \<noteq> None
                else False)))"

definition isStorageDriveMounted :: "usb_attached \<Rightarrow> string \<Rightarrow> bool" where
  "isStorageDriveMounted tab actualDevId =
     (case split_drive_id actualDevId of (mainId, subId) \<Rightarrow>
       (case omap_find mainId tab of
          None \<Rightarrow> False
        | Some dev \<Rightarrow>
            (let ds = mStorageDriveList dev
             in if subId = [] \<and> length ds = 1 then mIsMounted (ds ! 0)
                else if subId \<noteq> [] \<and> length ds = 1
                then (if mUuid (ds ! 0) = subId then mIsMounted (ds ! 0) else False)
                else if subId \<noteq> [] \<and> 1 < length ds
                then (case find_uuid subId ds of Some d \<Rightarrow> mIsMounted d | None \<Rightarrow> False)
                else False)))"

definition getStorageNumber :: "usb_attached \<Rightarrow> string \<Rightarrow> 32 word" where
  "getStorageNumber tab actualDevId =
     (case omap_find (fst (split_drive_id actualDevId)) tab of
        Some dev \<Rightarrow> mDeviceNumber dev | None \<Rightarrow> 0)"

definition getStorageType :: "usb_attached \<Rightarrow> string \<Rightarrow> string" where
  "getStorageType tab actualDevId =
     (case omap_find (fst (split_drive_id actualDevId)) tab of
        Some dev \<Rightarrow> mStorageType dev | None \<Rightarrow> [])"

section \<open>USBPbnJsonParser\<close>

text \<open>The second block of put calls: a member is copied when it is there.\<close>

definition copy_member :: "json \<Rightarrow> string \<Rightarrow> string \<Rightarrow> json \<Rightarrow> json" where
  "copy_member src k k' r = (if hasKey src k then jput k' (jget src k) r else r)"

definition drive_entry :: "'a pbn_scheme \<Rightarrow> json \<Rightarrow> json \<Rightarrow> json" where
  "drive_entry pf dev j =
     (let r1 = copy_member j ''driveName'' ''driveName'' jobject;
          r2 = (if hasKey j ''uuid''
                then jput ''driveId''
                       (JStr (asString pf (jget dev ''serialNumber'') @ ''-'' @ asString pf (jget j ''uuid''))) r1
                else r1);
          r3 = copy_member j ''fsType'' ''fileSystem'' r2
      in copy_member j ''mountName'' ''path'' r3)"

definition ParseListOfStorages :: "'a pbn_scheme \<Rightarrow> json \<Rightarrow> json" where
  "ParseListOfStorages pf replyObj =
     (let ret = asBool pf (jget replyObj ''returnValue'');
          info = jget replyObj ''deviceListInfo''
      in if ret \<and> hasKey replyObj ''deviceListInfo'' \<and> isArray info \<and> 1 < arraySize info
         then error_object (usb_code MORE_ATTACHED_STORAGES_THAN_USB)
                (getUSBErrorString (usb_code MORE_ATTACHED_STORAGES_THAN_USB)) jobject
         else (let usbArray = (if ret then device_list replyObj else [])
               in if usbArray = [] then jput ''usb'' jarray jobject
                  else jput ''usb''
                         (JArr (concat (map (\<lambda>dev.
                            if hasKey dev ''storageDriveList''
                            then map (drive_entry pf dev) (elements (jget dev ''storageDriveList''))
                            else []) usbArray))) jobject))"

definition property_step :: "'a pbn_scheme \<Rightarrow> json \<Rightarrow> json \<Rightarrow> json" where
  "property_step pf eachObj respObj =
     (if hasKey eachObj ''storageType''
      then jput ''storageType'' (JStr (asString pf (jget eachObj ''storageType''))) respObj
      else if hasKey eachObj ''isWritable''
      then jputs [(''writable'', JBool (asBool pf (jget eachObj ''isWritable''))),
                  (''deletable'', JBool (asBool pf (jget eachObj ''isWritable'')))] respObj
      else if hasKey eachObj ''spaceInfo''
      then (let infoObj = jget eachObj ''spaceInfo''
            in jput ''freeSpace'' (jget infoObj ''freeSize'')
                 (copy_member infoObj ''driveSize'' ''totalSpace''
                   (copy_member infoObj ''totalSize'' ''totalSpace'' respObj)))
      else respObj)"

definition ParseGetProperties :: "'a pbn_scheme \<Rightarrow> json \<Rightarrow> json" where
  "ParseGetProperties pf rootObj =
     (if \<not> isArray rootObj \<and> \<not> asBool pf (jget rootObj ''returnValue'') then rootObj
      else fold (property_step pf) (elements rootObj)
             (if isArray rootObj then jput ''returnValue'' (JBool True) jobject else jobject))"

definition ParseEject :: "json \<Rightarrow> json" where
  "ParseEject rootObj =
     (if isArray rootObj \<and> arraySize rootObj = 1 then jidx rootObj 0 else rootObj)"

section \<open>The methods\<close>

definition SAF_USB_ATTACH_METHOD :: string where
  "SAF_USB_ATTACH_METHOD = ''luna://com.webos.service.pdm/getAttachedStorageDeviceList''"

definition SAF_USB_WRITE_Q_METHOD :: string where
  "SAF_USB_WRITE_Q_METHOD = ''luna://com.webos.service.pdm/isWritableDrive''"

definition SAF_USB_SPACE_METHOD :: string where
  "SAF_USB_SPACE_METHOD = ''luna://com.webos.service.pdm/getSpaceInfo''"

definition SAF_USB_EJECT_METHOD :: string where
  "SAF_USB_EJECT_METHOD = ''luna://com.webos.service.pdm/eject''"

text \<open>The reply to an error of the drive table.\<close>

definition usb_error_reply :: "usb_error \<Rightarrow> json" where
  "usb_error_reply e = error_object (usb_code e) (getUSBErrorString (usb_code e)) jobject"

text \<open>The first two guards of the methods on one drive: None when the drive is there and mounted.\<close>

definition usb_drive_error :: "usb_attached \<Rightarrow> string \<Rightarrow> usb_error \<Rightarrow> usb_error option" where
  "usb_drive_error tab driveId unmounted =
     (if \<not> isStorageIdExists tab driveId then Some USB_STORAGE_NOT_EXISTS
      else if \<not> isStorageDriveMounted tab driveId then Some unmounted
      else None)"

text \<open>The text of a request to the device manager; the name of the drive is pasted in.\<close>

definition drive_payload :: "string \<Rightarrow> string" where
  "drive_payload name = ''{\"driveName\": \"'' @ name @ ''\"}''"

definition usb_getPropertiesMethod ::
  "'a platform_scheme \<Rightarrow> request_data \<Rightarrow> usb_state \<Rightarrow> (effect list \<times> usb_state) option" where
  "usb_getPropertiesMethod pf rd u =
     (let driveId = asString pf (jget (params rd) ''driveId'')
      in case usb_drive_error (usbStorages u) driveId DRIVE_NOT_MOUNTED of
           Some e \<Rightarrow> Some ([Reply rd (usb_error_reply e)], u)
         | None \<Rightarrow>
             (let devDriveName = getDriveName (usbStorages u) driveId
              in if devDriveName = ''UUID'' then Some ([Reply rd (usb_error_reply MORE_PARTITIONS_IN_USB)], u)
                 else if devDriveName = ''NO SUB''
                 then Some ([Reply rd (usb_error_reply USB_SUB_STORAGE_NOT_EXISTS)], u)
                 else if hasKey (params rd) ''path''
                 then (let prop = util_getProperties pf (asString pf (jget (params rd) ''path'')) (u_world u)
                       in if si_status prop < 0
                          then Some ([Reply rd (status_response getUSBErrorString (si_status prop))], u)
                          else (let r0 = jput ''returnValue'' (JBool True) jobject;
                                    r1 = (if hasKey (params rd) ''storageType''
                                          then jput ''storageType''
                                                 (JStr (asString pf (jget (params rd) ''storageType''))) r0
                                          else r0);
                                    attrObj = jput ''LastModTimeStamp''
                                                (JStr (fst (getLastModTime pf (w_fs (u_world u)) prop))) jobject
                                in Some ([Reply rd (jputs [(''writable'', JBool (mIsWritable prop)),
                                                            (''deletable'', JBool (mIsDeletable prop)),
                                                            (''attributes'', jappend jarray attrObj)] r1)], u)))
                 else (let spaceObj = jputs [(''uri'', JStr SAF_USB_SPACE_METHOD),
                                              (''payload'', JStr (drive_payload devDriveName))] jobject;
                           rd' = rd\<lparr>params := jput ''nextReq'' (JArr [spaceObj]) (params rd)\<rparr>
                       in Some ([LSCall SAF_USB_WRITE_Q_METHOD (drive_payload devDriveName)
                                   USBStorageProvider_onGetPropertiesReply rd'], u))))"

definition usb_listStoragesMethod ::
  "'a platform_scheme \<Rightarrow> request_data \<Rightarrow> usb_state \<Rightarrow> (effect list \<times> usb_state) option" where
  "usb_listStoragesMethod pf rd u =
     Some ([LSCall SAF_USB_ATTACH_METHOD ''{\"subscribe\": true}''
              USBStorageProvider_onListStoragesMethodReply rd], u)"

definition usb_ejectMethod ::
  "'a platform_scheme \<Rightarrow> request_data \<Rightarrow> usb_state \<Rightarrow> (effect list \<times> usb_state) option" where
  "usb_ejectMethod pf rd u =
     (let driveId = asString pf (jget (params rd) ''driveId'')
      in case usb_drive_error (usbStorages u) driveId USB_DRIVE_ALREADY_EJECTED of
           Some e \<Rightarrow> Some ([Reply rd (usb_error_reply e)], u)
         | None \<Rightarrow>
             Some ([LSCall SAF_USB_EJECT_METHOD
                      (''{\"deviceNum\": '' @ int_str (sint (getStorageNumber (usbStorages u) driveId)) @ ''}'')
                      USBStorageProvider_onReply rd], u))"

text \<open>The guards of copy and move: the second drive only counts when it is a USB drive.\<close>

definition usb_transfer_error :: "'a pbn_scheme \<Rightarrow> usb_attached \<Rightarrow> json \<Rightarrow> usb_error option" where
  "usb_transfer_error pf tab p =
     (let src = asString pf (jget p ''srcDriveId'');
          dest = asString pf (jget p ''destDriveId'');
          toUsb = (jget p ''destStorageType'' = JStr ''usb'')
      in if \<not> isStorageIdExists tab src then Some USB_STORAGE_NOT_EXISTS
         else if toUsb \<and> \<not> isStorageIdExists tab dest then Some USB_STORAGE_NOT_EXISTS
         else if \<not> isStorageDriveMounted tab src \<or> (toUsb \<and> \<not> isStorageDriveMounted tab dest)
         then Some DRIVE_NOT_MOUNTED else None)"

text \<open>An operation on the world, with the provider's own state around it.\<close>

definition in_world :: "usb_state \<Rightarrow> (effect list \<times> world) option \<Rightarrow> (effect list \<times> usb_state) option" where
  "in_world u r = map_option (\<lambda>(es, w'). (es, u\<lparr>u_world := w'\<rparr>)) r"

definition usb_copyMethod ::
  "'a platform_scheme \<Rightarrow> request_data \<Rightarrow> usb_state \<Rightarrow> (effect list \<times> usb_state) option" where
  "usb_copyMethod pf rd u =
     (let srcPath = asString pf (jget (params rd) ''srcPath'');
          destPath = asString pf (jget (params rd) ''destPath'')
      in case usb_transfer_error pf (usbStorages u) (params rd) of
           Some e \<Rightarrow> Some ([Reply rd (usb_error_reply e)], u)
         | None \<Rightarrow>
             (let (valid, out) = validateInterProviderOperation pf rd (u_world u)
              in if \<not> valid then Some (out, u)
                 else (let (c, w') = util_copy pf srcPath destPath (overwrite_of pf (params rd)) (u_world u)
                       in in_world u (transfer_effects rd
                            (progress_report (copy_getStatus pf (w_fs w')) getUSBErrorString False
                               jobject c) w'))))"

text \<open>moveMethod makes a new reply object in every round.\<close>

definition usb_moveMethod ::
  "'a platform_scheme \<Rightarrow> request_data \<Rightarrow> usb_state \<Rightarrow> (effect list \<times> usb_state) option" where
  "usb_moveMethod pf rd u =
     (let srcPath = asString pf (jget (params rd) ''srcPath'');
          destPath = asString pf (jget (params rd) ''destPath'')
      in case usb_transfer_error pf (usbStorages u) (params rd) of
           Some e \<Rightarrow> Some ([Reply rd (usb_error_reply e)], u)
         | None \<Rightarrow>
             (let (valid, out) = validateInterProviderOperation pf rd (u_world u)
              in if \<not> valid then Some (out, u)
                 else (let (c, w') = util_move pf srcPath destPath (overwrite_of pf (params rd)) (u_world u)
                       in in_world u (transfer_effects rd
                            (progress_report (move_getStatus pf (w_fs w')) getUSBErrorString True
                               jobject c) w'))))"

definition usb_removeMethod ::
  "'a platform_scheme \<Rightarrow> request_data \<Rightarrow> usb_state \<Rightarrow> (effect list \<times> usb_state) option" where
  "usb_removeMethod pf rd u =
     (case usb_drive_error (usbStorages u) (asString pf (jget (params rd) ''driveId'')) DRIVE_NOT_MOUNTED of
        Some e \<Rightarrow> Some ([Reply rd (usb_error_reply e)], u)
      | None \<Rightarrow>
          (let (st, w') = util_remove pf (asString pf (jget (params rd) ''path'')) (u_world u)
           in Some ([Reply rd (status_response getUSBErrorString st)], u\<lparr>u_world := w'\<rparr>)))"

definition usb_listFolderContentsMethod ::
  "'a platform_scheme \<Rightarrow> request_data \<Rightarrow> usb_state \<Rightarrow> (effect list \<times> usb_state) option" where
  "usb_listFolderContentsMethod pf rd u =
     (let path = asString pf (jget (params rd) ''path'');
          offset = asInt pf (jget (params rd) ''offset'');
          limit = asInt pf (jget (params rd) ''limit'')
      in case usb_drive_error (usbStorages u) (asString pf (jget (params rd) ''driveId'')) DRIVE_NOT_MOUNTED of
           Some e \<Rightarrow> Some ([Reply rd (usb_error_reply e)], u)
         | None \<Rightarrow>
             (let conts = util_getListFolderContents pf path (u_world u)
              in Some ([Reply rd (list_response content_json getUSBErrorString conts offset limit)], u)))"

definition usb_renameMethod ::
  "'a platform_scheme \<Rightarrow> request_data \<Rightarrow> usb_state \<Rightarrow> (effect list \<times> usb_state) option" where
  "usb_renameMethod pf rd u =
     (case usb_drive_error (usbStorages u) (asString pf (jget (params rd) ''driveId'')) DRIVE_NOT_MOUNTED of
        Some e \<Rightarrow> Some ([Reply rd (usb_error_reply e)], u)
      | None \<Rightarrow>
          (let (st, w') = util_rename pf (asString pf (jget (params rd) ''path''))
                            (asString pf (jget (params rd) ''newName'')) (u_world u)
           in Some ([Reply rd (status_response getUSBErrorString st)], u\<lparr>u_world := w'\<rparr>)))"

definition usb_handleRequests :: "'a platform_scheme \<Rightarrow> usb_state handler" where
  "usb_handleRequests pf rd u =
     (case methodType rd of
        LIST_STORAGES_METHOD \<Rightarrow> usb_listStoragesMethod pf rd u
      | GET_PROP_METHOD \<Rightarrow> usb_getPropertiesMethod pf rd u
      | EJECT_METHOD \<Rightarrow> usb_ejectMethod pf rd u
      | COPY_METHOD \<Rightarrow> usb_copyMethod pf rd u
      | MOVE_METHOD \<Rightarrow> usb_moveMethod pf rd u
      | REMOVE_METHOD \<Rightarrow> usb_removeMethod pf rd u
      | RENAME_METHOD \<Rightarrow> usb_renameMethod pf rd u
      | LIST_METHOD \<Rightarrow> usb_listFolderContentsMethod pf rd u
      | _ \<Rightarrow> Some ([], u))"

section \<open>The replies of the device manager\<close>

text \<open>These run when the bus delivers an answer; an answer that does not parse is dropped.\<close>

definition usb_onListStoragesMethodReply ::
  "'a pbn_scheme \<Rightarrow> request_data \<Rightarrow> string \<Rightarrow> usb_state \<Rightarrow> effect list \<times> usb_state" where
  "usb_onListStoragesMethodReply pf rd message u =
     (case dom_parse pf message of
        None \<Rightarrow> ([], u)
      | Some root \<Rightarrow>
          (let tab = populateDeviceInfo pf root (cleanDeviceInfo (usbStorages u));
               rd' = rd\<lparr>params := jputs [(''response'', ParseListOfStorages pf root),
                                         (''storageType'', JStr ''usb'')] (params rd)\<rparr>
           in ([Reply rd' (params rd')], u\<lparr>usbStorages := tab\<rparr>)))"

definition usb_onReply ::
  "'a pbn_scheme \<Rightarrow> request_data \<Rightarrow> string \<Rightarrow> effect list \<times> request_data" where
  "usb_onReply pf rd message =
     (case dom_parse pf message of
        None \<Rightarrow> ([], rd)
      | Some root \<Rightarrow>
          next_call pf USBStorageProvider_onReply
            (rd\<lparr>params := collect_response [root] (params rd)\<rparr>))"

definition usb_onGetPropertiesReply ::
  "'a pbn_scheme \<Rightarrow> usb_state \<Rightarrow> request_data \<Rightarrow> string \<Rightarrow> effect list \<times> request_data" where
  "usb_onGetPropertiesReply pf u rd message =
     (let deviceType = getStorageType (usbStorages u) (asString pf (jget (params rd) ''driveId''));
          typeObj = jput ''storageType'' (JStr deviceType) jobject
      in case dom_parse pf message of
           None \<Rightarrow> ([], rd)
         | Some root \<Rightarrow>
             next_call pf USBStorageProvider_onReply
               (rd\<lparr>params := collect_response [typeObj, root] (params rd)\<rparr>))"

section \<open>The contract\<close>

definition usb_methods :: "method_type \<Rightarrow> bool" where
  "usb_methods m \<longleftrightarrow>
     m \<in> {LIST_STORAGES_METHOD, GET_PROP_METHOD, EJECT_METHOD, COPY_METHOD, MOVE_METHOD,
          REMOVE_METHOD, RENAME_METHOD, LIST_METHOD}"

lemma in_world_Some [simp]: "in_world u (Some (es, w')) = Some (es, u\<lparr>u_world := w'\<rparr>)"
  by (simp add: in_world_def)

lemma usb_unsupported:
  "\<not> usb_methods (methodType rd) \<Longrightarrow> usb_handleRequests pf rd u = Some ([], u)"
  by (cases "methodType rd") (simp_all add: usb_handleRequests_def usb_methods_def)

lemma usb_copy_cases:
  "\<exists>es u'. usb_copyMethod pf rd u = Some (es, u') \<and> es \<noteq> [] \<and> (\<forall>e \<in> set es. answers_to rd e)"
  by (auto simp: usb_copyMethod_def handler_simps split: prod.splits option.splits dest: validate_effects)

lemma usb_move_cases:
  "\<exists>es u'. usb_moveMethod pf rd u = Some (es, u') \<and> es \<noteq> [] \<and> (\<forall>e \<in> set es. answers_to rd e)"
  by (auto simp: usb_moveMethod_def handler_simps split: prod.splits option.splits dest: validate_effects)

lemma usb_getProperties_cases:
  "\<exists>es u'. usb_getPropertiesMethod pf rd u = Some (es, u') \<and> es \<noteq> [] \<and> (\<forall>e \<in> set es. answers_to rd e)"
  by (auto simp: usb_getPropertiesMethod_def Let_def split: option.splits)

lemma usb_supported:
  assumes "usb_methods (methodType rd)"
  shows "\<exists>es u'. usb_handleRequests pf rd u = Some (es, u') \<and> es \<noteq> []
           \<and> (\<forall>e \<in> set es. answers_to rd e)"
  using assms usb_copy_cases [of pf rd u] usb_move_cases [of pf rd u] usb_getProperties_cases [of pf rd u]
  by (cases "methodType rd")
     (auto simp: usb_handleRequests_def usb_methods_def usb_listStoragesMethod_def usb_ejectMethod_def
       usb_removeMethod_def usb_listFolderContentsMethod_def usb_renameMethod_def Let_def
       split: prod.splits option.splits)

interpretation usb_provider: document_provider "usb_handleRequests pf" "\<lambda>_. True"
  "\<lambda>rd. usb_methods (methodType rd)" "\<lambda>rd. \<not> usb_methods (methodType rd)"
  by (unfold_locales, metis usb_supported, erule usb_unsupported)

section \<open>Drive ids resolve consistently\<close>

text \<open>The specification: the drive an id names.\<close>

definition resolve_drive :: "usb_attached \<Rightarrow> string \<Rightarrow> usb_drive_info option" where
  "resolve_drive tab driveId =
     (case split_drive_id driveId of (mainId, subId) \<Rightarrow>
       (case omap_find mainId tab of
          None \<Rightarrow> None
        | Some dev \<Rightarrow>
            (if subId \<noteq> [] then find (\<lambda>d. mUuid d = subId) (mStorageDriveList dev)
             else if length (mStorageDriveList dev) = 1 then Some (hd (mStorageDriveList dev))
             else None)))"

text \<open>The four branches of the code, over the three shapes of a list of drives.\<close>

lemma drives_cases [case_names none one more]:
  obtains "ds = []" | d where "ds = [d]" | d e es where "ds = d # e # es"
  by (cases ds; cases "tl ds") auto

lemma exists_resolves: "isStorageIdExists tab driveId \<longleftrightarrow> resolve_drive tab driveId \<noteq> None"
proof -
  obtain m s where [simp]: "split_drive_id driveId = (m, s)" by fastforce
  show ?thesis
    proof (cases "omap_find m tab")
    case None
    then show ?thesis by (simp add: isStorageIdExists_def resolve_drive_def split: prod.splits)
  next
    case (Some dev)
    then show ?thesis
      by (cases "mStorageDriveList dev" rule: drives_cases)
         (simp_all add: isStorageIdExists_def resolve_drive_def find_uuid_def split: prod.splits)
  qed
qed

lemma mounted_resolves:
  "isStorageDriveMounted tab driveId \<longleftrightarrow>
     (case resolve_drive tab driveId of Some d \<Rightarrow> mIsMounted d | None \<Rightarrow> False)"
proof -
  obtain m s where [simp]: "split_drive_id driveId = (m, s)" by fastforce
  show ?thesis
    proof (cases "omap_find m tab")
    case None
    then show ?thesis by (simp add: isStorageDriveMounted_def resolve_drive_def split: prod.splits)
  next
    case (Some dev)
    then show ?thesis
      by (cases "mStorageDriveList dev" rule: drives_cases)
         (auto simp: isStorageDriveMounted_def resolve_drive_def find_uuid_def split: prod.splits option.splits)
  qed
qed

lemma name_resolves:
  assumes "resolve_drive tab driveId = Some d"
  shows "getDriveName tab driveId = mDriveName d \<or> getDriveName tab driveId = ''NO SUB'' \<and> mDriveName d = []"
proof -
  obtain m s where [simp]: "split_drive_id driveId = (m, s)" by fastforce
  show ?thesis
    proof (cases "omap_find m tab")
    case None
    with assms show ?thesis by (simp add: resolve_drive_def)
  next
    case (Some dev)
    with assms show ?thesis
      by (cases "mStorageDriveList dev" rule: drives_cases)
         (auto simp: getDriveName_def getDriveName2_def resolve_drive_def find_uuid_def Let_def
           split: prod.splits option.splits if_splits)
  qed
qed

lemma split_listed_id:
  assumes "CHR ''-'' \<notin> set serial"
  shows "split_drive_id (serial @ ''-'' @ uuid) = (serial, uuid)"
  using assms by (simp add: split_drive_id_def str_find_char)

text \<open>Populating keeps the last device of a serial number; with distinct ones, each.\<close>

definition serial_of :: "'a pbn_scheme \<Rightarrow> json \<Rightarrow> string" where
  "serial_of pf j = asString pf (jget j ''serialNumber'')"

definition populate_step :: "'a pbn_scheme \<Rightarrow> json \<Rightarrow> usb_attached \<Rightarrow> usb_attached" where
  "populate_step pf j t =
     (if hasKey j ''serialNumber'' then omap_put (serial_of pf j) (parse_device pf j) t else t)"

lemma populate_fold:
  "populateDeviceInfo pf root tab = fold (populate_step pf) (device_list root) tab"
proof -
  have "populate_step pf = (\<lambda>j t. if hasKey j ''serialNumber''
      then omap_put (asString pf (jget j ''serialNumber'')) (parse_device pf j) t else t)"
    by (intro ext) (simp add: populate_step_def serial_of_def)
  then show ?thesis by (simp add: populateDeviceInfo_def)
qed

lemma populate_step_key:
  "hasKey d ''serialNumber'' \<Longrightarrow> populate_step pf d t = omap_put (serial_of pf d) (parse_device pf d) t"
  by (simp add: populate_step_def)

lemma populate_other:
  "\<forall>d \<in> set ds. hasKey d ''serialNumber'' \<longrightarrow> serial_of pf d \<noteq> s \<Longrightarrow>
   omap_find s (fold (populate_step pf) ds tab) = omap_find s tab"
  by (induction ds arbitrary: tab) (auto simp: populate_step_def om.find_put)

lemma populate_find:
  assumes "dev \<in> set ds" "hasKey dev ''serialNumber''"
    "\<forall>d \<in> set ds. hasKey d ''serialNumber'' \<and> d \<noteq> dev \<longrightarrow> serial_of pf d \<noteq> serial_of pf dev"
  shows "omap_find (serial_of pf dev) (fold (populate_step pf) ds tab) = Some (parse_device pf dev)"
  using assms
proof (induction ds arbitrary: tab)
  case (Cons d ds)
  show ?case
  proof (cases "dev \<in> set ds")
    case True
    then show ?thesis using Cons by simp
  next
    case False
    with Cons.prems(1) have [simp]: "dev = d" by simp
    have "\<forall>e \<in> set ds. hasKey e ''serialNumber'' \<longrightarrow> serial_of pf e \<noteq> serial_of pf d"
      using False Cons.prems by fastforce
    then show ?thesis using Cons.prems(2)
      by (simp add: populate_other populate_step_key om.find_put)
  qed
qed simp

lemma find_map_unique:
  assumes "x \<in> set xs" "\<forall>y \<in> set xs. y \<noteq> x \<longrightarrow> \<not> P (f y)" "P (f x)"
  shows "find P (map f xs) = Some (f x)"
  using assms
proof (induction xs)
  case (Cons a xs)
  then show ?case by (cases "a = x") auto
qed simp

text \<open>An id the parser lists names its drive in the table filled from the same answer.\<close>

lemma populate_resolves:
  assumes dev: "dev \<in> set (device_list root)" "hasKey dev ''serialNumber''"
    and uniq: "\<forall>d \<in> set (device_list root).
                 hasKey d ''serialNumber'' \<and> d \<noteq> dev \<longrightarrow> serial_of pf d \<noteq> serial_of pf dev"
    and dash: "CHR ''-'' \<notin> set (serial_of pf dev)"
    and j: "hasKey dev ''storageDriveList''" "j \<in> set (elements (jget dev ''storageDriveList''))"
    and uuids: "\<forall>j' \<in> set (elements (jget dev ''storageDriveList'')).
                  j' \<noteq> j \<longrightarrow> mUuid (parse_drive pf j') \<noteq> mUuid (parse_drive pf j)"
    and uuid: "mUuid (parse_drive pf j) \<noteq> []"
  shows "resolve_drive (populateDeviceInfo pf root tab)
           (serial_of pf dev @ ''-'' @ mUuid (parse_drive pf j)) = Some (parse_drive pf j)"
proof -
  have "omap_find (serial_of pf dev) (populateDeviceInfo pf root tab) = Some (parse_device pf dev)"
    unfolding populate_fold using dev uniq by (rule populate_find)
  moreover have "find (\<lambda>d. mUuid d = mUuid (parse_drive pf j))
      (map (parse_drive pf) (elements (jget dev ''storageDriveList''))) = Some (parse_drive pf j)"
    using find_map_unique [of j "elements (jget dev ''storageDriveList'')"
        "\<lambda>d. mUuid d = mUuid (parse_drive pf j)" "parse_drive pf"] j(2) uuids by simp
  ultimately show ?thesis
    using j uuid split_listed_id [OF dash] by (simp add: resolve_drive_def parse_device_def)
qed

section \<open>Properties\<close>

text \<open>
  Left alone in any reachable state, the USB provider's thread empties its queue in at
  most two steps for each request in it, and then every submitted request of a supported method
  has an answer, sent to its own client through its own callback; nothing is sent that was not
  asked for, and the answers are those of handling the requests in their order.
\<close>

theorem usb_requests_answered:
  assumes "disp_reach (usb_handleRequests pf) s0 d" "\<not> mQuit d" "mThread d = Waiting"
  shows "\<exists>d'. drain (usb_handleRequests pf) (2 * length (mQueue d)) d = Some d' \<and> mQueue d' = []
     \<and> run_all (usb_handleRequests pf) (submitted d) s0 = Some (emitted d', mState d')
     \<and> (\<forall>rd \<in> {r \<in> set (submitted d). usb_methods (methodType r)}. \<exists>e \<in> set (emitted d'). answers_to rd e)
     \<and> (\<forall>e \<in> set (emitted d'). \<exists>rd \<in> set (submitted d). answers_to rd e)"
  using usb_provider.drain_answers [OF assms] by blast

theorem usb_requests_answered_witness:
  "\<exists>d'. drain (usb_handleRequests calm_platform) 2
          (addRequest (sample_request EJECT_METHOD jobject) (dispatcher_init (\<lparr>usbStorages = [], u_world = empty_world\<rparr>))) = Some d'
      \<and> (\<exists>e \<in> set (emitted d'). answers_to (sample_request EJECT_METHOD jobject) e)"
proof -
  let ?rd = "sample_request EJECT_METHOD jobject"
  let ?d = "addRequest ?rd (dispatcher_init (\<lparr>usbStorages = [], u_world = empty_world\<rparr>))"
  have d: "mQueue ?d = [?rd]" "submitted ?d = [?rd]" "\<not> mQuit ?d" "mThread ?d = Waiting"
    by (simp_all add: addRequest_def dispatcher_init_def)
  have "usb_methods (methodType ?rd)" by (simp add: sample_request_def usb_methods_def)
  then show ?thesis
    using usb_requests_answered [OF reach_one [of "usb_handleRequests calm_platform" _ ?rd] d(3,4)] d by auto
qed

text \<open>
  The three functions that read a USB drive id agree with one resolution of ids: an id exists when
  it names a drive, counts as mounted when that drive is, and has the name of that drive (a drive
  without a name is reported like an unknown partition).
\<close>

theorem usb_id_functions_agree:
  "(isStorageIdExists tab driveId \<longleftrightarrow> resolve_drive tab driveId \<noteq> None)
   \<and> isStorageDriveMounted tab driveId = (case resolve_drive tab driveId of Some d \<Rightarrow> mIsMounted d | None \<Rightarrow> False)
   \<and> (case resolve_drive tab driveId of None \<Rightarrow> True
      | Some d \<Rightarrow> getDriveName tab driveId = mDriveName d
          \<or> getDriveName tab driveId = ''NO SUB'' \<and> mDriveName d = [])"
  using exists_resolves mounted_resolves name_resolves [of tab driveId] by (auto split: option.splits)

text \<open>The devices of an answer can be told apart by the ids made of them.\<close>

definition told_apart :: "'a pbn_scheme \<Rightarrow> json list \<Rightarrow> bool" where
  "told_apart pf devs \<longleftrightarrow>
     (\<forall>dev \<in> set devs. hasKey dev ''storageDriveList'' \<longrightarrow>
        hasKey dev ''serialNumber'' \<and> CHR ''-'' \<notin> set (serial_of pf dev)
        \<and> (\<forall>d \<in> set devs. hasKey d ''serialNumber'' \<and> d \<noteq> dev \<longrightarrow> serial_of pf d \<noteq> serial_of pf dev)
        \<and> (\<forall>j \<in> set (elements (jget dev ''storageDriveList'')). hasKey j ''uuid'' \<longrightarrow>
              asString pf (jget j ''uuid'') \<noteq> []
              \<and> (\<forall>j' \<in> set (elements (jget dev ''storageDriveList'')).
                    j' \<noteq> j \<longrightarrow> mUuid (parse_drive pf j') \<noteq> asString pf (jget j ''uuid''))))"

lemma listed_entry:
  assumes "e \<in> set (elements (jget (ParseListOfStorages pf root) ''usb''))"
  obtains dev j where "dev \<in> set (device_list root)" "hasKey dev ''storageDriveList''"
    "j \<in> set (elements (jget dev ''storageDriveList''))" "e = drive_entry pf dev j"
  using assms that
  by (auto simp: ParseListOfStorages_def error_object_def Let_def split: if_splits)

lemma entry_id:
  "jget (drive_entry pf dev j) ''driveId'' = JStr i \<longleftrightarrow>
   hasKey j ''uuid'' \<and> i = serial_of pf dev @ ''-'' @ asString pf (jget j ''uuid'')"
  by (auto simp: drive_entry_def copy_member_def serial_of_def Let_def jget_jput)

text \<open>
  C25: When the answer of the device manager has been handled, every drive id that is in the list of
  the reply names, in the table the provider then has, the drive it was made of: the id exists, it is
  mounted when that drive is, it has that drive's name (a drive without a name may be reported as an
  unknown partition) and the number and type of its device. This holds for answers whose devices can
  be told apart: every device with drives has a serial number of its own without a dash in it, and
  every uuid is not empty and unlike the others of its device.
\<close>

theorem usb_listed_id_resolves:
  assumes msg: "dom_parse pf message = Some root" and apart: "told_apart pf (device_list root)"
    and e: "e \<in> set (elements (jget (ParseListOfStorages pf root) ''usb''))" "jget e ''driveId'' = JStr driveId"
    and tab: "tab = usbStorages (snd (usb_onListStoragesMethodReply pf rd message u))"
  shows "\<exists>dev j. dev \<in> set (device_list root) \<and> j \<in> set (elements (jget dev ''storageDriveList''))
     \<and> e = drive_entry pf dev j \<and> isStorageIdExists tab driveId
     \<and> isStorageDriveMounted tab driveId = mIsMounted (parse_drive pf j)
     \<and> (getDriveName tab driveId = mDriveName (parse_drive pf j)
        \<or> getDriveName tab driveId = ''NO SUB'' \<and> mDriveName (parse_drive pf j) = [])
     \<and> getStorageNumber tab driveId = mDeviceNumber (parse_device pf dev)
     \<and> getStorageType tab driveId = mStorageType (parse_device pf dev)"
proof (rule listed_entry [OF e(1)])
  fix dev j
  assume d: "dev \<in> set (device_list root)" "hasKey dev ''storageDriveList''"
    "j \<in> set (elements (jget dev ''storageDriveList''))" "e = drive_entry pf dev j"
  with e(2) have i: "hasKey j ''uuid''" "driveId = serial_of pf dev @ ''-'' @ asString pf (jget j ''uuid'')"
    by (simp_all add: entry_id)
  have u: "mUuid (parse_drive pf j) = asString pf (jget j ''uuid'')"
    using i(1) by (simp add: parse_drive_def string_member_def)
  from apart d(1,2) have a: "hasKey dev ''serialNumber''" "CHR ''-'' \<notin> set (serial_of pf dev)"
    "\<forall>d \<in> set (device_list root). hasKey d ''serialNumber'' \<and> d \<noteq> dev \<longrightarrow> serial_of pf d \<noteq> serial_of pf dev"
    unfolding told_apart_def by blast+
  from apart d(1-3) i(1) have b: "mUuid (parse_drive pf j) \<noteq> []"
    "\<forall>j' \<in> set (elements (jget dev ''storageDriveList'')). j' \<noteq> j \<longrightarrow> mUuid (parse_drive pf j') \<noteq> mUuid (parse_drive pf j)"
    unfolding told_apart_def u by blast+
  have tab': "tab = populateDeviceInfo pf root (cleanDeviceInfo (usbStorages u))"
    by (simp add: tab usb_onListStoragesMethodReply_def msg Let_def)
  have r: "resolve_drive tab driveId = Some (parse_drive pf j)"
    using populate_resolves [OF d(1) a(1,3,2) d(2,3) b(2,1)] by (simp add: tab' i(2) u)
  have "omap_find (serial_of pf dev) tab = Some (parse_device pf dev)"
    unfolding tab' populate_fold using d(1) a(1,3) by (rule populate_find)
  then have "getStorageNumber tab driveId = mDeviceNumber (parse_device pf dev)"
    "getStorageType tab driveId = mStorageType (parse_device pf dev)"
    using split_listed_id [OF a(2)] by (simp_all add: getStorageNumber_def getStorageType_def i(2))
  with d r name_resolves [OF r] show ?thesis by (auto simp: exists_resolves mounted_resolves)
qed

definition stick_json :: json where
  "stick_json = JObj [(''driveName'', JStr ''sda1''), (''uuid'', JStr ''U1''), (''isMounted'', JBool True)]"

definition device_json :: json where
  "device_json = JObj [(''serialNumber'', JStr ''S1''), (''storageDriveList'', JArr [stick_json])]"

definition attached_json :: json where
  "attached_json = JObj [(''returnValue'', JBool True), (''storageDeviceList'', JArr [device_json])]"

lemma attached_simps [simp]:
  "device_list attached_json = [device_json]" "hasKey device_json ''serialNumber''"
  "serial_of pf device_json = ''S1''" "jget attached_json ''returnValue'' = JBool True"
  "\<not> hasKey attached_json ''deviceListInfo''" "hasKey device_json ''storageDriveList''"
  "jget device_json ''storageDriveList'' = JArr [stick_json]"
  "hasKey stick_json ''uuid''" "jget stick_json ''uuid'' = JStr ''U1''"
  by (simp_all add: attached_json_def device_json_def stick_json_def device_list_def serial_of_def hasKey_def jget_def)

definition stick_platform :: platform where
  "stick_platform = calm_platform\<lparr>dom_parse := (\<lambda>s. Some attached_json)\<rparr>"

lemma stick_simps [simp]: "dom_parse stick_platform s = Some attached_json" "asString stick_platform (JStr s) = s"
  by (simp_all add: stick_platform_def asString_def)

theorem usb_listed_id_resolves_witness:
  "isStorageIdExists (populateDeviceInfo stick_platform attached_json []) ''S1-U1''
   \<and> isStorageDriveMounted (populateDeviceInfo stick_platform attached_json []) ''S1-U1''"
proof -
  let ?pf = stick_platform and ?e = "drive_entry stick_platform device_json stick_json"
    and ?rd = "sample_request LIST_STORAGES_METHOD jobject" and ?u = "\<lparr>usbStorages = [], u_world = empty_world\<rparr>"
  have "told_apart ?pf (device_list attached_json)" by (simp add: told_apart_def)
  moreover have "?e \<in> set (elements (jget (ParseListOfStorages ?pf attached_json) ''usb''))"
    by (simp add: ParseListOfStorages_def Let_def)
  moreover have "jget ?e ''driveId'' = JStr ''S1-U1''" by (simp add: entry_id)
  ultimately show ?thesis
    using usb_listed_id_resolves [of ?pf "[]" attached_json ?e "''S1-U1''" "usbStorages (snd (usb_onListStoragesMethodReply ?pf ?rd [] ?u))" ?rd ?u]
    by (simp add: usb_onListStoragesMethodReply_def cleanDeviceInfo_def)
       (simp add: parse_drive_def stick_json_def hasKey_def jget_def asBool_def)
qed

text \<open>The table after that answer, with its only drive.\<close>

definition one_stick :: usb_state where
  "one_stick = \<lparr>usbStorages = populateDeviceInfo calm_platform attached_json [], u_world = empty_world\<rparr>"

lemma one_stick_simps [simp]:
  "isStorageIdExists (usbStorages one_stick) ''S1-U1''" "isStorageDriveMounted (usbStorages one_stick) ''S1-U1''"
  "getDriveName (usbStorages one_stick) ''S1-U1'' = ''sda1''"
proof -
  have r: "resolve_drive (usbStorages one_stick) ''S1-U1'' = Some (parse_drive calm_platform stick_json)"
    using populate_resolves [of device_json attached_json calm_platform stick_json "[]"]
    by (simp add: one_stick_def parse_drive_def string_member_def)
  show "isStorageIdExists (usbStorages one_stick) ''S1-U1''" "isStorageDriveMounted (usbStorages one_stick) ''S1-U1''"
    "getDriveName (usbStorages one_stick) ''S1-U1'' = ''sda1''"
    using r name_resolves [OF r]
    by (simp_all add: exists_resolves mounted_resolves parse_drive_def string_member_def stick_json_def hasKey_def jget_def)
qed

text \<open>
  A remove on a USB drive works on any path: once the drive of the request is known and mounted,
  the path is removed wherever it lies, on the drive or not, whatever the session.
\<close>

theorem usb_path_not_tied_to_drive:
  assumes "asString pf (jget (params rd) ''driveId'') = d"
    and "isStorageIdExists (usbStorages u) d" "isStorageDriveMounted (usbStorages u) d"
    and "methodType rd = REMOVE_METHOD"
  shows "usb_handleRequests pf rd u =
     (case util_remove pf (asString pf (jget (params rd) ''path'')) (u_world u) of
        (st, w') \<Rightarrow> Some ([Reply rd (status_response getUSBErrorString st)], u\<lparr>u_world := w'\<rparr>))"
  using assms by (simp add: usb_handleRequests_def usb_removeMethod_def usb_drive_error_def)

theorem usb_path_not_tied_to_drive_witness:
  "\<exists>rd w'. jget (params rd) ''driveId'' = JStr ''S1-U1'' \<and> jget (params rd) ''path'' = JStr ''/etc''
     \<and> usb_handleRequests calm_platform rd (one_stick\<lparr>u_world := empty_world\<lparr>w_fs := [([''etc''], plain_dir)]\<rparr>\<rparr>)
       = Some ([Reply rd (jput ''returnValue'' (JBool True) jobject)], one_stick\<lparr>u_world := w'\<rparr>)
     \<and> node_at (w_fs w') [''etc''] = None"
proof -
  let ?p = "jputs [(''driveId'', JStr ''S1-U1''), (''path'', JStr ''/etc'')] jobject"
  let ?rd = "sample_request REMOVE_METHOD ?p"
  let ?fs = "[([''etc''], plain_dir)]"
  let ?u = "one_stick\<lparr>u_world := empty_world\<lparr>w_fs := ?fs\<rparr>\<rparr>"
  have r: "resolve_nofollow ?fs ''/etc'' = Some [''etc'']" "resolve ?fs ''/etc'' = Some [''etc'']"
    by (simp_all add: resolve_nofollow_def resolve_def comps_def node_at_def plain_dir_def)
  have "validateInternalPath calm_platform ?fs ''/etc''"
    by (simp add: validateInternalPath_def fs_exists_def fs_status_def r path_max_def node_at_def)
  then have "util_remove calm_platform ''/etc'' (u_world ?u) = (100, (u_world ?u)\<lparr>w_fs := drop_tree [''etc''] ?fs\<rparr>)"
    by (simp add: util_remove_def internalRemove_def fs_remove_all_def fs_write_None r)
  with usb_path_not_tied_to_drive [of calm_platform ?rd "''S1-U1''" ?u]
  have "usb_handleRequests calm_platform ?rd ?u = Some ([Reply ?rd (jput ''returnValue'' (JBool True) jobject)],
      one_stick\<lparr>u_world := (u_world ?u)\<lparr>w_fs := drop_tree [''etc''] ?fs\<rparr>\<rparr>)"
    by (simp add: sample_request_def status_response_def Let_def)
  then show ?thesis
    by (intro exI [of _ ?rd] exI [of _ "(u_world ?u)\<lparr>w_fs := drop_tree [''etc''] ?fs\<rparr>"])
       (simp add: sample_request_def node_at_drop_tree)
qed

lemma property_step_returnValue:
  "isObject r \<Longrightarrow> isObject (property_step pf e r) \<and> jget (property_step pf e r) ''returnValue'' = jget r ''returnValue''"
  by (auto simp: property_step_def copy_member_def Let_def)

lemma property_fold_returnValue:
  "isObject r \<Longrightarrow> jget (fold (property_step pf) xs r) ''returnValue'' = jget r ''returnValue''"
  by (induction xs arbitrary: r) (auto simp: property_step_returnValue)

text \<open>
  The properties of a USB drive always say that they were read: whatever the device manager
  answered to the two calls, failures included, the reply has a returnValue of true.
\<close>

theorem usb_properties_report_success:
  "jget (ParseGetProperties pf (JArr answers)) ''returnValue'' = JBool True"
  by (simp add: ParseGetProperties_def property_fold_returnValue)

text \<open>
  The properties of a mounted USB drive without a path take two calls of the device manager, one
  after the other: the answer to the first triggers the second, and the client gets one reply
  holding the storage type and both answers, in that order.
\<close>

theorem usb_properties_asks_twice:
  assumes "asString pf (jget (params rd) ''driveId'') = driveId"
    and "isStorageIdExists (usbStorages u) driveId" "isStorageDriveMounted (usbStorages u) driveId"
    and "getDriveName (usbStorages u) driveId = name" "name \<noteq> ''UUID''" "name \<noteq> ''NO SUB''"
    and "isObject (params rd)" "\<not> hasKey (params rd) ''path''" "\<not> hasKey (params rd) ''response''"
    and "dom_parse pf m1 = Some r1" "dom_parse pf m2 = Some r2"
  shows "\<exists>rd1 rd2 rd3.
     usb_getPropertiesMethod pf rd u =
       Some ([LSCall SAF_USB_WRITE_Q_METHOD (drive_payload name) USBStorageProvider_onGetPropertiesReply rd1], u)
     \<and> usb_onGetPropertiesReply pf u rd1 m1 =
       ([LSCall SAF_USB_SPACE_METHOD (drive_payload name) USBStorageProvider_onReply rd2], rd2)
     \<and> usb_onReply pf rd2 m2 =
       ([Reply rd3 (JArr [jput ''storageType'' (JStr (getStorageType (usbStorages u) driveId)) jobject, r1, r2])], rd3)
     \<and> subs rd3 = subs rd \<and> cb rd3 = cb rd"
  using assms
  by (simp add: usb_getPropertiesMethod_def usb_drive_error_def usb_onGetPropertiesReply_def usb_onReply_def
      next_call_def collect_response_def Let_def arraySize_def jidx_def)

theorem usb_properties_asks_twice_witness:
  "\<exists>rd1. usb_getPropertiesMethod (calm_platform\<lparr>dom_parse := (\<lambda>s. Some (JStr s))\<rparr>)
            (sample_request GET_PROP_METHOD (JObj [(''driveId'', JStr ''S1-U1'')])) one_stick =
       Some ([LSCall SAF_USB_WRITE_Q_METHOD (drive_payload ''sda1'') USBStorageProvider_onGetPropertiesReply rd1], one_stick)"
  using usb_properties_asks_twice [of "calm_platform\<lparr>dom_parse := (\<lambda>s. Some (JStr s))\<rparr>"
      "sample_request GET_PROP_METHOD (JObj [(''driveId'', JStr ''S1-U1'')])" "''S1-U1''" one_stick "''sda1''"
      "''1''" "JStr ''1''" "''2''" "JStr ''2''"]
  by (auto simp: sample_request_def jget_def hasKey_def)

end
