(* ===== verification/Saf_Http.thy ===== *)
theory Saf_Http
  imports Saf_Prelude
begin

text \<open>
  CurlClient (utils/CurlClient.h, utils/CurlClient.cpp): the client that keeps a request and its
  response, the SOAP body of a Browse request, and doInternalRequest, which hands the request to
  libcurl, collects what comes back and cuts the headers into lines. libcurl and the allocator
  are the record \<open>curl_lib\<close>.
\<close>

section \<open>Results\<close>

text \<open>MPMResult; the codes are the positions.\<close>

datatype mpm_result =
    MPM_RESULT_OK | MPM_RESULT_CREATED_FAILED | MPM_RESULT_INVALID_HANDLE | MPM_RESULT_INVALID_PARAMETER
  | MPM_RESULT_INTERNAL_ERROR | MPM_RESULT_INVALID_VERSION | MPM_RESULT_MISSING_API
  | MPM_RESULT_NOT_IMPLEMENTED | MPM_RESULT_OUT_OF_MEMORY | MPM_RESULT_ERROR_ADD_MESSAGE_QUEUE
  | MPM_RESULT_LOADLIBRARY_FAILED | MPM_RESULT_INSUFFICIENT_BUFFER | MPM_RESULT_DUPLICATE_API_CALL
  | MPM_RESULT_FILE_NOT_OPEN | MPM_RESULT_FILE_ALREADY_OPEN | MPM_RESULT_FILE_NOT_CLOSED
  | MPM_RESULT_NOT_STARTED | MPM_RESULT_STARTED_FAILED | MPM_RESULT_ALREADY_STARTED
  | MPM_RESULT_NOT_STOPPED | MPM_RESULT_ALREADY_CREATED | MPM_RESULT_NOT_AUTHORIZED
  | MPM_RESULT_NOT_PRESENT | MPM_RESULT_NETWORK_ERROR | MPM_RESULT_JSON_ERROR
  | MPM_RESULT_MEMORY_ERROR | MPM_RESULT_INVALID_DATA | MPM_RESULT_INDEX_OUT_OF_BOUNDS
  | MPM_RESULT_UNEXPECTED_RESULT

section \<open>The client\<close>

datatype curl_method = GET | PUT | POST | DELETE | HEAD

datatype curl_ssl = CURLUSESSL_NONE | CURLUSESSL_TRY | CURLUSESSL_CONTROL | CURLUSESSL_ALL

fun getCurlMethodString :: "curl_method \<Rightarrow> string" where
  "getCurlMethodString GET = ''GET''"
| "getCurlMethodString PUT = ''PUT''"
| "getCurlMethodString POST = ''POST''"
| "getCurlMethodString DELETE = ''DELETE''"
| "getCurlMethodString HEAD = ''HEAD''"

record curl_client =
  m_url :: string
  m_xml :: string
  m_method :: string
  m_requestHeaders :: "string list"
  m_requestBody :: string
  m_username :: string
  m_response :: string
  m_outHeaders :: "string list"
  m_useSsl :: curl_ssl
  m_lastResponseCode :: int

definition INVALID_RESPONSE_CODE :: int where
  "INVALID_RESPONSE_CODE = 0"

definition CurlClient :: curl_client where
  "CurlClient =
     \<lparr>m_url = [], m_xml = [], m_method = [], m_requestHeaders = [], m_requestBody = [], m_username = [],
      m_response = [], m_outHeaders = [], m_useSsl = CURLUSESSL_TRY,
      m_lastResponseCode = INVALID_RESPONSE_CODE\<rparr>"

text \<open>The constructor with a method and an address; None is its exception.\<close>

definition CurlClient_for :: "curl_method \<Rightarrow> string \<Rightarrow> curl_client option" where
  "CurlClient_for method url =
     (if url = [] then None
      else Some (CurlClient\<lparr>m_method := getCurlMethodString method, m_url := url\<rparr>))"

definition setRequestHeaders :: "string list \<Rightarrow> curl_client \<Rightarrow> curl_client" where
  "setRequestHeaders hs c = c\<lparr>m_requestHeaders := hs\<rparr>"

definition addRequestHeader :: "string \<Rightarrow> curl_client \<Rightarrow> curl_client" where
  "addRequestHeader h c = c\<lparr>m_requestHeaders := m_requestHeaders c @ [h]\<rparr>"

definition setUserName :: "string \<Rightarrow> curl_client \<Rightarrow> curl_client" where
  "setUserName n c = c\<lparr>m_username := n\<rparr>"

definition setMethodType :: "curl_method \<Rightarrow> curl_client \<Rightarrow> curl_client" where
  "setMethodType method c = c\<lparr>m_method := getCurlMethodString method\<rparr>"

definition setURL :: "string \<Rightarrow> curl_client \<Rightarrow> curl_client" where
  "setURL url c = c\<lparr>m_url := url\<rparr>"

definition setRequestBody :: "string \<Rightarrow> curl_client \<Rightarrow> curl_client" where
  "setRequestBody body c = c\<lparr>m_requestBody := body\<rparr>"

definition setUseSSLOption :: "curl_ssl \<Rightarrow> curl_client \<Rightarrow> curl_client" where
  "setUseSSLOption ssl c = c\<lparr>m_useSsl := ssl\<rparr>"

definition CURL_UPNP_BROWSE_CHILD_FLAG :: string where
  "CURL_UPNP_BROWSE_CHILD_FLAG = ''BrowseDirectChildren''"

definition CURL_UPNP_BROWSE_METADATA_FLAG :: string where
  "CURL_UPNP_BROWSE_METADATA_FLAG = ''BrowseMetadata''"

definition upnpXmlData :: "int \<Rightarrow> string \<Rightarrow> string \<Rightarrow> int \<Rightarrow> int \<Rightarrow> string \<Rightarrow> string" where
  "upnpXmlData objId flag wanted start count0 order =
     ''<?xml version=\"1.0\"?>'' @ [CHR 0x0A]
     @ ''<s:Envelope xmlns:s=\"http://schemas.xmlsoap.org/soap/envelope/\"''
     @ ''s:encodingStyle=\"http://schemas.xmlsoap.org/soap/encoding/\">'' @ [CHR 0x0A]
     @ '' <s:Body>'' @ [CHR 0x0A]
     @ ''  <u:Browse xmlns:u=\"urn:schemas-upnp-org:service:ContentDirectory:1\">'' @ [CHR 0x0A]
     @ ''   <ObjectID>'' @ int_str objId @ ''</ObjectID>'' @ [CHR 0x0A]
     @ ''   <BrowseFlag>''
     @ (if flag = CURL_UPNP_BROWSE_CHILD_FLAG then CURL_UPNP_BROWSE_CHILD_FLAG
        else CURL_UPNP_BROWSE_METADATA_FLAG)
     @ ''</BrowseFlag>'' @ [CHR 0x0A]
     @ ''   <Filter>'' @ wanted @ ''</Filter>'' @ [CHR 0x0A]
     @ ''   <StartingIndex>'' @ int_str start @ ''</StartingIndex>'' @ [CHR 0x0A]
     @ ''   <RequestedCount>'' @ int_str count0 @ ''</RequestedCount>'' @ [CHR 0x0A]
     @ ''   <SortCriteria>'' @ order @ ''</SortCriteria>'' @ [CHR 0x0A]
     @ ''  </u:Browse>'' @ [CHR 0x0A] @ '' </s:Body>'' @ [CHR 0x0A] @ ''</s:Envelope>'' @ [CHR 0x0A]"

text \<open>setUpnpXmlData with its default arguments, as every caller has it.\<close>

definition setUpnpXmlData :: "int \<Rightarrow> curl_client \<Rightarrow> curl_client" where
  "setUpnpXmlData objId c =
     c\<lparr>m_xml := upnpXmlData objId CURL_UPNP_BROWSE_CHILD_FLAG ''*'' 0 0 []\<rparr>"

section \<open>The transfer\<close>

text \<open>What is set on the handle; of the two timeouts the one set last counts.\<close>

record curl_options =
  o_timeout_ms :: nat
  o_followlocation :: bool
  o_ssl_verifypeer :: bool
  o_headers :: "string list"
  o_url :: string
  o_body :: string
  o_useSsl :: "curl_ssl option"
  o_username :: "string option"
  o_method :: "string option"

datatype piece = Header_piece string | Body_piece string

text \<open>
  libcurl: whether a handle and each header list entry is given, the pieces a transfer delivers and
  whether it ended well, and the response code. The allocator: whether the k-th realloc succeeds,
  and what is read, up to the first NUL, from memory nobody has written.
\<close>

record curl_lib =
  easy_init :: bool
  slist_append :: "nat \<Rightarrow> bool"
  easy_perform :: "curl_options \<Rightarrow> piece list \<times> bool"
  response_code :: "int option"
  can_realloc :: "nat \<Rightarrow> bool"
  unwritten :: string

text \<open>MemoryChunk: the byte of the constructor, what was received, or the null of a failed realloc.\<close>

datatype chunk = Fresh | Bytes string | Null

fun chunk_bytes :: "chunk \<Rightarrow> string" where
  "chunk_bytes (Bytes s) = s"
| "chunk_bytes _ = []"

text \<open>WriteCallback: the count it returns, and the chunk.\<close>

definition WriteCallback :: "bool \<Rightarrow> string \<Rightarrow> chunk \<Rightarrow> nat \<times> chunk" where
  "WriteCallback ok contents mem =
     (if ok then (length contents, Bytes (chunk_bytes mem @ contents)) else (0, Null))"

text \<open>The pieces go to the two chunks; a count that is not the piece's length ends the transfer.\<close>

fun receive :: "curl_lib \<Rightarrow> piece list \<Rightarrow> nat \<Rightarrow> chunk \<Rightarrow> chunk \<Rightarrow> bool \<times> chunk \<times> chunk" where
  "receive l [] k body header = (True, body, header)"
| "receive l (Body_piece s # ps) k body header =
     (let (n, body') = WriteCallback (can_realloc l k) s body
      in if n = length s then receive l ps (k + 1) body' header else (False, body', header))"
| "receive l (Header_piece s # ps) k body header =
     (let (n, header') = WriteCallback (can_realloc l k) s header
      in if n = length s then receive l ps (k + 1) body header' else (False, body, header'))"

text \<open>A char pointer read as a string.\<close>

definition c_string :: "string \<Rightarrow> string" where
  "c_string s = takeWhile (\<lambda>c. c \<noteq> CHR 0x00) s"

fun chunk_text :: "curl_lib \<Rightarrow> chunk \<Rightarrow> string option" where
  "chunk_text l Fresh = Some (unwritten l)"
| "chunk_text l (Bytes s) = Some (c_string s)"
| "chunk_text l Null = None"

definition CRLF :: string where
  "CRLF = [CHR 0x0D, CHR 0x0A]"

text \<open>The loop of decomposeHeader: the lines, each up to its line end; what follows the last is dropped.\<close>

function header_lines :: "string \<Rightarrow> string list" where
  "header_lines s =
     (case str_find CRLF s of None \<Rightarrow> [] | Some n \<Rightarrow> take n s # header_lines (drop (n + 2) s))"
  by pat_completeness auto
termination
  by (relation "measure length") (auto simp: CRLF_def dest!: str_find_Some_split)

declare header_lines.simps [simp del]

definition decomposeHeader :: "string option \<Rightarrow> string list \<Rightarrow> mpm_result \<times> string list" where
  "decomposeHeader header headers =
     (case header of
        None \<Rightarrow> (MPM_RESULT_INVALID_PARAMETER, headers)
      | Some h \<Rightarrow> (MPM_RESULT_OK, headers @ header_lines h))"

definition curl_request :: "curl_client \<Rightarrow> curl_options" where
  "curl_request c =
     \<lparr>o_timeout_ms = 300, o_followlocation = True, o_ssl_verifypeer = False,
      o_headers = map c_string (m_requestHeaders c), o_url = c_string (m_url c),
      o_body = c_string (m_requestBody c),
      o_useSsl = (if m_useSsl c \<noteq> CURLUSESSL_NONE then Some (m_useSsl c) else None),
      o_username = (if m_username c \<noteq> [] then Some (c_string (m_username c)) else None),
      o_method = (if m_method c \<noteq> [] then Some (c_string (m_method c)) else None)\<rparr>"

definition doInternalRequest :: "curl_lib \<Rightarrow> curl_client \<Rightarrow> mpm_result \<times> curl_client" where
  "doInternalRequest l c =
     (let c0 = c\<lparr>m_lastResponseCode := INVALID_RESPONSE_CODE\<rparr>
      in if \<not> easy_init l then (MPM_RESULT_INTERNAL_ERROR, c0)
         else if \<not> list_all (slist_append l) [0 ..< length (m_requestHeaders c)]
         then (MPM_RESULT_OUT_OF_MEMORY, c0)
         else (let (pieces, fine) = easy_perform l (curl_request c);
                   (stored, body, header) = receive l pieces 0 Fresh Fresh
               in if \<not> (stored \<and> fine) then (MPM_RESULT_NETWORK_ERROR, c0)
                  else (MPM_RESULT_OK,
                        c0\<lparr>m_lastResponseCode := (case response_code l of Some r \<Rightarrow> r | None \<Rightarrow> INVALID_RESPONSE_CODE),
                           m_response := (case chunk_text l body of Some t \<Rightarrow> t | None \<Rightarrow> m_response c),
                           m_outHeaders := snd (decomposeHeader (chunk_text l header) (m_outHeaders c))\<rparr>)))"

definition send :: "curl_lib \<Rightarrow> curl_client \<Rightarrow> mpm_result \<times> curl_client" where
  "send l c = doInternalRequest l c"

section \<open>Lines\<close>

lemma str_find_CRLF_first:
  assumes "\<not> str_contains CRLF h"
  shows "str_find CRLF (h @ CRLF @ t) = Some (length h)"
  using assms
proof (induction h)
  case Nil
  have "str_find CRLF (CRLF @ t) = Some 0" by simp
  then show ?case by (simp del: str_find_prefix)
next
  case (Cons c h)
  have "\<not> prefix CRLF (c # h)" "\<not> str_contains CRLF h"
    using Cons.prems by (auto simp: str_contains_def split: if_splits)
  moreover have "\<not> prefix CRLF (c # h @ CRLF @ t)"
    using calculation(1) by (cases h) (auto simp: CRLF_def)
  ultimately show ?case using Cons.IH by simp
qed

lemma header_lines_cons:
  "\<not> str_contains CRLF h \<Longrightarrow> header_lines (h @ CRLF @ t) = h # header_lines t"
  by (subst header_lines.simps) (simp add: str_find_CRLF_first, simp add: CRLF_def)

text \<open>
  decomposeHeader is the inverse of ending each header line with a line end: it appends
  exactly those lines, whatever unfinished line follows.
\<close>

theorem header_lines_roundtrip:
  assumes "\<forall>h \<in> set hs. \<not> str_contains CRLF h" "\<not> str_contains CRLF rest"
  shows "decomposeHeader (Some (concat (map (\<lambda>h. h @ CRLF) hs) @ rest)) headers = (MPM_RESULT_OK, headers @ hs)"
proof -
  have "header_lines (concat (map (\<lambda>h. h @ CRLF) hs) @ rest) = hs"
    using assms(1)
  proof (induction hs)
    case Nil
    then show ?case using assms(2) by (subst header_lines.simps) (simp add: str_contains_def)
  qed (simp add: header_lines_cons)
  then show ?thesis by (simp add: decomposeHeader_def)
qed

theorem header_lines_roundtrip_witness:
  "decomposeHeader (Some (''HTTP/1.1 200 OK'' @ CRLF @ ''Server: x'' @ CRLF @ CRLF)) [] =
     (MPM_RESULT_OK, [''HTTP/1.1 200 OK'', ''Server: x'', []])"
proof -
  have "\<forall>h \<in> set [''HTTP/1.1 200 OK'', ''Server: x'', []]. \<not> str_contains CRLF h"
    by (simp add: str_contains_def CRLF_def)
  moreover have "\<not> str_contains CRLF []" by (simp add: str_contains_def CRLF_def)
  ultimately show ?thesis using header_lines_roundtrip [of "[''HTTP/1.1 200 OK'', ''Server: x'', []]" "[]" "[]"]
    by simp
qed

section \<open>The response\<close>

fun bodies :: "piece list \<Rightarrow> string list" where
  "bodies [] = []"
| "bodies (Body_piece s # ps) = s # bodies ps"
| "bodies (Header_piece s # ps) = bodies ps"

fun headers_of :: "piece list \<Rightarrow> string list" where
  "headers_of [] = []"
| "headers_of (Body_piece s # ps) = headers_of ps"
| "headers_of (Header_piece s # ps) = s # headers_of ps"

text \<open>What a chunk holds after some pieces.\<close>

definition fill :: "chunk \<Rightarrow> string list \<Rightarrow> chunk" where
  "fill mem ss = (if ss = [] then mem else Bytes (chunk_bytes mem @ concat ss))"

lemma fill_simps [simp]: "fill mem [] = mem" "fill (Bytes (chunk_bytes mem @ s)) ss = fill mem (s # ss)"
  by (simp_all add: fill_def)

lemma receive_all:
  "(\<And>i. i < k + length ps \<Longrightarrow> can_realloc l i) \<Longrightarrow>
   receive l ps k body header = (True, fill body (bodies ps), fill header (headers_of ps))"
  by (induction l ps k body header rule: receive.induct) (simp_all add: WriteCallback_def)

text \<open>What a successful request leaves in the client.\<close>

text \<open>
  When libcurl and the allocator do their part, send succeeds, the response is the pieces
  of the body put together, up to the first NUL, and the header lines are added to those of
  earlier requests; but without any piece the response is what happens to be in a byte nobody wrote.
\<close>

theorem curl_success:
  assumes "easy_init l" "\<forall>i. slist_append l i" "\<forall>i. can_realloc l i"
    and "easy_perform l (curl_request c) = (pieces, True)"
  shows "\<exists>c'. send l c = (MPM_RESULT_OK, c')
     \<and> m_response c' = (if bodies pieces = [] then unwritten l else c_string (concat (bodies pieces)))
     \<and> m_outHeaders c' = m_outHeaders c
          @ header_lines (if headers_of pieces = [] then unwritten l else c_string (concat (headers_of pieces)))
     \<and> m_url c' = m_url c \<and> m_requestHeaders c' = m_requestHeaders c \<and> m_requestBody c' = m_requestBody c"
proof -
  have "receive l pieces 0 Fresh Fresh = (True, fill Fresh (bodies pieces), fill Fresh (headers_of pieces))"
    using assms(3) by (intro receive_all) simp
  with assms show ?thesis
    by (simp add: send_def doInternalRequest_def Let_def list_all_iff fill_def decomposeHeader_def)
qed

definition lib_with :: "piece list \<Rightarrow> curl_lib" where
  "lib_with ps = \<lparr>easy_init = True, slist_append = (\<lambda>i. True), easy_perform = (\<lambda>opts. (ps, True)),
     response_code = Some 200, can_realloc = (\<lambda>i. True), unwritten = ''?''\<rparr>"

theorem curl_success_witness:
  "\<exists>c'. send (lib_with [Header_piece (''X'' @ CRLF), Body_piece ''ab'', Body_piece ''c'']) CurlClient = (MPM_RESULT_OK, c')
     \<and> m_response c' = ''abc'' \<and> m_outHeaders c' = header_lines (''X'' @ CRLF)"
proof -
  let ?l = "lib_with [Header_piece (''X'' @ CRLF), Body_piece ''ab'', Body_piece ''c'']"
  have "easy_init ?l" "\<forall>i. slist_append ?l i" "\<forall>i. can_realloc ?l i"
    "easy_perform ?l (curl_request CurlClient) = ([Header_piece (''X'' @ CRLF), Body_piece ''ab'', Body_piece ''c''], True)"
    by (simp_all add: lib_with_def)
  from curl_success [OF this] show ?thesis by (auto simp: c_string_def CRLF_def CurlClient_def)
qed

text \<open>A failed request leaves everything but the response code as it was.\<close>

text \<open>
  A request that fails leaves the client as it was, and its result tells which step failed.
\<close>

theorem curl_failure:
  assumes "send l c = (r, c')" "r \<noteq> MPM_RESULT_OK"
  shows "c' = c\<lparr>m_lastResponseCode := INVALID_RESPONSE_CODE\<rparr>
     \<and> (r = MPM_RESULT_INTERNAL_ERROR \<and> \<not> easy_init l
        \<or> r = MPM_RESULT_OUT_OF_MEMORY \<and> easy_init l \<and> (\<exists>i < length (m_requestHeaders c). \<not> slist_append l i)
        \<or> r = MPM_RESULT_NETWORK_ERROR \<and> easy_init l)"
  using assms
  by (auto simp: send_def doInternalRequest_def Let_def list_all_iff split: if_splits prod.splits)

end
