(* ===== verification/Saf_Upnp.thy ===== *)
theory Saf_Upnp
  imports Saf_Replies Saf_Http
begin

text \<open>
  The UPnP side of the network provider: UpnpDiscover collects the description URLs an SSDP scan
  announces, XMLHandler searches documents, UpnpOperation resolves a path to a container of a
  content directory and lists it. What libcurl, libxml2 and gssdp give is the record \<open>net_env\<close>.
  A C++ exception (std::stoi, substr) is the value None of the first component of a result.
\<close>

section \<open>The libraries\<close>

datatype xml = Element string "(string \<times> string) list" "xml list" | Characters string

text \<open>The signals of a resource browser: a USN with its locations, or a USN that is gone.\<close>

datatype ssdp_signal = Available string "string list" | Unavailable string

record net_env = platform +
  timestamp :: "nat \<Rightarrow> string"                 \<comment> \<open>the text of the n-th look at the clock\<close>
  my_uid :: nat
  my_gid :: nat
  ssdp_scan :: "nat \<Rightarrow> ssdp_signal list option"
      \<comment> \<open>the signals until the loop of the n-th scan quits; None: no client\<close>
  curl :: "nat \<Rightarrow> curl_lib"                     \<comment> \<open>libcurl during the n-th transfer\<close>
  xml_root :: "string \<Rightarrow> xml option"            \<comment> \<open>root element of xmlReadDoc; None: no document\<close>

record upnp_state =
  mScanCompFlag :: bool
  mScannedDevs :: "string list"
  mMsgType :: "string option"
  mControlUrl :: string
  scans :: nat
  transfers :: nat

definition upnp_init :: upnp_state where
  "upnp_init = \<lparr>mScanCompFlag = False, mScannedDevs = [], mMsgType = None, mControlUrl = [], scans = 0, transfers = 0\<rparr>"

section \<open>UpnpDiscover\<close>

definition UPNP_CONTENT_DIR :: string where
  "UPNP_CONTENT_DIR = ''urn:schemas-upnp-org:service:ContentDirectory:1''"

text \<open>updateDeviceInfo: any device that leaves empties the whole list.\<close>

definition updateDeviceInfo :: "string \<Rightarrow> bool \<Rightarrow> string list \<Rightarrow> string list" where
  "updateDeviceInfo msg addFlag devs = (if addFlag then devs @ [msg] else [])"

definition on_resource_unavailable :: "string \<Rightarrow> string list \<Rightarrow> string list" where
  "on_resource_unavailable usn devs =
     (if str_contains UPNP_CONTENT_DIR usn then updateDeviceInfo usn False devs else devs)"

definition on_resource_available :: "string \<Rightarrow> string list \<Rightarrow> string list \<Rightarrow> string list" where
  "on_resource_available usn locations devs =
     (if str_contains UPNP_CONTENT_DIR usn
      then fold (\<lambda>l ds. if str_contains ''description.xml'' l then updateDeviceInfo l True ds else ds) locations devs
      else devs)"

text \<open>The handlers the message type connects.\<close>

definition wants_available :: "string \<Rightarrow> bool" where
  "wants_available msgType \<longleftrightarrow> prefix ''available'' msgType \<or> prefix ''all'' msgType"

definition wants_unavailable :: "string \<Rightarrow> bool" where
  "wants_unavailable msgType \<longleftrightarrow> prefix ''unavailable'' msgType \<or> prefix ''all'' msgType"

fun on_signal :: "string \<Rightarrow> ssdp_signal \<Rightarrow> string list \<Rightarrow> string list" where
  "on_signal msgType (Available usn locations) devs =
     (if wants_available msgType then on_resource_available usn locations devs else devs)"
| "on_signal msgType (Unavailable usn) devs =
     (if wants_unavailable msgType then on_resource_unavailable usn devs else devs)"

text \<open>
  startScan; without an SSDP client, or with a message type it does not know, it returns with the
  flag still set.
\<close>

definition startScan :: "'a net_env_scheme \<Rightarrow> upnp_state \<Rightarrow> upnp_state" where
  "startScan env u =
     (if mScanCompFlag u then u
      else (let u1 = u\<lparr>mScannedDevs := [], mScanCompFlag := True, scans := scans u + 1\<rparr>
            in case ssdp_scan env (scans u) of
                 None \<Rightarrow> u1
               | Some signals \<Rightarrow>
                   (let msgType = (case mMsgType u of None \<Rightarrow> ''available'' | Some t \<Rightarrow> t);
                        u2 = u1\<lparr>mMsgType := Some msgType\<rparr>
                    in if \<not> (wants_available msgType \<or> wants_unavailable msgType) then u2
                       else u2\<lparr>mScannedDevs := fold (on_signal msgType) signals [], mScanCompFlag := False\<rparr>)))"

definition deinit :: "upnp_state \<Rightarrow> upnp_state" where
  "deinit u = u\<lparr>mScanCompFlag := True\<rparr>"

text \<open>getScannedDevices waits for the flag to fall: None is waiting forever.\<close>

definition getScannedDevices :: "upnp_state \<Rightarrow> string list option" where
  "getScannedDevices u = (if mScanCompFlag u then None else Some (mScannedDevs u))"

section \<open>XMLHandler\<close>

text \<open>xmlNodeGetContent: the text below a node.\<close>

primrec xml_content :: "xml \<Rightarrow> string" where
  "xml_content (Characters s) = s"
| "xml_content (Element n as cs) = concat (map xml_content cs)"

text \<open>
  getElementDetails: the first matching element of a list of siblings ends the search of that
  list, but not the search of the lists around it, so a later match overwrites an earlier one.
\<close>

fun getElementDetails :: "xml list \<Rightarrow> string \<Rightarrow> string \<Rightarrow> string" where
  "getElementDetails [] nodeName res = res"
| "getElementDetails (Characters s # ns) nodeName res = getElementDetails ns nodeName res"
| "getElementDetails (Element n as cs # ns) nodeName res =
     (if n = nodeName then xml_content (Element n as cs)
      else getElementDetails ns nodeName (getElementDetails cs nodeName res))"

definition root_list :: "xml option \<Rightarrow> xml list" where
  "root_list r = (case r of None \<Rightarrow> [] | Some n \<Rightarrow> [n])"

definition xml_getValue :: "xml option \<Rightarrow> string \<Rightarrow> string" where
  "xml_getValue root nodeName = getElementDetails (root_list root) nodeName []"

record dir_details =
  dd_id :: int
  dd_restricted :: int
  dd_childCount :: int
  dd_title :: string
  dd_className :: string
  dd_resUrl :: string

definition no_details :: dir_details where
  "no_details = \<lparr>dd_id = -1, dd_restricted = -1, dd_childCount = 0, dd_title = [],
                 dd_className = [], dd_resUrl = []\<rparr>"

text \<open>std::stoi: white space, a sign, digits; the rest is ignored. None is an exception.\<close>

definition is_space_chr :: "char \<Rightarrow> bool" where
  "is_space_chr c \<longleftrightarrow> c \<in> {CHR '' '', CHR 0x09, CHR 0x0A, CHR 0x0B, CHR 0x0C, CHR 0x0D}"

definition is_digit_chr :: "char \<Rightarrow> bool" where
  "is_digit_chr c \<longleftrightarrow> 48 \<le> (of_char c :: nat) \<and> (of_char c :: nat) < 58"

definition stoi :: "string \<Rightarrow> int option" where
  "stoi s =
     (let s1 = dropWhile is_space_chr s;
          neg = (s1 \<noteq> [] \<and> hd s1 = CHR ''-'');
          s2 = (if s1 \<noteq> [] \<and> (hd s1 = CHR ''-'' \<or> hd s1 = CHR ''+'') then tl s1 else s1);
          ds = takeWhile is_digit_chr s2;
          v = (if neg then - int (str_nat ds) else int (str_nat ds))
      in if ds = [] \<or> v < - (2 ^ 31) \<or> 2 ^ 31 \<le> v then None else Some v)"

text \<open>The last value of an attribute; the walk stops at an attribute with no value.\<close>

definition attr_value :: "string \<Rightarrow> (string \<times> string) list \<Rightarrow> string" where
  "attr_value k as =
     (case map_of (rev (takeWhile (\<lambda>a. snd a \<noteq> []) as)) k of Some v \<Rightarrow> v | None \<Rightarrow> [])"

definition optional_stoi :: "string \<Rightarrow> int \<Rightarrow> int option" where
  "optional_stoi s d = (if s = [] then Some d else stoi s)"

text \<open>The children up to the first that is not an element.\<close>

fun leading_elements :: "xml list \<Rightarrow> (string \<times> string) list" where
  "leading_elements (Element n as cs # ns) = (n, xml_content (Element n as cs)) # leading_elements ns"
| "leading_elements ns = []"

definition last_named :: "string \<Rightarrow> (string \<times> string) list \<Rightarrow> string" where
  "last_named k es = (case map_of (rev es) k of Some v \<Rightarrow> v | None \<Rightarrow> [])"

definition entry_details :: "int \<Rightarrow> (string \<times> string) list \<Rightarrow> xml list \<Rightarrow> dir_details option" where
  "entry_details parentID as cs =
     (if attr_value ''parentID'' as = int_str parentID
      then (case (optional_stoi (attr_value ''id'' as) (-1),
                  optional_stoi (attr_value ''restricted'' as) (-1),
                  optional_stoi (attr_value ''childCount'' as) 0) of
              (Some i, Some r, Some n) \<Rightarrow>
                (let es = leading_elements cs
                 in Some \<lparr>dd_id = i, dd_restricted = r, dd_childCount = n,
                          dd_title = last_named ''title'' es, dd_className = last_named ''class'' es,
                          dd_resUrl = last_named ''res'' es\<rparr>)
            | _ \<Rightarrow> None)
      else Some no_details)"

fun getCurDirElementDetails :: "xml list \<Rightarrow> int \<Rightarrow> dir_details list option" where
  "getCurDirElementDetails [] parentID = Some []"
| "getCurDirElementDetails (Characters s # ns) parentID = getCurDirElementDetails ns parentID"
| "getCurDirElementDetails (Element n as cs # ns) parentID =
     (case (if n = ''container'' \<or> n = ''item''
            then map_option (\<lambda>d. [d]) (entry_details parentID as cs) else Some []) of
        None \<Rightarrow> None
      | Some here \<Rightarrow>
          (case getCurDirElementDetails cs parentID of
             None \<Rightarrow> None
           | Some below \<Rightarrow>
               map_option (\<lambda>rest. here @ below @ rest) (getCurDirElementDetails ns parentID)))"

definition getCurDirDetails :: "xml option \<Rightarrow> int \<Rightarrow> dir_details list option" where
  "getCurDirDetails root parentID = getCurDirElementDetails (root_list root) parentID"

text \<open>
  getMatchingElementDetails: below a service element, the text of \<open>nodeName\<close> when that of
  \<open>matchNode\<close> contains \<open>matchVal\<close>. A match ends the search of its list of siblings only.
\<close>

fun getMatchingElementDetails :: "xml list \<Rightarrow> string \<Rightarrow> string \<Rightarrow> string \<Rightarrow> string \<Rightarrow> string" where
  "getMatchingElementDetails [] nodeName matchNode matchVal res = res"
| "getMatchingElementDetails (Characters s # ns) nodeName matchNode matchVal res =
     getMatchingElementDetails ns nodeName matchNode matchVal res"
| "getMatchingElementDetails (Element n as cs # ns) nodeName matchNode matchVal res =
     (let es = leading_elements cs;
          matchData = last_named matchNode es;
          nodeData = (if nodeName = matchNode then [] else last_named nodeName es)
      in if n = ''service'' \<and> matchData \<noteq> [] \<and> nodeData \<noteq> [] \<and> str_contains matchVal matchData
         then nodeData
         else getMatchingElementDetails ns nodeName matchNode matchVal
                (getMatchingElementDetails cs nodeName matchNode matchVal res))"

definition getValueUnderSameParent :: "xml option \<Rightarrow> string \<Rightarrow> string \<Rightarrow> string \<Rightarrow> string" where
  "getValueUnderSameParent root nodeName matchNode matchVal =
     getMatchingElementDetails (root_list root) nodeName matchNode matchVal []"

section \<open>UpnpOperation\<close>

text \<open>A request of the client: the body of the response, or None when the result is not OK.\<close>

definition curl_send :: "'a net_env_scheme \<Rightarrow> curl_client \<Rightarrow> upnp_state \<Rightarrow> string option \<times> upnp_state" where
  "curl_send env c u =
     (let (result, c') = send (curl env (transfers u)) c
      in (if result = MPM_RESULT_OK then Some (m_response c') else None, u\<lparr>transfers := transfers u + 1\<rparr>))"

definition browse_headers :: "string list" where
  "browse_headers =
     [''content-type: text/xml'',
      ''soapaction: \"urn:schemas-upnp-org:service:ContentDirectory:1#Browse\"'']"

definition CURL_HEADER_ACCEPT_JSON :: string where
  "CURL_HEADER_ACCEPT_JSON = ''accept: application/json''"

text \<open>The client as getNextDirId and listDirContents set it up.\<close>

definition browse_client :: "upnp_state \<Rightarrow> int \<Rightarrow> curl_client" where
  "browse_client u i =
     (let c = setUpnpXmlData i (addRequestHeader CURL_HEADER_ACCEPT_JSON
                (setURL (mControlUrl u) (setMethodType GET CurlClient)))
      in setRequestHeaders browse_headers (setRequestBody (m_xml c) c))"

text \<open>The entries of a Browse response: the document in its Result element.\<close>

definition browse_entries :: "'a net_env_scheme \<Rightarrow> xml option \<Rightarrow> int \<Rightarrow> dir_details list option" where
  "browse_entries env doc i = getCurDirDetails (xml_root env (xml_getValue doc ''Result'')) i"

definition getNextDirId ::
  "'a net_env_scheme \<Rightarrow> int \<Rightarrow> string \<Rightarrow> upnp_state \<Rightarrow> int option \<times> upnp_state" where
  "getNextDirId env pId nextDir u =
     (case curl_send env (browse_client u pId) u of
        (None, u1) \<Rightarrow> (Some (-1), u1)
      | (Some resXml, u1) \<Rightarrow>
          (case browse_entries env (if resXml = [] then None else xml_root env resXml) pId of
             None \<Rightarrow> (None, u1)
           | Some dirs \<Rightarrow>
               (Some (case find (\<lambda>d. dd_title d = nextDir) dirs of Some d \<Rightarrow> dd_id d | None \<Rightarrow> -1), u1)))"

text \<open>
  The loop that cuts a path into names; \<open>pos\<close> is where the last separator was found. Past an
  empty name the position is moved on by one, also from npos, which it turns into 0. None is
  the exception of substr.
\<close>

function dir_names_from :: "string \<Rightarrow> nat \<Rightarrow> string list option" where
  "dir_names_from temp pos =
     (if length temp < pos + 1 then None
      else (let t = drop (pos + 1) temp
            in case chr_find (CHR ''/'') t of
                 None \<Rightarrow> (if t = [] then dir_names_from t 0 else Some [t])
               | Some n \<Rightarrow>
                   (if n = 0 then dir_names_from t 1
                    else map_option (\<lambda>ns. take n t # ns) (dir_names_from t n))))"
  by pat_completeness auto
termination by (relation "measure (\<lambda>(temp, pos). length temp)") auto

declare dir_names_from.simps [simp del]

definition dir_names :: "string \<Rightarrow> string list option" where
  "dir_names path =
     (case chr_find (CHR ''/'') path of None \<Rightarrow> Some [] | Some n \<Rightarrow> dir_names_from path n)"

text \<open>The walk from container to container; it stops at the first name that is not there.\<close>

fun walk_dirs ::
  "'a net_env_scheme \<Rightarrow> string list \<Rightarrow> int \<Rightarrow> int \<Rightarrow> upnp_state \<Rightarrow> int option \<times> upnp_state" where
  "walk_dirs env [] i contId u = (Some contId, u)"
| "walk_dirs env (d # ds) i contId u =
     (case getNextDirId env i d u of
        (None, u1) \<Rightarrow> (None, u1)
      | (Some j, u1) \<Rightarrow> (if j < 0 then (Some j, u1) else walk_dirs env ds j j u1))"

definition url_base :: "string \<Rightarrow> string" where
  "url_base url = (case chr_rfind (CHR ''/'') url of None \<Rightarrow> url | Some n \<Rightarrow> take n url)"

definition getContainerId ::
  "'a net_env_scheme \<Rightarrow> string \<Rightarrow> string \<Rightarrow> upnp_state \<Rightarrow> int option \<times> upnp_state" where
  "getContainerId env url path u =
     (let u0 = u\<lparr>mControlUrl := []\<rparr>;
          c = addRequestHeader CURL_HEADER_ACCEPT_JSON (setURL url (setMethodType GET CurlClient))
      in case curl_send env c u0 of
           (None, u1) \<Rightarrow> (Some (-1), u1)
         | (Some body, u1) \<Rightarrow>
             (let controlUrl = getValueUnderSameParent (xml_root env body) ''controlURL''
                                 ''serviceType'' ''service:ContentDirectory:1'';
                  u2 = u1\<lparr>mControlUrl := url_base url @ controlUrl\<rparr>
              in case dir_names path of
                   None \<Rightarrow> (None, u2)
                 | Some ns \<Rightarrow> walk_dirs env ns 0 (-1) u2))"

text \<open>A failed transfer leaves the client's response empty.\<close>

definition listDirContents ::
  "'a net_env_scheme \<Rightarrow> int \<Rightarrow> upnp_state \<Rightarrow> dir_details list option \<times> upnp_state" where
  "listDirContents env i u =
     (case curl_send env (browse_client u i) u of
        (r, u1) \<Rightarrow> (browse_entries env (xml_root env (case r of Some b \<Rightarrow> b | None \<Rightarrow> [])) i, u1))"

section \<open>Cutting paths\<close>

lemma chr_find_none: "chr_find c s = None \<longleftrightarrow> c \<notin> set s"
  by (induction s) auto

lemma chr_find_first: "c \<notin> set u \<Longrightarrow> chr_find c (u @ c # v) = Some (length u)"
  by (induction u) auto

definition good_name :: "string \<Rightarrow> bool" where
  "good_name n \<longleftrightarrow> n \<noteq> [] \<and> CHR ''/'' \<notin> set n"

fun slash_path :: "string list \<Rightarrow> string" where
  "slash_path [] = []"
| "slash_path (n # ns) = CHR ''/'' # n @ slash_path ns"

text \<open>The cut is the inverse of joining names, none empty, with separators.\<close>

lemma dir_names_from_slash:
  "ns \<noteq> [] \<Longrightarrow> \<forall>n \<in> set ns. good_name n \<Longrightarrow>
   dir_names_from (pre @ slash_path ns) (length pre) = Some ns"
proof (induction ns arbitrary: pre)
  case (Cons n ns)
  show ?case
  proof (cases ns)
    case Nil
    then show ?thesis using Cons.prems
      by (subst dir_names_from.simps) (simp add: good_name_def chr_find_none [THEN iffD2])
  next
    case (Cons m ms)
    have "chr_find (CHR ''/'') (n @ slash_path ns) = Some (length n)"
      using Cons.prems Cons chr_find_first [of "CHR ''/''" n] by (simp add: good_name_def)
    moreover have "dir_names_from (n @ slash_path ns) (length n) = Some ns"
      using Cons.IH [of n] Cons.prems Cons by simp
    ultimately show ?thesis using Cons.prems
      by (subst dir_names_from.simps) (simp add: good_name_def)
  qed
qed simp

lemma dir_names_slash: "\<forall>n \<in> set ns. good_name n \<Longrightarrow> dir_names (slash_path ns) = Some ns"
  using dir_names_from_slash [of ns "[]"] by (cases ns) (auto simp: dir_names_def)

text \<open>An environment in which nothing fails and no media server is there, for concrete runs.\<close>

definition no_network :: curl_lib where
  "no_network = \<lparr>easy_init = True, slist_append = (\<lambda>i. True), easy_perform = (\<lambda>opts. ([], False)),
     response_code = None, can_realloc = (\<lambda>i. True), unwritten = []\<rparr>"

definition calm_env :: net_env where
  "calm_env =
     \<lparr>dom_parse = (\<lambda>s. None), schema_ok = conforms, conv_string = (\<lambda>j. []), conv_int = (\<lambda>j. 0),
      conv_bool = (\<lambda>j. False), read_fault = (\<lambda>q fs. False), write_fault = (\<lambda>u fs. None),
      dir_denied = (\<lambda>p fs. False), disk_space = (\<lambda>p fs. (8000000000, 2000000000, 1000000000)),
      fresh_meta = root_meta, popen_cmd = (\<lambda>c fs. Some fs), mount_cifs = (\<lambda>s p d fs. Some fs),
      umount_force = (\<lambda>p fs. Some fs), timestamp = nat_str, my_uid = 0, my_gid = 0,
      ssdp_scan = (\<lambda>k. Some []), curl = (\<lambda>k. no_network), xml_root = (\<lambda>s. None)\<rparr>"

section \<open>What a scan collects\<close>

text \<open>The message type is never set from outside, so the list is that of the announcements.\<close>

fun announced :: "ssdp_signal \<Rightarrow> string list" where
  "announced (Available usn locations) =
     (if str_contains UPNP_CONTENT_DIR usn then filter (str_contains ''description.xml'') locations else [])"
| "announced (Unavailable usn) = []"

definition scan_ready :: "upnp_state \<Rightarrow> bool" where
  "scan_ready u \<longleftrightarrow> \<not> mScanCompFlag u \<and> mMsgType u \<in> {None, Some ''available''}"

lemma on_signal_announced: "on_signal ''available'' s devs = devs @ announced s"
proof -
  have f: "fold (\<lambda>l ds. if P l then updateDeviceInfo l True ds else ds) ls ds = ds @ filter P ls" for P ls ds
    by (induction ls arbitrary: ds) (simp_all add: updateDeviceInfo_def)
  show ?thesis by (cases s) (simp_all add: on_resource_available_def wants_available_def wants_unavailable_def f)
qed

theorem scan_collects:
  assumes "scan_ready u" "ssdp_scan env (scans u) = Some signals"
  shows "getScannedDevices (startScan env u) = Some (concat (map announced signals)) \<and> scan_ready (startScan env u)"
proof -
  have "fold (on_signal ''available'') signals devs = devs @ concat (map announced signals)" for devs
    by (induction signals arbitrary: devs) (simp_all add: on_signal_announced)
  with assms show ?thesis
    by (auto simp: startScan_def scan_ready_def getScannedDevices_def wants_available_def Let_def)
qed

theorem scan_collects_witness:
  "getScannedDevices (startScan (calm_env\<lparr>ssdp_scan := (\<lambda>k. Some [Available UPNP_CONTENT_DIR
     [''http://10.0.0.3:80/description.xml'', ''x''], Unavailable UPNP_CONTENT_DIR])\<rparr>) upnp_init)
   = Some [''http://10.0.0.3:80/description.xml'']"
proof -
  let ?s = "[Available UPNP_CONTENT_DIR [''http://10.0.0.3:80/description.xml'', ''x''], Unavailable UPNP_CONTENT_DIR]"
  let ?e = "calm_env\<lparr>ssdp_scan := (\<lambda>k. Some ?s)\<rparr>"
  have "scan_ready upnp_init" "ssdp_scan ?e (scans upnp_init) = Some ?s"
    by (simp_all add: scan_ready_def upnp_init_def)
  from scan_collects [OF this]
  have "getScannedDevices (startScan ?e upnp_init) = Some (concat (map announced ?s))" by simp
  moreover have "str_contains UPNP_CONTENT_DIR UPNP_CONTENT_DIR" by code_simp
  moreover have "str_contains ''description.xml'' ''http://10.0.0.3:80/description.xml''"
    "\<not> str_contains ''description.xml'' ''x''" by code_simp+
  ultimately show ?thesis by simp
qed

section \<open>Properties of the paths of a media server\<close>

text \<open>
  A path of names separated by single slashes is cut into exactly those names: the loop of
  getContainerId is the inverse of joining names, whatever their number and length.
\<close>

theorem media_path_roundtrip:
  assumes "\<forall>n \<in> set ns. good_name n"
  shows "dir_names (slash_path ns) = Some ns"
  using assms by (rule dir_names_slash)

theorem media_path_roundtrip_witness:
  "dir_names ''/Music/Jazz'' = Some [''Music'', ''Jazz'']"
  using media_path_roundtrip [of "[''Music'', ''Jazz'']"] by (simp add: good_name_def)

lemma dir_names_from_trailing:
  "\<forall>n \<in> set ns. good_name n \<Longrightarrow>
   dir_names_from (pre @ slash_path ns @ ''/'') (length pre) = None"
proof (induction ns arbitrary: pre)
  case Nil
  have "dir_names_from [] 0 = None" by (simp add: dir_names_from.simps)
  then show ?case by (subst dir_names_from.simps) simp
next
  case (Cons n ns)
  have "chr_find (CHR ''/'') (n @ slash_path ns @ ''/'') = Some (length n)"
    using Cons.prems chr_find_first [of "CHR ''/''" n] by (cases ns) (simp_all add: good_name_def)
  moreover have "dir_names_from (n @ slash_path ns @ ''/'') (length n) = None"
    using Cons.IH [of n] Cons.prems by simp
  ultimately show ?case using Cons.prems
    by (subst dir_names_from.simps) (simp add: good_name_def)
qed

text \<open>
  A path that ends in a slash ends the loop of getContainerId with an exception: past the
  empty last name the position npos is incremented to 0 and substr is called beyond the end.
\<close>

theorem media_path_trailing_slash_throws:
  assumes "\<forall>n \<in> set ns. good_name n"
  shows "dir_names (slash_path ns @ ''/'') = None"
  using dir_names_from_trailing [OF assms, of "[]"] by (cases ns) (simp_all add: dir_names_def)

theorem media_path_trailing_slash_throws_witness:
  "dir_names ''/Music/'' = None"
  using media_path_trailing_slash_throws [of "[''Music'']"] by (simp add: good_name_def)

end
