(* ===== verification/Saf_Network.thy ===== *)
theory Saf_Network
  imports Saf_Upnp
begin

text \<open>
  NetworkProvider: the tables of mounted Samba shares and of discovered UPnP media servers, each
  drive bound to the session that made it, and the methods on them. The handlers run in a
  std::async whose future is dropped: an exception ends the request without a reply.
\<close>

record net_state =
  mSambaDriveMap :: "(string, string) omap"     \<comment> \<open>ip_user_share to drive id\<close>
  mSambaSessionData :: "(string, string) omap"  \<comment> \<open>drive id to session\<close>
  mSambaPathMap :: "(string, string) omap"      \<comment> \<open>drive id to mount point\<close>
  mUpnpDriveMap :: "(string, string) omap"
  mUpnpSessionData :: "(string, string) omap"
  mUpnpPathMap :: "(string, string) omap"
  mntpathmap :: "(string, string) omap"
  samba_id :: "32 word"                         \<comment> \<open>the static counters of the generators\<close>
  upnp_id :: "32 word"
  n_time :: nat
  n_upnp :: upnp_state
  n_world :: world

definition net_init :: "world \<Rightarrow> net_state" where
  "net_init w =
     \<lparr>mSambaDriveMap = [], mSambaSessionData = [], mSambaPathMap = [], mUpnpDriveMap = [],
      mUpnpSessionData = [], mUpnpPathMap = [], mntpathmap = [], samba_id = 0, upnp_id = 0,
      n_time = 0, n_upnp = upnp_init, n_world = w\<rparr>"

type_synonym net_result = "(effect list \<times> net_state) option"

section \<open>Checks and generators\<close>

definition op_payload :: "request_data \<Rightarrow> json" where
  "op_payload rd = jget (jget (params rd) ''operation'') ''payload''"

definition validateExtraCommand :: "'a pbn_scheme \<Rightarrow> string list \<Rightarrow> request_data \<Rightarrow> bool" where
  "validateExtraCommand pf extraParams rd =
     list_all (\<lambda>n. hasKey (op_payload rd) n \<and> asString pf (jget (op_payload rd) n) \<noteq> []) extraParams"

definition validateSambaOperation :: "string \<Rightarrow> string \<Rightarrow> net_state \<Rightarrow> bool" where
  "validateSambaOperation driveId sid n \<longleftrightarrow> omap_find driveId (mSambaSessionData n) = Some sid"

definition validateUpnpOperation :: "string \<Rightarrow> string \<Rightarrow> net_state \<Rightarrow> bool" where
  "validateUpnpOperation driveId sid n \<longleftrightarrow> omap_find driveId (mUpnpSessionData n) = Some sid"

definition generateUniqueSambaDriveId :: "net_state \<Rightarrow> string \<times> net_state" where
  "generateUniqueSambaDriveId n =
     (''SAMBA_'' @ nat_str (unat (samba_id n + 1)), n\<lparr>samba_id := samba_id n + 1\<rparr>)"

definition generateUniqueUpnpDriveId :: "net_state \<Rightarrow> string \<times> net_state" where
  "generateUniqueUpnpDriveId n =
     (''UPNP_'' @ nat_str (unat (upnp_id n + 1)), n\<lparr>upnp_id := upnp_id n + 1\<rparr>)"

definition getTimestamp :: "'a net_env_scheme \<Rightarrow> net_state \<Rightarrow> string \<times> net_state" where
  "getTimestamp env n = (timestamp env (n_time n), n\<lparr>n_time := n_time n + 1\<rparr>)"

definition samba_key :: "string \<Rightarrow> string \<Rightarrow> string \<Rightarrow> string" where
  "samba_key ip userName sharePath = ip @ ''_'' @ userName @ ''_'' @ sharePath"

section \<open>Mounting a share\<close>

text \<open>The reply of a successful mount.\<close>

definition mount_reply :: "'a pbn_scheme \<Rightarrow> request_data \<Rightarrow> string \<Rightarrow> json" where
  "mount_reply pf rd path =
     (let mountObj = jput ''mountPath'' (JStr path) jobject;
          responsePayObj = jputs [(''type'', JStr (asString pf (jget (jget (params rd) ''operation'') ''type''))),
                                  (''payload'', mountObj)] jobject
      in jputs [(''returnValue'', JBool True), (''responsePayload'', jappend jarray responsePayObj)] jobject)"

definition refuse :: "string \<Rightarrow> string \<Rightarrow> json" where
  "refuse k text = jputs [(''returnValue'', JBool False), (k, JStr text)] jobject"

text \<open>What a mount that succeeded records: the three tables, the singleton's copy, the mount point.\<close>

definition record_mount ::
  "string \<Rightarrow> string \<Rightarrow> string \<Rightarrow> net_state \<Rightarrow> net_state" where
  "record_mount uniqueKey path sid n0 =
     (let (driveId, n) = generateUniqueSambaDriveId n0;
          paths = omap_put driveId path (mSambaPathMap n)
      in n\<lparr>mSambaDriveMap := omap_put uniqueKey driveId (mSambaDriveMap n),
           mSambaSessionData := omap_put driveId sid (mSambaSessionData n),
           mSambaPathMap := paths,
           n_world := setDriveDetails ''SAMBA'' paths (n_world n),
           mntpathmap := omap_put path path (mntpathmap n)\<rparr>)"

definition mount_data ::
  "'a net_env_scheme \<Rightarrow> string \<Rightarrow> string \<Rightarrow> string \<Rightarrow> string \<Rightarrow> string" where
  "mount_data env ip userName password securityMode =
     ''ip='' @ ip @ '',unc='' @ [CHR 0x5C, CHR 0x5C] @ ip @ [CHR 0x5C] @ userName @ '',user='' @ userName
     @ '',pass='' @ password @ '',sec='' @ securityMode @ '',uid='' @ nat_str (my_uid env)
     @ '',gid='' @ nat_str (my_gid env)"

text \<open>The part after the checks: the mount point is made by a shell, then the share mounted on it.\<close>

definition mount_share ::
  "'a net_env_scheme \<Rightarrow> request_data \<Rightarrow> string \<Rightarrow> string \<Rightarrow> string \<Rightarrow> string \<Rightarrow> string \<Rightarrow> string
     \<Rightarrow> net_state \<Rightarrow> net_result" where
  "mount_share env rd ip userName password securityMode uniqueKey path n =
     (case run_popen env (''mkdir -p '' @ path) (n_world n) of
        (False, w1) \<Rightarrow>
          Some ([Reply rd (refuse ''errorText'' ''Cannot create mount path  directory'')], n\<lparr>n_world := w1\<rparr>)
      | (True, w1) \<Rightarrow>
          (let n1 = n\<lparr>n_world := w1\<rparr>
           in if omap_find path (mntpathmap n1) = None
              then (case mount_cifs env (''//'' @ ip @ ''/'' @ userName) path
                           (mount_data env ip userName password securityMode) (w_fs w1) of
                      Some fs' \<Rightarrow>
                        (let w2 = setPathPerm env path (sessionId rd) (w1\<lparr>w_fs := fs'\<rparr>)
                         in Some ([Reply rd (mount_reply env rd path)],
                                  record_mount uniqueKey path (sessionId rd) (n1\<lparr>n_world := w2\<rparr>)))
                    | None \<Rightarrow>
                        Some ([Reply rd (refuse ''error'' (''unable to mount: '' @ path))], n1))
              else Some ([Reply rd (mount_reply env rd path)], n1)))"

definition mountSambaServer :: "'a net_env_scheme \<Rightarrow> request_data \<Rightarrow> net_state \<Rightarrow> net_result" where
  "mountSambaServer env rd n =
     (let p = op_payload rd; ip = asString env (jget p ''ip'')
      in if \<not> hasKey p ''userName''
         then Some ([Reply rd (refuse ''errorText'' ''User name not specified for Drive'')], n)
         else if \<not> hasKey p ''password''
         then Some ([Reply rd (refuse ''errorText'' ''Password not specified for Drive'')], n)
         else if \<not> hasKey p ''securityMode''
         then Some ([Reply rd (refuse ''errorText'' ''Security Mode not specified for Drive'')], n)
         else (let userName = asString env (jget p ''userName'');
                   password = asString env (jget p ''password'');
                   sharePath = asString env (jget p ''sharePath'');
                   securityMode = asString env (jget p ''securityMode'');
                   (stamp, n1) = getTimestamp env n;
                   path = ''/tmp/'' @ ip @ ''_'' @ stamp;
                   uniqueKey = samba_key ip userName sharePath
               in if omap_find uniqueKey (mSambaDriveMap n1) \<noteq> None
                  then Some ([Reply rd (refuse ''error'' ''Already Mounted '')], n1)
                  else mount_share env rd ip userName password securityMode uniqueKey path n1))"

section \<open>Discovering media servers\<close>

text \<open>substr(0, pos) is the whole string when pos is npos.\<close>

definition before_first :: "char \<Rightarrow> string \<Rightarrow> string" where
  "before_first c s = (case chr_find c s of None \<Rightarrow> s | Some i \<Rightarrow> take i s)"

definition after_first :: "char \<Rightarrow> string \<Rightarrow> string" where
  "after_first c s = (case chr_find c s of None \<Rightarrow> s | Some i \<Rightarrow> drop (i + 1) s)"

text \<open>
  Address and port of a description URL; without \<open>//\<close> the position is npos + 2, that is 1, which
  is past the end of the empty string only. None is the exception of substr.
\<close>

definition media_server_parts :: "string \<Rightarrow> (string \<times> string) option" where
  "media_server_parts url =
     (let k = (case str_find ''//'' url of None \<Rightarrow> 1 | Some i \<Rightarrow> i + 2)
      in if length url < k then None
         else (let temp = drop k url;
                   temp2 = (case chr_rfind (CHR ''/'') temp of None \<Rightarrow> temp | Some i \<Rightarrow> take i temp)
               in Some (before_first (CHR '':'') temp, after_first (CHR '':'') temp2)))"

definition parseMediaServer :: "string \<Rightarrow> json option" where
  "parseMediaServer url =
     map_option (\<lambda>(ip, port).
       jputs [(''ip'', JStr ip), (''port'', JStr port), (''descriptionUrl'', JStr url),
              (''name'', JStr ''MEDIA SERVER''),
              (''urn'', JStr ''urn:schemas-upnp-org:service:ContentDirectory:1'')] jobject)
     (media_server_parts url)"

text \<open>A server seen for the first time becomes a drive of the requesting session.\<close>

definition record_server :: "'a pbn_scheme \<Rightarrow> string \<Rightarrow> json \<Rightarrow> net_state \<Rightarrow> net_state" where
  "record_server pf sid mediaObj n =
     (let uniqueKey = asString pf (jget mediaObj ''ip'') @ ''_'' @ asString pf (jget mediaObj ''port'')
      in if omap_find uniqueKey (mUpnpDriveMap n) \<noteq> None then n
         else (let (driveId, n1) = generateUniqueUpnpDriveId n
               in n1\<lparr>mUpnpDriveMap := omap_put uniqueKey driveId (mUpnpDriveMap n1),
                     mUpnpSessionData := omap_put driveId sid (mUpnpSessionData n1),
                     mUpnpPathMap := omap_put driveId
                       (asString pf (jget mediaObj ''descriptionUrl'')) (mUpnpPathMap n1)\<rparr>))"

fun record_servers ::
  "'a pbn_scheme \<Rightarrow> string \<Rightarrow> string list \<Rightarrow> json list \<Rightarrow> net_state \<Rightarrow> json list option \<times> net_state" where
  "record_servers pf sid [] acc n = (Some acc, n)"
| "record_servers pf sid (url # urls) acc n =
     (case parseMediaServer url of
        None \<Rightarrow> (None, n)
      | Some mediaObj \<Rightarrow>
          record_servers pf sid urls (acc @ [mediaObj]) (record_server pf sid mediaObj n))"

definition discoverUPnPMediaServer ::
  "'a net_env_scheme \<Rightarrow> request_data \<Rightarrow> net_state \<Rightarrow> net_result" where
  "discoverUPnPMediaServer env rd n0 =
     (let n = n0\<lparr>n_upnp := startScan env (n_upnp n0)\<rparr>
      in case getScannedDevices (n_upnp n) of
           None \<Rightarrow> None
         | Some devs \<Rightarrow>
             (case record_servers env (sessionId rd) devs [] n of
                (None, n1) \<Rightarrow> Some ([], n1)
              | (Some medias, n1) \<Rightarrow>
                  (let payloadObj = jput ''mediaServer'' (JArr medias) jobject;
                       responsePayObj = jputs
                         [(''type'', JStr (asString env (jget (jget (params rd) ''operation'') ''type''))),
                          (''payload'', payloadObj)] jobject
                   in Some ([Reply rd (jputs [(''returnValue'', JBool True),
                        (''responsePayload'', jappend jarray responsePayObj)] jobject)], n1))))"

definition extraMethod :: "'a net_env_scheme \<Rightarrow> request_data \<Rightarrow> net_state \<Rightarrow> net_result" where
  "extraMethod env rd n =
     (let type = asString env (jget (jget (params rd) ''operation'') ''type'')
      in if type = ''mountSambaServer'' \<and> validateExtraCommand env [''ip'', ''sharePath''] rd
         then mountSambaServer env rd n
         else if type = ''discoverUPnPMediaServer'' then discoverUPnPMediaServer env rd n
         else Some ([Reply rd (error_object (saf_code INVALID_PARAM)
                (getCloudErrorString (saf_code INVALID_PARAM)) jobject)], n))"

section \<open>Listing\<close>

definition network_error :: "saf_error \<Rightarrow> string \<Rightarrow> json" where
  "network_error e text = jputs [(''errorCode'', JNum (saf_code e)), (''errorText'', JStr text)] jobject"

definition is_upnp :: "string \<Rightarrow> bool" where
  "is_upnp driveId \<longleftrightarrow> str_contains ''UPNP'' driveId"

text \<open>The size is cast to int here.\<close>

definition network_content_json :: "folder_content \<Rightarrow> json" where
  "network_content_json c =
     jputs [(''name'', JStr (mName c)), (''path'', JStr (mPath c)), (''type'', JStr (mType c)),
            (''size'', JNum (sint (ucast (mSize c) :: 32 word)))] jobject"

definition upnp_content_json :: "dir_details \<Rightarrow> json" where
  "upnp_content_json d =
     jputs [(''name'', JStr (dd_title d)), (''id'', JNum (dd_id d)),
            (''childCount'', JNum (dd_childCount d)), (''mimeType'', JStr (dd_className d)),
            (''url'', JStr (dd_resUrl d))] jobject"

text \<open>The two calls of UpnpOperation in a row; None is an exception.\<close>

definition upnp_browse ::
  "'a net_env_scheme \<Rightarrow> string \<Rightarrow> string \<Rightarrow> net_state \<Rightarrow> dir_details list option \<times> net_state" where
  "upnp_browse env driveId path n =
     (let url = omap_at driveId (mUpnpPathMap n);
          n1 = n\<lparr>mUpnpPathMap := omap_touch driveId (mUpnpPathMap n)\<rparr>
      in case getContainerId env url path (n_upnp n1) of
           (None, u) \<Rightarrow> (None, n1\<lparr>n_upnp := u\<rparr>)
         | (Some i, u) \<Rightarrow>
             (case listDirContents env i u of (r, u') \<Rightarrow> (r, n1\<lparr>n_upnp := u'\<rparr>)))"

definition network_list_samba :: "'a net_env_scheme \<Rightarrow> request_data \<Rightarrow> net_state \<Rightarrow> net_result" where
  "network_list_samba env rd n =
     (let driveId = asString env (jget (params rd) ''driveId'');
          path = asString env (jget (params rd) ''path'')
      in if \<not> validateSambaOperation driveId (sessionId rd) n
         then Some ([Reply rd (network_error INVALID_PARAM ''Invalid DriveID'')], n)
         else if \<not> validateSambaPath env (n_world n) path driveId
         then Some ([Reply rd (network_error INVALID_PATH ''Invalid Path'')], n)
         else Some ([Reply rd (list_response network_content_json getInternalErrorString
                       (util_getListFolderContents env path (n_world n))
                       (asInt env (jget (params rd) ''offset''))
                       (asInt env (jget (params rd) ''limit'')))], n))"

definition network_list_upnp :: "'a net_env_scheme \<Rightarrow> request_data \<Rightarrow> net_state \<Rightarrow> net_result" where
  "network_list_upnp env rd n =
     (let driveId = asString env (jget (params rd) ''driveId'');
          path = asString env (jget (params rd) ''path'')
      in if \<not> validateUpnpOperation driveId (sessionId rd) n
         then Some ([Reply rd (network_error INVALID_PARAM ''Invalid DriveID'')], n)
         else if path = [] \<or> str_find ''/'' path \<noteq> Some 0 \<or> path ! (length path - 1) = CHR ''/''
         then Some ([Reply rd (network_error INVALID_PATH ''Invalid Path'')], n)
         else (case upnp_browse env driveId path n of
             (None, n1) \<Rightarrow> Some ([], n1)
           | (Some devs, n1) \<Rightarrow>
               Some ([Reply rd
                 (if devs \<noteq> []
                  then jputs [(''returnValue'', JBool True), (''files'', JArr (map upnp_content_json devs)),
                              (''totalCount'', JNum (int (length devs))), (''fullPath'', JStr path)] jobject
                  else jputs [(''returnValue'', JBool False), (''errorCode'', JNum 101),
                              (''errorText'', JStr ''UPNP List Faild '')] jobject)], n1)))"

definition network_list :: "'a net_env_scheme \<Rightarrow> request_data \<Rightarrow> net_state \<Rightarrow> net_result" where
  "network_list env rd n =
     (let driveId = asString env (jget (params rd) ''driveId'')
      in if \<not> is_upnp driveId \<and> omap_find driveId (mSambaSessionData n) = None
            \<or> is_upnp driveId \<and> omap_find driveId (mUpnpSessionData n) = None
         then Some ([Reply rd (network_error INVALID_PARAM ''Invalid DriveID'')], n)
         else if \<not> is_upnp driveId then network_list_samba env rd n
         else network_list_upnp env rd n)"

section \<open>Properties\<close>

definition upnp_attributes_json :: "dir_details \<Rightarrow> json" where
  "upnp_attributes_json d =
     jputs [(''id'', JNum (dd_id d)), (''restricted'', JNum (dd_restricted d)),
            (''mimeType'', JStr (dd_className d)), (''title'', JStr (dd_title d)),
            (''childCount'', JNum (dd_childCount d)), (''url'', JStr (dd_resUrl d))] jobject"

definition network_base_reply :: json where
  "network_base_reply = jputs [(''returnValue'', JBool True), (''storageType'', JStr ''network'')] jobject"

text \<open>
  The branch of a Samba drive. The attributes it fills are an inner variable; the last put of
  the function writes the outer, empty array over them.
\<close>

definition samba_properties :: "'a net_env_scheme \<Rightarrow> request_data \<Rightarrow> string \<Rightarrow> string \<Rightarrow> net_state \<Rightarrow> net_result" where
  "samba_properties env rd driveId path n =
     (if \<not> validateSambaPath env (n_world n) path driveId
      then Some ([Reply rd (jputs [(''errorCode'', JNum (saf_code INVALID_PATH)),
                                    (''errorText'', JStr ''Invalid Path'')] network_base_reply)], n)
      else (let prop = util_getProperties env path (n_world n)
            in if si_status prop < 0
               then Some ([Reply rd (put_status_error getInternalErrorString (si_status prop)
                      (jput ''returnValue'' (JBool False) network_base_reply))], n)
               else (let r0 = jput ''returnValue'' (JBool True) network_base_reply;
                         r1 = (if hasKey (params rd) ''storageType''
                               then jput ''storageType''
                                      (JStr (asString env (jget (params rd) ''storageType''))) r0
                               else r0);
                         attrObj = jput ''LastModTimeStamp''
                                     (JStr (fst (getLastModTime env (w_fs (n_world n)) prop))) jobject;
                         r2 = jputs [(''writable'', JBool (mIsWritable prop)),
                                     (''deletable'', JBool (mIsDeletable prop)),
                                     (''attributes'', jappend jarray attrObj)] r1;
                         root = omap_at driveId (mSambaPathMap n);
                         n1 = n\<lparr>mSambaPathMap := omap_touch driveId (mSambaPathMap n)\<rparr>;
                         r3 = (if path = root
                               then jputs [(''totalSpace'', JNum (sint (getCapacityMB prop))),
                                           (''freeSpace'', JNum (sint (getFreeSpaceMB prop)))] r2
                               else r2)
                     in Some ([Reply rd (jput ''attributes'' jarray r3)], n1))))"

definition upnp_properties :: "'a net_env_scheme \<Rightarrow> request_data \<Rightarrow> string \<Rightarrow> string \<Rightarrow> net_state \<Rightarrow> net_result" where
  "upnp_properties env rd driveId path n =
     (case upnp_browse env driveId path n of
        (None, n1) \<Rightarrow> Some ([], n1)
      | (Some devs, n1) \<Rightarrow>
          Some ([Reply rd (jput ''attributes''
                   (if devs = [] then jarray else jappend jarray (upnp_attributes_json (hd devs)))
                   network_base_reply)], n1))"

definition network_getProperties :: "'a net_env_scheme \<Rightarrow> request_data \<Rightarrow> net_state \<Rightarrow> net_result" where
  "network_getProperties env rd n =
     (let driveId = asString env (jget (params rd) ''driveId'');
          bad = Some ([Reply rd (network_error INVALID_PARAM ''Invalid DriveID'')], n);
          given = hasKey (params rd) ''path'';
          asked = asString env (jget (params rd) ''path'')
      in if \<not> is_upnp driveId \<and> omap_find driveId (mSambaSessionData n) = None
            \<or> is_upnp driveId \<and> omap_find driveId (mUpnpSessionData n) = None
         then bad
         else if is_upnp driveId
         then (if \<not> validateUpnpOperation driveId (sessionId rd) n then bad
               else (let path = omap_at driveId (mUpnpPathMap n);
                         n1 = n\<lparr>mUpnpPathMap := omap_touch driveId (mUpnpPathMap n)\<rparr>
                     in upnp_properties env rd driveId (if given then asked else path) n1))
         else (if \<not> validateSambaOperation driveId (sessionId rd) n then bad
               else (let path = omap_at driveId (mSambaPathMap n);
                         n1 = n\<lparr>mSambaPathMap := omap_touch driveId (mSambaPathMap n)\<rparr>
                     in samba_properties env rd driveId (if given then asked else path) n1)))"

section \<open>Copy, move, remove, rename\<close>

definition in_net :: "net_state \<Rightarrow> (effect list \<times> world) option \<Rightarrow> net_result" where
  "in_net n r = map_option (\<lambda>(es, w'). (es, n\<lparr>n_world := w'\<rparr>)) r"

definition network_copy :: "'a net_env_scheme \<Rightarrow> request_data \<Rightarrow> net_state \<Rightarrow> net_result" where
  "network_copy env rd n =
     (let (valid, out) = validateInterProviderOperation env rd (n_world n)
      in if \<not> valid then Some (out, n)
         else if \<not> validateSambaOperation (asString env (jget (params rd) ''srcDriveId'')) (sessionId rd) n
         then Some ([Reply rd (network_error INVALID_PARAM ''Invalid DriveID'')], n)
         else (let srcPath = asString env (jget (params rd) ''srcPath'');
                   destPath = asString env (jget (params rd) ''destPath'');
                   (c, w') = util_copy env srcPath destPath (overwrite_of env (params rd)) (n_world n)
               in in_net n (transfer_effects rd
                    (progress_report (copy_getStatus env (w_fs w')) getInternalErrorString False
                       jobject c) w')))"

definition network_move :: "'a net_env_scheme \<Rightarrow> request_data \<Rightarrow> net_state \<Rightarrow> net_result" where
  "network_move env rd n =
     (let (valid, out) = validateInterProviderOperation env rd (n_world n)
      in if \<not> valid then Some (out, n)
         else if \<not> validateSambaOperation (asString env (jget (params rd) ''srcDriveId'')) (sessionId rd) n
         then Some ([Reply rd (network_error INVALID_PARAM ''Invalid DriveID'')], n)
         else (let srcPath = asString env (jget (params rd) ''srcPath'');
                   destPath = asString env (jget (params rd) ''destPath'');
                   (c, w') = util_move env srcPath destPath (overwrite_of env (params rd)) (n_world n)
               in in_net n (transfer_effects rd
                    (progress_report (move_getStatus env (w_fs w')) getInternalErrorString False
                       jobject c) w')))"

text \<open>The guards remove and rename share: a mounted drive of the session, and a path on it.\<close>

definition samba_path_error :: "'a net_env_scheme \<Rightarrow> request_data \<Rightarrow> net_state \<Rightarrow> json option" where
  "samba_path_error env rd n =
     (let driveId = asString env (jget (params rd) ''driveId'');
          path = asString env (jget (params rd) ''path'')
      in if \<not> validateSambaOperation driveId (sessionId rd) n
         then Some (network_error INVALID_PARAM ''Invalid DriveID'')
         else if \<not> validateSambaPath env (n_world n) path driveId
         then Some (network_error INVALID_PATH ''Invalid Path'')
         else None)"

definition network_remove :: "'a net_env_scheme \<Rightarrow> request_data \<Rightarrow> net_state \<Rightarrow> net_result" where
  "network_remove env rd n =
     (case samba_path_error env rd n of
        Some e \<Rightarrow> Some ([Reply rd e], n)
      | None \<Rightarrow>
          (let (st, w') = util_remove env (asString env (jget (params rd) ''path'')) (n_world n)
           in Some ([Reply rd (status_response getInternalErrorString st)], n\<lparr>n_world := w'\<rparr>)))"

definition network_rename :: "'a net_env_scheme \<Rightarrow> request_data \<Rightarrow> net_state \<Rightarrow> net_result" where
  "network_rename env rd n =
     (case samba_path_error env rd n of
        Some e \<Rightarrow> Some ([Reply rd e], n)
      | None \<Rightarrow>
          (let (st, w') = util_rename env (asString env (jget (params rd) ''path''))
                            (asString env (jget (params rd) ''newName'')) (n_world n)
           in Some ([Reply rd (status_response getInternalErrorString st)], n\<lparr>n_world := w'\<rparr>)))"

section \<open>Storages and eject\<close>

definition network_response :: "json \<Rightarrow> request_data \<Rightarrow> request_data" where
  "network_response r rd = rd\<lparr>params := jput ''response'' r (params rd)\<rparr>"

definition network_drive_json :: "string \<Rightarrow> string \<Rightarrow> string \<Rightarrow> json" where
  "network_drive_json name driveId path =
     jputs [(''driveName'', JStr name), (''driveId'', JStr driveId), (''path'', JStr path)] jobject"

text \<open>The drives of a session, in the order of the map; a path that is missing is inserted.\<close>

definition own_drives :: "string \<Rightarrow> (string, string) omap \<Rightarrow> string list" where
  "own_drives sid sessions = map fst (filter (\<lambda>e. snd e = sid) sessions)"

definition network_listStoragesMethod :: "'a net_env_scheme \<Rightarrow> request_data \<Rightarrow> net_state \<Rightarrow> net_result" where
  "network_listStoragesMethod env rd n =
     (let sambas = own_drives (sessionId rd) (mSambaSessionData n);
          upnps = own_drives (sessionId rd) (mUpnpSessionData n);
          entries = map (\<lambda>d. network_drive_json ''SAMBA'' d (omap_at d (mSambaPathMap n))) sambas
                    @ map (\<lambda>d. network_drive_json ''UPNP'' d (omap_at d (mUpnpPathMap n))) upnps;
          n' = n\<lparr>mSambaPathMap := fold omap_touch sambas (mSambaPathMap n),
                 mUpnpPathMap := fold omap_touch upnps (mUpnpPathMap n)\<rparr>;
          rd' = network_response (jput ''network'' (JArr entries) jobject) rd
      in Some ([Reply rd' (params rd')], n'))"

text \<open>The first share recorded under the drive id is forgotten before the unmount is tried.\<close>

definition forget_share :: "string \<Rightarrow> net_state \<Rightarrow> net_state" where
  "forget_share driveId n =
     (case find (\<lambda>e. snd e = driveId) (mSambaDriveMap n) of
        Some e \<Rightarrow> n\<lparr>mSambaDriveMap := omap_erase (fst e) (mSambaDriveMap n)\<rparr>
      | None \<Rightarrow> n)"

definition forget_mount :: "string \<Rightarrow> string \<Rightarrow> world \<Rightarrow> net_state \<Rightarrow> net_state" where
  "forget_mount driveId path w n =
     (let paths = omap_erase driveId (mSambaPathMap n)
      in n\<lparr>mntpathmap := omap_erase path (mntpathmap n),
           mSambaSessionData := omap_erase driveId (mSambaSessionData n),
           mSambaPathMap := paths,
           n_world := setDriveDetails ''SAMBA'' paths w\<rparr>)"

definition network_eject :: "'a net_env_scheme \<Rightarrow> request_data \<Rightarrow> net_state \<Rightarrow> net_result" where
  "network_eject env rd n =
     (let driveId = asString env (jget (params rd) ''driveId'')
      in if \<not> validateSambaOperation driveId (sessionId rd) n
         then (let rd' = network_response (network_error INVALID_PARAM ''Invalid DriveID'') rd
               in Some ([Reply rd' (params rd')], n))
         else (let n1 = forget_share driveId n;
                   (r, n2) =
                     (case omap_find driveId (mSambaPathMap n1) of
                        None \<Rightarrow> (refuse ''error'' (''Not Mounted : '' @ driveId), n1)
                      | Some path \<Rightarrow>
                          (case umount_force env path (w_fs (n_world n1)) of
                             None \<Rightarrow> (refuse ''error'' (''Unable to eject : '' @ driveId), n1)
                           | Some fs' \<Rightarrow>
                               (let (st, w') = util_remove env path ((n_world n1)\<lparr>w_fs := fs'\<rparr>)
                                in (jputs [(''returnValue'', JBool True),
                                           (''unmountPath: '', JStr driveId)] jobject,
                                    forget_mount driveId path w' n1))));
                   rd' = network_response r rd
               in Some ([Reply rd' (params rd')], n2)))"

section \<open>Dispatch\<close>

definition network_handleRequests :: "'a net_env_scheme \<Rightarrow> net_state handler" where
  "network_handleRequests env rd n =
     (case methodType rd of
        EXTRA_METHOD \<Rightarrow> extraMethod env rd n
      | LIST_METHOD \<Rightarrow> network_list env rd n
      | GET_PROP_METHOD \<Rightarrow> network_getProperties env rd n
      | REMOVE_METHOD \<Rightarrow> network_remove env rd n
      | MOVE_METHOD \<Rightarrow> network_move env rd n
      | COPY_METHOD \<Rightarrow> network_copy env rd n
      | RENAME_METHOD \<Rightarrow> network_rename env rd n
      | LIST_STORAGES_METHOD \<Rightarrow> network_listStoragesMethod env rd n
      | EJECT_METHOD \<Rightarrow> network_eject env rd n
      | _ \<Rightarrow> Some ([], n))"

text \<open>What is answered whatever the network does: everything but what goes to a media server.\<close>

definition network_methods :: "method_type \<Rightarrow> bool" where
  "network_methods m \<longleftrightarrow> m \<notin> {ATTACH_METHOD, AUTHENTICATE_METHOD}"

definition upnp_request :: "'a net_env_scheme \<Rightarrow> request_data \<Rightarrow> bool" where
  "upnp_request env rd \<longleftrightarrow>
     methodType rd = EXTRA_METHOD
       \<and> asString env (jget (jget (params rd) ''operation'') ''type'') = ''discoverUPnPMediaServer''
     \<or> methodType rd \<in> {LIST_METHOD, GET_PROP_METHOD}
       \<and> is_upnp (asString env (jget (params rd) ''driveId''))"

section \<open>The contract\<close>

definition answered :: "request_data \<Rightarrow> net_result \<Rightarrow> bool" where
  "answered rd r \<longleftrightarrow> (\<exists>es n'. r = Some (es, n') \<and> es \<noteq> [] \<and> (\<forall>e \<in> set es. answers_to rd e))"

lemma answered_Some [simp]: "answered rd (Some (es, n')) \<longleftrightarrow> es \<noteq> [] \<and> (\<forall>e \<in> set es. answers_to rd e)"
  by (auto simp: answered_def)

lemma in_net_Some [simp]: "in_net n (Some (es, w')) = Some (es, n\<lparr>n_world := w'\<rparr>)"
  by (simp add: in_net_def)

lemma answers_to_network_response [simp]: "answers_to rd (Reply (network_response r rd) j)"
  by (simp add: network_response_def)

lemma answered_mount: "answered rd (mountSambaServer env rd n)"
  by (simp add: mountSambaServer_def mount_share_def Let_def split: prod.splits option.splits bool.splits)

lemma answered_copy: "answered rd (network_copy env rd n)"
  by (auto simp: network_copy_def handler_simps split: prod.splits dest: validate_effects)

lemma answered_move: "answered rd (network_move env rd n)"
  by (auto simp: network_move_def handler_simps split: prod.splits dest: validate_effects)

lemma answered_eject: "answered rd (network_eject env rd n)"
  by (simp add: network_eject_def Let_def split: prod.splits)

lemma answered_samba_properties: "answered rd (samba_properties env rd driveId path n)"
  by (simp add: samba_properties_def Let_def)

lemma network_supported:
  assumes "network_methods (methodType rd) \<and> \<not> upnp_request env rd"
  shows "\<exists>es n'. network_handleRequests env rd n = Some (es, n') \<and> es \<noteq> []
           \<and> (\<forall>e \<in> set es. answers_to rd e)"
proof -
  have "answered rd (network_handleRequests env rd n)"
    using assms answered_mount [of rd env n] answered_copy [of rd env n] answered_move [of rd env n]
      answered_eject [of rd env n]
    by (cases "methodType rd")
       (simp_all add: network_handleRequests_def network_methods_def upnp_request_def extraMethod_def
         network_list_def network_list_samba_def network_getProperties_def answered_samba_properties
         network_remove_def network_rename_def network_listStoragesMethod_def Let_def
         split: prod.splits option.splits)
  then show ?thesis by (simp add: answered_def)
qed

lemma network_unsupported:
  "\<not> network_methods (methodType rd) \<Longrightarrow> network_handleRequests env rd n = Some ([], n)"
  by (cases "methodType rd") (simp_all add: network_handleRequests_def network_methods_def)

interpretation network_provider: document_provider "network_handleRequests env" "\<lambda>_. True"
  "\<lambda>rd. network_methods (methodType rd) \<and> \<not> upnp_request env rd"
  "\<lambda>rd. \<not> network_methods (methodType rd)"
  by (unfold_locales, metis network_supported, erule network_unsupported)

section \<open>Properties\<close>

text \<open>
  Left alone in any reachable state, the network provider's thread empties its queue and
  answers every request, to its own client, as long as none of them is for a media server.
\<close>

theorem network_requests_answered:
  assumes "disp_reach (network_handleRequests env) s0 d" "\<not> mQuit d" "mThread d = Waiting"
    and "\<forall>rd \<in> set (submitted d). \<not> upnp_request env rd"
  shows "\<exists>d'. drain (network_handleRequests env) (2 * length (mQueue d)) d = Some d' \<and> mQueue d' = []
     \<and> run_all (network_handleRequests env) (submitted d) s0 = Some (emitted d', mState d')
     \<and> (\<forall>rd \<in> {r \<in> set (submitted d). network_methods (methodType r)}.
           \<exists>e \<in> set (emitted d'). answers_to rd e)
     \<and> (\<forall>e \<in> set (emitted d'). \<exists>rd \<in> set (submitted d). answers_to rd e)"
proof -
  have c: "\<forall>rd \<in> set (submitted d). network_methods (methodType rd) \<and> \<not> upnp_request env rd
      \<or> \<not> network_methods (methodType rd)"
    using assms(4) by blast
  have "{r \<in> set (submitted d). network_methods (methodType r) \<and> \<not> upnp_request env r}
      = {r \<in> set (submitted d). network_methods (methodType r)}"
    using assms(4) by blast
  then show ?thesis using network_provider.drain_answers [OF assms(1-3) TrueI c] by auto
qed

theorem network_requests_answered_witness:
  "\<exists>d'. drain (network_handleRequests calm_env) 2
          (addRequest (sample_request EJECT_METHOD jobject) (dispatcher_init (net_init empty_world))) = Some d'
      \<and> (\<exists>e \<in> set (emitted d'). answers_to (sample_request EJECT_METHOD jobject) e)"
proof -
  let ?rd = "sample_request EJECT_METHOD jobject"
  let ?d = "addRequest ?rd (dispatcher_init (net_init empty_world))"
  have d: "mQueue ?d = [?rd]" "submitted ?d = [?rd]" "\<not> mQuit ?d" "mThread ?d = Waiting"
    by (simp_all add: addRequest_def dispatcher_init_def)
  have "network_methods (methodType ?rd)" "\<forall>rd \<in> set (submitted ?d). \<not> upnp_request calm_env rd"
    unfolding d(2) by (simp_all add: sample_request_def network_methods_def upnp_request_def)
  then show ?thesis
    using network_requests_answered [OF reach_one [of "network_handleRequests calm_env" _ ?rd] d(3,4)] d
    by auto
qed

text \<open>
  C10: A list, getProperties, remove, rename or eject on a Samba drive from another session than the
  one that mounted it is refused, with nothing changed: no file, no table, no mount. Copies and moves
  are not among these methods: their check does not ask for the session
  (transfer_check_ignores_session of Saf_Replies), so another session can copy onto the drive.
\<close>

theorem samba_drive_of_other_session:
  assumes "omap_find driveId (mSambaSessionData n) = Some owner" "sessionId rd \<noteq> owner"
    and "asString env (jget (params rd) ''driveId'') = driveId" "\<not> is_upnp driveId"
    and "methodType rd \<in> {LIST_METHOD, GET_PROP_METHOD, REMOVE_METHOD, RENAME_METHOD, EJECT_METHOD}"
  shows "\<exists>rd' j. network_handleRequests env rd n = Some ([Reply rd' j], n) \<and> answers_to rd (Reply rd' j)
     \<and> (j = network_error INVALID_PARAM ''Invalid DriveID''
        \<or> j = params (network_response (network_error INVALID_PARAM ''Invalid DriveID'') rd))"
  using assms
  by (auto simp: network_handleRequests_def network_list_def network_list_samba_def network_getProperties_def
      network_remove_def network_rename_def samba_path_error_def network_eject_def
      validateSambaOperation_def Let_def)

text \<open>A state with one share mounted by the session root.\<close>

definition one_share :: net_state where
  "one_share = record_mount ''10.0.0.2_bob_music'' ''/tmp/10.0.0.2_0'' ''root'' (net_init empty_world)"

lemma one_share_simps:
  "omap_find ''SAMBA_1'' (mSambaSessionData one_share) = Some ''root''"
  "omap_find ''SAMBA_1'' (mSambaPathMap one_share) = Some ''/tmp/10.0.0.2_0''"
  "mSambaDriveMap one_share = [(''10.0.0.2_bob_music'', ''SAMBA_1'')]"
  by (simp_all add: one_share_def record_mount_def net_init_def generateUniqueSambaDriveId_def
      omap_find_def Let_def)

theorem samba_drive_of_other_session_witness:
  "\<exists>rd' j. network_handleRequests calm_env
       ((sample_request EJECT_METHOD (JObj [(''driveId'', JStr ''SAMBA_1'')]))\<lparr>sessionId := ''guest''\<rparr>)
       one_share = Some ([Reply rd' j], one_share)"
  using samba_drive_of_other_session [OF one_share_simps(1),
      of "(sample_request EJECT_METHOD (JObj [(''driveId'', JStr ''SAMBA_1'')]))\<lparr>sessionId := ''guest''\<rparr>" calm_env]
  by (fastforce simp: sample_request_def jget_def is_upnp_def str_contains_def)

text \<open>
  listStorages gives a session exactly its own drives: a Samba or UPnP drive is an entry of
  the answer if and only if its session is the one of the request.
\<close>

theorem network_storages_own:
  assumes "omap_ok (mSambaSessionData n)" "omap_ok (mUpnpSessionData n)"
  shows "\<exists>rd' n' entries. network_listStoragesMethod env rd n = Some ([Reply rd' (params rd')], n')
     \<and> params rd' = jput ''response'' (jput ''network'' (JArr entries) jobject) (params rd)
     \<and> {jget e ''driveId'' |e. e \<in> set entries} =
        {JStr d |d. omap_find d (mSambaSessionData n) = Some (sessionId rd)
                  \<or> omap_find d (mUpnpSessionData n) = Some (sessionId rd)}"
proof -
  have own: "set (own_drives sid m) = {d. omap_find d m = Some sid}" if "omap_ok m" for sid m
    using om.entries_find [OF that] by (force simp: own_drives_def)
  have e: "jget (network_drive_json name d p) ''driveId'' = JStr d" for name d p
    by (simp add: network_drive_json_def)
  let ?entries = "map (\<lambda>d. network_drive_json ''SAMBA'' d (omap_at d (mSambaPathMap n)))
        (own_drives (sessionId rd) (mSambaSessionData n))
      @ map (\<lambda>d. network_drive_json ''UPNP'' d (omap_at d (mUpnpPathMap n)))
        (own_drives (sessionId rd) (mUpnpSessionData n))"
  have "{jget x ''driveId'' |x. x \<in> set ?entries} =
        {JStr d |d. omap_find d (mSambaSessionData n) = Some (sessionId rd)
                  \<or> omap_find d (mUpnpSessionData n) = Some (sessionId rd)}"
    (is "?l = ?r")
  proof -
    have "?l = (\<lambda>x. jget x ''driveId'') ` set ?entries" by blast
    also have "\<dots> = JStr ` {d. omap_find d (mSambaSessionData n) = Some (sessionId rd)}
        \<union> JStr ` {d. omap_find d (mUpnpSessionData n) = Some (sessionId rd)}"
      by (simp add: image_Un image_image e own [OF assms(1)] own [OF assms(2)])
    also have "\<dots> = ?r" by blast
    finally show ?thesis .
  qed
  then show ?thesis
    by (simp add: network_listStoragesMethod_def Let_def network_response_def)
       (intro exI [of _ ?entries], simp)
qed

theorem network_storages_own_witness:
  "\<exists>rd' n' entries. network_listStoragesMethod calm_env (sample_request LIST_STORAGES_METHOD jobject)
       (net_init empty_world) = Some ([Reply rd' (params rd')], n')
     \<and> {jget e ''driveId'' |e. e \<in> set entries} = {}"
  using network_storages_own [of "net_init empty_world" calm_env "sample_request LIST_STORAGES_METHOD jobject"]
  by (auto simp: net_init_def omap_ok_def omap_find_def)

text \<open>
  C29: When no SSDP client can be created, a discovery never returns: the scan leaves its flag
  set and the wait for the flag has no end, so the provider's only thread handles nothing more.
\<close>

theorem upnp_discovery_hangs:
  assumes "ssdp_scan env (scans (n_upnp n)) = None"
    and "asString env (jget (jget (params rd) ''operation'') ''type'') = ''discoverUPnPMediaServer''"
    and "methodType rd = EXTRA_METHOD"
  shows "network_handleRequests env rd n = None"
  using assms
  by (simp add: network_handleRequests_def extraMethod_def discoverUPnPMediaServer_def startScan_def
      getScannedDevices_def)

theorem upnp_discovery_hangs_witness:
  "network_handleRequests (calm_env\<lparr>ssdp_scan := (\<lambda>k. None)\<rparr>)
     (sample_request EXTRA_METHOD
        (JObj [(''operation'', JObj [(''type'', JStr ''discoverUPnPMediaServer'')])])) (net_init empty_world)
   = None"
  by (rule upnp_discovery_hangs) (simp_all add: sample_request_def jget_def)

text \<open>
  The properties of a Samba drive never carry its attributes: the time stamp is put into an
  inner array, and the answer ends with the outer one, which is empty.
\<close>

theorem samba_properties_no_attributes:
  assumes "samba_properties env rd driveId path n = Some ([Reply rd j], n')"
    and "jget j ''errorCode'' = JNull"
  shows "jget j ''attributes'' = jarray \<and> jget j ''returnValue'' = JBool True"
  using assms
  by (auto simp: samba_properties_def network_base_reply_def put_status_error_def Let_def split: if_splits)

text \<open>The value of the only reply of a result.\<close>

fun only_reply :: "net_result \<Rightarrow> json" where
  "only_reply (Some ([Reply rd j], n)) = j"
| "only_reply r = JNull"

lemma samba_properties_one:
  "\<exists>j n'. samba_properties env rd driveId path n = Some ([Reply rd j], n')"
  by (simp add: samba_properties_def Let_def)

definition share_with_files :: net_state where
  "share_with_files = one_share\<lparr>n_world := (n_world one_share)
     \<lparr>w_fs := [([''tmp''], plain_dir), ([''tmp'', ''10.0.0.2_0''], plain_dir)]\<rparr>\<rparr>"

theorem samba_properties_no_attributes_witness:
  "jget (only_reply (samba_properties calm_env (sample_request GET_PROP_METHOD jobject) ''SAMBA_1''
      ''/tmp/10.0.0.2_0'' share_with_files)) ''attributes'' = jarray"
proof -
  let ?r = "samba_properties calm_env (sample_request GET_PROP_METHOD jobject) ''SAMBA_1''
      ''/tmp/10.0.0.2_0'' share_with_files"
  obtain j n' where r: "?r = Some ([Reply (sample_request GET_PROP_METHOD jobject) j], n')"
    using samba_properties_one by blast
  have "jget (only_reply ?r) ''errorCode'' = JNull" by code_simp
  then show ?thesis using samba_properties_no_attributes [OF r] r by simp
qed

text \<open>
  The address and the port of a description URL are recovered: of http, address, port and
  path, an address without colon or slash and a port without slash come out as they went in.
\<close>

theorem media_server_url_roundtrip:
  assumes "CHR '':'' \<notin> set ip" "CHR ''/'' \<notin> set ip" "CHR ''/'' \<notin> set port" "CHR ''/'' \<notin> set file"
  shows "media_server_parts (''http://'' @ ip @ '':'' @ port @ ''/'' @ file) = Some (ip, port)"
proof -
  have f: "str_find ''//'' (''http://'' @ r) = Some 5" for r by simp
  have r: "chr_rfind (CHR ''/'') (ip @ CHR '':'' # port @ CHR ''/'' # file) = Some (length ip + 1 + length port)"
    using chr_rfind_append [OF assms(4), of "ip @ CHR '':'' # port"] by simp
  have c: "chr_find (CHR '':'') (ip @ CHR '':'' # q) = Some (length ip)" for q
    using chr_find_first [OF assms(1)] .
  show ?thesis
    using f [of "ip @ '':'' @ port @ ''/'' @ file"] r c
    by (simp add: media_server_parts_def before_first_def after_first_def)
qed

theorem media_server_url_roundtrip_witness:
  "media_server_parts ''http://10.0.0.7:8200/rootDesc.xml'' = Some (''10.0.0.7'', ''8200'')"
  using media_server_url_roundtrip [of "''10.0.0.7''" "''8200''" "''rootDesc.xml''"] by simp

lemma w_cmds_popen: "run_popen pf cmd w = (b, w') \<Longrightarrow> w_cmds w' = cmd # w_cmds w"
  by (auto simp: run_popen_def split: option.splits)

lemma w_cmds_popen_snd [simp]: "w_cmds (snd (run_popen pf cmd w)) = cmd # w_cmds w"
  by (auto simp: run_popen_def split: option.splits)

lemma w_cmds_setPathPerm: "\<exists>later. w_cmds (setPathPerm pf path sid w) = later @ w_cmds w"
  by (auto simp: setPathPerm_def Let_def)

text \<open>
  The address of a mount request reaches the shell as it is: the first command of a mount is
  mkdir with the address pasted in, so an address that holds a semicolon runs what follows it.
\<close>

theorem mount_address_in_shell_command:
  assumes "mount_share env rd ip user pw sec key (''/tmp/'' @ ip @ ''_'' @ stamp) n = Some (es, n')"
  shows "\<exists>later. w_cmds (n_world n') = later @ (''mkdir -p /tmp/'' @ ip @ ''_'' @ stamp) # w_cmds (n_world n)"
proof -
  let ?path = "''/tmp/'' @ ip @ ''_'' @ stamp"
  obtain b w1 where b: "run_popen env (''mkdir -p '' @ ?path) (n_world n) = (b, w1)" by fastforce
  have c: "w_cmds w1 = (''mkdir -p /tmp/'' @ ip @ ''_'' @ stamp) # w_cmds (n_world n)"
    using w_cmds_popen [OF b] by simp
  have r: "w_cmds (n_world (record_mount key p sid m)) = w_cmds (n_world m)" for key p sid m
    by (simp add: record_mount_def generateUniqueSambaDriveId_def setDriveDetails_def Let_def)
  from assms b consider "w_cmds (n_world n') = w_cmds w1"
    | fs' where "w_cmds (n_world n') = w_cmds (setPathPerm env ?path (sessionId rd) (w1\<lparr>w_fs := fs'\<rparr>))"
    by (cases b) (auto simp: mount_share_def Let_def r split: if_splits option.splits)
  then show ?thesis
  proof cases
    case 1
    with c show ?thesis by auto
  next
    case (2 fs')
    with c w_cmds_setPathPerm [of env ?path "sessionId rd" "w1\<lparr>w_fs := fs'\<rparr>"] show ?thesis by auto
  qed
qed

theorem mount_address_in_shell_command_witness:
  "\<exists>es n' later. mount_share calm_env (sample_request EXTRA_METHOD jobject) ''x;reboot;'' [] [] [] []
      ''/tmp/x;reboot;_0'' (net_init empty_world) = Some (es, n')
    \<and> w_cmds (n_world n') = later @ [''mkdir -p /tmp/x;reboot;_0'']"
proof -
  let ?r = "mount_share calm_env (sample_request EXTRA_METHOD jobject) ''x;reboot;'' [] [] [] []
      (''/tmp/'' @ ''x;reboot;'' @ ''_'' @ ''0'') (net_init empty_world)"
  have "\<exists>es n'. ?r = Some (es, n')"
    by (simp add: mount_share_def Let_def split: prod.splits bool.splits option.splits)
  then obtain es n' where r: "?r = Some (es, n')" by blast
  from mount_address_in_shell_command [OF r] r show ?thesis
    by (simp add: net_init_def empty_world_def)
qed

end
