(* ===== verification/Saf_Samba.thy ===== *)
theory Saf_Samba
  imports Saf_Network
begin

text \<open>
  The invariant of the Samba tables of NetworkProvider, kept by every request: the table of
  sessions and the table of mount points have the same drives, the copy held by
  SAFUtilityOperation is the table of mount points, and every drive id was made by the counter.
\<close>

section \<open>The invariant\<close>

definition samba_drive_id :: "nat \<Rightarrow> string" where
  "samba_drive_id k = ''SAMBA_'' @ nat_str k"

definition samba_ok ::
  "(string, string) omap \<Rightarrow> (string, string) omap \<Rightarrow> (string, string) omap \<Rightarrow> 32 word \<Rightarrow> bool" where
  "samba_ok sessions paths mirror counter \<longleftrightarrow>
     omap_ok sessions \<and> omap_ok paths \<and> mirror = paths
     \<and> (\<forall>d. omap_find d sessions = None \<longleftrightarrow> omap_find d paths = None)
     \<and> (\<forall>d. omap_find d sessions = None \<or>
          (\<exists>k. 1 \<le> k \<and> k \<le> unat counter \<and> d = samba_drive_id k))"

definition samba_inv :: "net_state \<Rightarrow> bool" where
  "samba_inv n \<longleftrightarrow>
     samba_ok (mSambaSessionData n) (mSambaPathMap n) (w_samba (n_world n)) (samba_id n)"

text \<open>The part of the state the invariant looks at.\<close>

definition samba_view :: "net_state \<Rightarrow> (string, string) omap \<times> (string, string) omap
    \<times> (string, string) omap \<times> 32 word" where
  "samba_view n = (mSambaSessionData n, mSambaPathMap n, w_samba (n_world n), samba_id n)"

lemma samba_inv_view: "samba_view n' = samba_view n \<Longrightarrow> samba_inv n \<Longrightarrow> samba_inv n'"
  unfolding samba_view_def samba_inv_def by simp

lemma samba_inv_init: "w_samba w = [] \<Longrightarrow> samba_inv (net_init w)"
  by (simp add: samba_inv_def samba_ok_def net_init_def omap_ok_def omap_find_def)

section \<open>What leaves the tables alone\<close>

named_theorems keeps_samba

lemma w_samba_popen [keeps_samba]: "run_popen pf cmd w = (b, w') \<Longrightarrow> w_samba w' = w_samba w"
  by (auto simp: run_popen_def split: option.splits)

lemma w_samba_popen_snd [simp]: "w_samba (snd (run_popen pf cmd w)) = w_samba w"
  by (auto simp: run_popen_def split: option.splits)

lemma w_samba_setPathPerm [simp]: "w_samba (setPathPerm pf path sid w) = w_samba w"
  by (simp add: setPathPerm_def Let_def)

lemma w_samba_copy [keeps_samba]: "util_copy pf s d ov w = (c, w') \<Longrightarrow> w_samba w' = w_samba w"
  by (auto simp: util_copy_def split: prod.splits)

lemma w_samba_move [keeps_samba]: "util_move pf s d ov w = (c, w') \<Longrightarrow> w_samba w' = w_samba w"
  by (auto simp: util_move_def split: prod.splits)

lemma w_samba_remove [keeps_samba]: "util_remove pf p w = (st, w') \<Longrightarrow> w_samba w' = w_samba w"
  by (auto simp: util_remove_def split: prod.splits)

lemma w_samba_rename [keeps_samba]: "util_rename pf s d w = (st, w') \<Longrightarrow> w_samba w' = w_samba w"
  by (auto simp: util_rename_def split: prod.splits)

lemma touch_present: "omap_find d m \<noteq> None \<Longrightarrow> omap_touch d m = m"
  by (auto simp: omap_touch_def)

lemma fold_touch_present: "\<forall>d \<in> set ds. omap_find d m \<noteq> None \<Longrightarrow> fold omap_touch ds m = m"
  by (induction ds) (auto simp: touch_present)

lemma samba_view_browse:
  "upnp_browse env d path n = (r, n') \<Longrightarrow> samba_view n' = samba_view n"
  by (auto simp: upnp_browse_def samba_view_def Let_def split: prod.splits option.splits)

lemma samba_view_server: "samba_view (record_server pf sid j n) = samba_view n"
  by (simp add: record_server_def generateUniqueUpnpDriveId_def samba_view_def Let_def)

lemma samba_view_servers: "samba_view (snd (record_servers pf sid urls acc n)) = samba_view n"
  by (induction pf sid urls acc n rule: record_servers.induct)
     (auto simp: samba_view_server split: option.splits)

lemma own_drives_found: "omap_ok m \<Longrightarrow> d \<in> set (own_drives sid m) \<Longrightarrow> omap_find d m = Some sid"
  by (auto simp: own_drives_def om.entries_find)

section \<open>Mounting and ejecting\<close>

lemma unat_suc_32: "unat (x :: 32 word) < 2 ^ 32 - 1 \<Longrightarrow> unat (x + 1) = unat x + 1"
  by (simp add: unat_word_ariths)

lemma samba_ok_put:
  assumes "samba_ok s p m c" "unat (c + 1) = unat c + 1"
  shows "samba_ok (omap_put (samba_drive_id (unat (c + 1))) sid s)
           (omap_put (samba_drive_id (unat (c + 1))) path p)
           (omap_put (samba_drive_id (unat (c + 1))) path p) (c + 1)"
proof -
  let ?i = "samba_drive_id (unat (c + 1))"
  from assms(1) have s: "omap_ok s" "omap_ok p"
    and d: "(omap_find d s = None) = (omap_find d p = None)"
    and k: "omap_find d s = None \<or> (\<exists>k. 1 \<le> k \<and> k \<le> unat c \<and> d = samba_drive_id k)" for d
    unfolding samba_ok_def by blast+
  have "omap_find d (omap_put ?i sid s) = None
      \<or> (\<exists>k. 1 \<le> k \<and> k \<le> unat (c + 1) \<and> d = samba_drive_id k)" for d
  proof (cases "d = ?i")
    case True
    then show ?thesis using assms(2) by (intro disjI2 exI [of _ "unat (c + 1)"]) simp
  next
    case False
    then show ?thesis using k [of d] le_trans [of _ "unat c" "unat (c + 1)"] assms(2)
      by (auto simp: om.find_put)
  qed
  then show ?thesis
    unfolding samba_ok_def using s d by (auto simp: om.ok_put om.find_put simp del: not_None_eq)
qed

lemma samba_ok_erase:
  assumes "samba_ok s p m c"
  shows "samba_ok (omap_erase d s) (omap_erase d p) (omap_erase d p) c"
  using assms unfolding samba_ok_def by (auto simp: om.ok_erase om.find_erase)

lemma samba_ok_paths: "samba_ok s p m c \<Longrightarrow> omap_ok p"
  by (simp add: samba_ok_def)

lemma samba_inv_mount:
  assumes "samba_inv n" "unat (samba_id n) < 2 ^ 32 - 1"
  shows "samba_inv (record_mount key path sid n)"
proof -
  have ok: "samba_ok (omap_put (samba_drive_id (unat (samba_id n + 1))) sid (mSambaSessionData n))
     (omap_put (samba_drive_id (unat (samba_id n + 1))) path (mSambaPathMap n))
     (omap_put (samba_drive_id (unat (samba_id n + 1))) path (mSambaPathMap n)) (samba_id n + 1)"
    using assms(1) unat_suc_32 [OF assms(2)] unfolding samba_inv_def by (rule samba_ok_put)
  from samba_ok_paths [OF this] ok show ?thesis
    by (simp add: samba_inv_def record_mount_def generateUniqueSambaDriveId_def setDriveDetails_def
        samba_drive_id_def Let_def)
qed

lemma samba_inv_forget:
  assumes "samba_inv n"
  shows "samba_inv (forget_mount d path w n)"
proof -
  have ok: "samba_ok (omap_erase d (mSambaSessionData n)) (omap_erase d (mSambaPathMap n))
          (omap_erase d (mSambaPathMap n)) (samba_id n)"
    using assms unfolding samba_inv_def by (rule samba_ok_erase)
  from samba_ok_paths [OF this] ok show ?thesis
    by (simp add: samba_inv_def forget_mount_def setDriveDetails_def Let_def)
qed

section \<open>Every request keeps the invariant\<close>

text \<open>Steps that only change what the invariant does not look at.\<close>

lemma samba_inv_world: "w_samba w' = w_samba (n_world n) \<Longrightarrow> samba_inv (n\<lparr>n_world := w'\<rparr>) = samba_inv n"
  by (simp add: samba_inv_def)

lemma samba_inv_other [simp]:
  "samba_inv (n\<lparr>mSambaDriveMap := x\<rparr>) = samba_inv n" "samba_inv (n\<lparr>n_time := t\<rparr>) = samba_inv n"
  "samba_inv (n\<lparr>n_upnp := u\<rparr>) = samba_inv n" "samba_inv (n\<lparr>mUpnpPathMap := x\<rparr>) = samba_inv n"
  by (simp_all add: samba_inv_def)

lemma samba_session_path:
  "samba_inv n \<Longrightarrow> validateSambaOperation d sid n \<Longrightarrow> omap_find d (mSambaPathMap n) \<noteq> None"
  unfolding samba_inv_def samba_ok_def validateSambaOperation_def
  by (metis option.distinct(1))

lemma samba_inv_mountSambaServer:
  assumes "samba_inv n" "unat (samba_id n) < 2 ^ 32 - 1" "mountSambaServer env rd n = Some (es, n')"
  shows "samba_inv n'"
  using assms
  by (auto simp: mountSambaServer_def mount_share_def getTimestamp_def Let_def samba_inv_world
      dest!: w_samba_popen intro!: samba_inv_mount split: if_splits prod.splits bool.splits option.splits)

lemma samba_inv_discover:
  assumes "samba_inv n" "discoverUPnPMediaServer env rd n = Some (es, n')"
  shows "samba_inv n'"
proof -
  let ?n = "n\<lparr>n_upnp := startScan env (n_upnp n)\<rparr>"
  show ?thesis
  proof (cases "getScannedDevices (n_upnp ?n)")
    case None
    with assms(2) show ?thesis by (simp add: discoverUPnPMediaServer_def)
  next
    case (Some devs)
    obtain r n1 where r: "record_servers env (sessionId rd) devs [] ?n = (r, n1)" by fastforce
    with assms(2) Some have "n' = n1"
      by (cases r) (simp_all add: discoverUPnPMediaServer_def Let_def)
    moreover have "samba_view n1 = samba_view ?n"
      using samba_view_servers [of env "sessionId rd" devs "[]" ?n] r by simp
    ultimately show ?thesis using assms(1) samba_inv_view [of n1 ?n] by simp
  qed
qed

lemma samba_inv_extra:
  assumes "samba_inv n" "unat (samba_id n) < 2 ^ 32 - 1" "extraMethod env rd n = Some (es, n')"
  shows "samba_inv n'"
  using assms samba_inv_mountSambaServer samba_inv_discover
  by (auto simp: extraMethod_def Let_def split: if_splits)

lemma samba_inv_browse: "upnp_browse env d path n = (r, n') \<Longrightarrow> samba_inv n \<Longrightarrow> samba_inv n'"
  by (drule samba_view_browse) (rule samba_inv_view)

lemma samba_inv_list:
  assumes "samba_inv n" "network_list env rd n = Some (es, n')"
  shows "samba_inv n'"
  using assms
  by (auto simp: network_list_def network_list_samba_def network_list_upnp_def Let_def
      intro: samba_inv_browse split: if_splits option.splits prod.splits)

lemma samba_touch:
  "samba_inv n \<Longrightarrow> validateSambaOperation d sid n \<Longrightarrow>
   n\<lparr>mSambaPathMap := omap_touch d (mSambaPathMap n)\<rparr> = n"
  by (simp add: touch_present samba_session_path)

lemma samba_inv_properties:
  assumes "samba_inv n" "network_getProperties env rd n = Some (es, n')"
  shows "samba_inv n'"
  using assms
  by (auto simp: network_getProperties_def upnp_properties_def samba_properties_def Let_def samba_touch
      intro: samba_inv_browse split: if_splits option.splits prod.splits)

lemma samba_inv_file_ops:
  assumes "samba_inv n"
  shows "network_copy env rd n = Some (es, n') \<Longrightarrow> samba_inv n'"
    "network_move env rd n = Some (es, n') \<Longrightarrow> samba_inv n'"
    "network_remove env rd n = Some (es, n') \<Longrightarrow> samba_inv n'"
    "network_rename env rd n = Some (es, n') \<Longrightarrow> samba_inv n'"
  using assms
  by (auto simp: network_copy_def network_move_def network_remove_def network_rename_def handler_simps
      samba_inv_world dest: keeps_samba split: if_splits option.splits prod.splits)

lemma samba_inv_storages:
  assumes "samba_inv n" "network_listStoragesMethod env rd n = Some (es, n')"
  shows "samba_inv n'"
proof -
  have "fold omap_touch (own_drives (sessionId rd) (mSambaSessionData n)) (mSambaPathMap n) = mSambaPathMap n"
  proof (rule fold_touch_present, intro ballI)
    fix d assume "d \<in> set (own_drives (sessionId rd) (mSambaSessionData n))"
    then have "omap_find d (mSambaSessionData n) = Some (sessionId rd)"
      using assms(1) by (intro own_drives_found) (auto simp: samba_inv_def samba_ok_def)
    then show "omap_find d (mSambaPathMap n) \<noteq> None"
      using samba_session_path [OF assms(1)] by (simp add: validateSambaOperation_def)
  qed
  with assms show ?thesis by (auto simp: network_listStoragesMethod_def Let_def)
qed

lemma samba_inv_forget_share [simp]: "samba_inv (forget_share d n) = samba_inv n"
  by (simp add: forget_share_def split: option.splits)

lemma samba_inv_eject:
  assumes "samba_inv n" "network_eject env rd n = Some (es, n')"
  shows "samba_inv n'"
  using assms
  by (auto simp: network_eject_def Let_def intro!: samba_inv_forget
      split: if_splits option.splits prod.splits)

text \<open>
  Every request keeps the Samba tables in step, errors and failing mounts included: the same
  drives have a session and a mount point, the table SAFUtilityOperation validates paths with is
  the table of mount points, and every drive id was issued by the counter (until it has issued
  2^32 - 1 ids).
\<close>

theorem samba_tables_in_step:
  assumes "samba_inv n" "unat (samba_id n) < 2 ^ 32 - 1"
    and "network_handleRequests env rd n = Some (es, n')"
  shows "samba_inv n'"
proof (cases "methodType rd")
  case EXTRA_METHOD
  with assms show ?thesis by (intro samba_inv_extra [OF assms(1,2)]) (simp add: network_handleRequests_def)
next
  case LIST_METHOD
  with assms show ?thesis by (intro samba_inv_list [OF assms(1)]) (simp add: network_handleRequests_def)
next
  case GET_PROP_METHOD
  with assms show ?thesis by (intro samba_inv_properties [OF assms(1)]) (simp add: network_handleRequests_def)
next
  case LIST_STORAGES_METHOD
  with assms show ?thesis by (intro samba_inv_storages [OF assms(1)]) (simp add: network_handleRequests_def)
next
  case EJECT_METHOD
  with assms show ?thesis by (intro samba_inv_eject [OF assms(1)]) (simp add: network_handleRequests_def)
qed (use assms samba_inv_file_ops [OF assms(1)] in \<open>auto simp: network_handleRequests_def\<close>)

definition mount_request :: request_data where
  "mount_request = sample_request EXTRA_METHOD
     (JObj [(''operation'', JObj [(''type'', JStr ''mountSambaServer''),
        (''payload'', JObj [(''ip'', JStr ''10.0.0.2''), (''sharePath'', JStr ''music''),
           (''userName'', JStr ''bob''), (''password'', JStr ''pw''), (''securityMode'', JStr ''ntlm'')])])])"

theorem samba_tables_in_step_witness:
  "samba_inv (snd (the (network_handleRequests calm_env mount_request (net_init empty_world))))"
proof -
  have "\<exists>es n'. network_handleRequests calm_env mount_request (net_init empty_world) = Some (es, n')"
    using network_supported [of mount_request calm_env "net_init empty_world"]
    by (auto simp: mount_request_def sample_request_def network_methods_def upnp_request_def jget_def)
  then show ?thesis
    using samba_tables_in_step [OF samba_inv_init [of empty_world], of calm_env mount_request]
    by (auto simp: net_init_def empty_world_def)
qed

section \<open>What a mount and an eject do\<close>

text \<open>The parameters of a mount request that are all there.\<close>

definition mount_params :: "'a pbn_scheme \<Rightarrow> request_data \<Rightarrow> string \<Rightarrow> string \<Rightarrow> string \<Rightarrow> bool" where
  "mount_params pf rd ip userName sharePath \<longleftrightarrow>
     list_all (hasKey (op_payload rd)) [''userName'', ''password'', ''securityMode'']
     \<and> asString pf (jget (op_payload rd) ''ip'') = ip
     \<and> asString pf (jget (op_payload rd) ''userName'') = userName
     \<and> asString pf (jget (op_payload rd) ''sharePath'') = sharePath"

lemma samba_id_fresh:
  assumes "samba_inv n" "unat (samba_id n) < 2 ^ 32 - 1"
  shows "omap_find (samba_drive_id (unat (samba_id n + 1))) (mSambaSessionData n) = None"
  using assms unat_suc_32 [OF assms(2)]
  unfolding samba_inv_def samba_ok_def samba_drive_id_def by fastforce

text \<open>
  C28: A mount whose shell command and mount call succeed, of a share that is not mounted and on a
  mount point that is new, with fewer than 2^32 - 1 ids given out before: the share gets a drive id
  no other drive has, bound to the requesting session and to the new mount point, in the provider's
  tables and in the one copies are checked with; the share is recorded as mounted and the reply
  holds the mount point. In each of these tables every other entry, of every other drive, share and
  mount point, is as it was, and so are all tables of media servers.
\<close>

theorem samba_mount_success:
  assumes inv: "samba_inv n" "unat (samba_id n) < 2 ^ 32 - 1"
    and p: "mount_params env rd ip userName sharePath"
    and key: "omap_find (samba_key ip userName sharePath) (mSambaDriveMap n) = None"
    and path: "path = ''/tmp/'' @ ip @ ''_'' @ timestamp env (n_time n)"
      "omap_find path (mntpathmap n) = None"
    and sys: "popen_cmd env (''mkdir -p '' @ path) (w_fs (n_world n)) = Some fs1"
      "\<And>data. mount_cifs env (''//'' @ ip @ ''/'' @ userName) path data fs1 = Some fs2"
    and d: "d = samba_drive_id (unat (samba_id n + 1))"
  shows "\<exists>n'. mountSambaServer env rd n = Some ([Reply rd (mount_reply env rd path)], n')
     \<and> omap_find d (mSambaSessionData n) = None
     \<and> validateSambaOperation d (sessionId rd) n'
     \<and> omap_find d (mSambaPathMap n') = Some path
     \<and> omap_find d (w_samba (n_world n')) = Some path
     \<and> omap_find (samba_key ip userName sharePath) (mSambaDriveMap n') = Some d
     \<and> (\<forall>d'. d' \<noteq> d \<longrightarrow> omap_find d' (mSambaSessionData n') = omap_find d' (mSambaSessionData n)
            \<and> omap_find d' (mSambaPathMap n') = omap_find d' (mSambaPathMap n)
            \<and> omap_find d' (w_samba (n_world n')) = omap_find d' (w_samba (n_world n)))
     \<and> (\<forall>k. k \<noteq> samba_key ip userName sharePath \<longrightarrow> omap_find k (mSambaDriveMap n') = omap_find k (mSambaDriveMap n))
     \<and> (\<forall>p. p \<noteq> path \<longrightarrow> omap_find p (mntpathmap n') = omap_find p (mntpathmap n))
     \<and> mUpnpDriveMap n' = mUpnpDriveMap n \<and> mUpnpSessionData n' = mUpnpSessionData n
     \<and> mUpnpPathMap n' = mUpnpPathMap n \<and> n_upnp n' = n_upnp n"
proof -
  have tabs: "omap_ok (mSambaPathMap n)" "w_samba (n_world n) = mSambaPathMap n"
    using inv(1) by (simp_all add: samba_inv_def samba_ok_def)
  have k: "hasKey (op_payload rd) ''userName''" "hasKey (op_payload rd) ''password''"
    "hasKey (op_payload rd) ''securityMode''" "asString env (jget (op_payload rd) ''ip'') = ip"
    "asString env (jget (op_payload rd) ''userName'') = userName"
    "asString env (jget (op_payload rd) ''sharePath'') = sharePath"
    using p by (simp_all add: mount_params_def)
  show ?thesis
    using key path sys samba_id_fresh [OF inv]
    by (simp add: mountSambaServer_def Let_def k getTimestamp_def mount_share_def run_popen_def d
        record_mount_def generateUniqueSambaDriveId_def validateSambaOperation_def om.find_put
        samba_drive_id_def setDriveDetails_def om.ok_put tabs)
qed

theorem samba_mount_success_witness:
  "\<exists>n'. mountSambaServer calm_env mount_request (net_init empty_world) =
        Some ([Reply mount_request (mount_reply calm_env mount_request ''/tmp/10.0.0.2_0'')], n')
     \<and> validateSambaOperation ''SAMBA_1'' ''root'' n'"
  using samba_mount_success [OF samba_inv_init [of empty_world], of calm_env mount_request "''10.0.0.2''"
      "''bob''" "''music''" "''/tmp/10.0.0.2_0''" "[]" "[]" "''SAMBA_1''"]
  by (auto simp: net_init_def empty_world_def mount_params_def mount_request_def sample_request_def
      op_payload_def jget_def hasKey_def calm_env_def omap_find_def samba_drive_id_def)

text \<open>
  A share that is recorded as mounted is not mounted again: the request is refused before
  any directory is made or any mount is tried.
\<close>

theorem samba_already_mounted:
  assumes "mount_params env rd ip userName sharePath"
    and "omap_find (samba_key ip userName sharePath) (mSambaDriveMap n) \<noteq> None"
  shows "mountSambaServer env rd n =
     Some ([Reply rd (refuse ''error'' ''Already Mounted '')], n\<lparr>n_time := n_time n + 1\<rparr>)"
  using assms by (auto simp: mountSambaServer_def mount_params_def Let_def getTimestamp_def)

theorem samba_already_mounted_witness:
  "mountSambaServer calm_env mount_request one_share =
     Some ([Reply mount_request (refuse ''error'' ''Already Mounted '')], one_share\<lparr>n_time := 1\<rparr>)"
proof -
  have t: "n_time one_share = 0"
    by (simp add: one_share_def record_mount_def net_init_def generateUniqueSambaDriveId_def Let_def)
  show ?thesis
    using samba_already_mounted [of calm_env mount_request "''10.0.0.2''" "''bob''" "''music''" one_share]
    by (simp add: t one_share_simps mount_params_def mount_request_def sample_request_def op_payload_def
        jget_def hasKey_def samba_key_def omap_find_def)
qed

text \<open>
  An eject whose unmount succeeds removes the drive from the tables: its session and its
  mount point are gone, also from the table paths are validated with, and what was below the
  mount point is removed as InternalRemove removes it; the other drives stay.
\<close>

theorem samba_eject_success:
  assumes inv: "samba_inv n" and driveId: "asString env (jget (params rd) ''driveId'') = d"
    and own: "validateSambaOperation d (sessionId rd) n"
    and path: "omap_find d (mSambaPathMap n) = Some path"
    and um: "umount_force env path (w_fs (n_world n)) = Some fs1"
  shows "\<exists>rd' n'. network_eject env rd n = Some ([Reply rd' (params rd')], n')
     \<and> params rd' = jput ''response'' (jputs [(''returnValue'', JBool True), (''unmountPath: '', JStr d)] jobject)
                      (params rd)
     \<and> mSambaSessionData n' = omap_erase d (mSambaSessionData n)
     \<and> w_samba (n_world n') = omap_erase d (mSambaPathMap n)
     \<and> w_fs (n_world n') = snd (internalRemove env path fs1)"
proof -
  have s: "mSambaPathMap (forget_share d n) = mSambaPathMap n"
    "mSambaSessionData (forget_share d n) = mSambaSessionData n"
    "n_world (forget_share d n) = n_world n"
    by (simp_all add: forget_share_def split: option.splits)
  have ok: "omap_ok (omap_erase d (mSambaPathMap n))"
    using inv by (simp add: samba_inv_def samba_ok_def om.ok_erase)
  show ?thesis using own path um ok
    by (simp add: network_eject_def driveId Let_def s network_response_def forget_mount_def
        setDriveDetails_def util_remove_def split: prod.splits)
qed

theorem samba_eject_success_witness:
  "\<exists>rd' n'. network_eject calm_env
       (sample_request EJECT_METHOD (JObj [(''driveId'', JStr ''SAMBA_1'')])) one_share
       = Some ([Reply rd' (params rd')], n')
     \<and> mSambaSessionData n' = omap_erase ''SAMBA_1'' (mSambaSessionData one_share)"
proof -
  have "samba_inv one_share"
    unfolding one_share_def
    by (rule samba_inv_mount, rule samba_inv_init, simp add: empty_world_def, simp add: net_init_def)
  then show ?thesis
    using samba_eject_success [of one_share calm_env
        "sample_request EJECT_METHOD (JObj [(''driveId'', JStr ''SAMBA_1'')])" "''SAMBA_1''"
        "''/tmp/10.0.0.2_0''" "w_fs (n_world one_share)"] one_share_simps
    by (fastforce simp: sample_request_def jget_def validateSambaOperation_def calm_env_def)
qed

text \<open>
  An eject whose unmount fails is not undone: the share is no longer recorded as mounted,
  so it can be mounted a second time, while the drive keeps its session and its mount point.
\<close>

theorem samba_eject_failure_forgets_share:
  assumes "asString env (jget (params rd) ''driveId'') = d" "validateSambaOperation d (sessionId rd) n"
    and "omap_find d (mSambaPathMap n) = Some path" "umount_force env path (w_fs (n_world n)) = None"
    and "find (\<lambda>e. snd e = d) (mSambaDriveMap n) = Some (key, d)"
  shows "\<exists>rd' n'. network_eject env rd n = Some ([Reply rd' (params rd')], n')
     \<and> mSambaDriveMap n' = omap_erase key (mSambaDriveMap n) \<and> validateSambaOperation d (sessionId rd) n'
     \<and> omap_find d (mSambaPathMap n') = Some path"
  using assms
  by (simp add: network_eject_def forget_share_def validateSambaOperation_def Let_def)

theorem samba_eject_failure_forgets_share_witness:
  "\<exists>rd' n'. network_eject (calm_env\<lparr>umount_force := (\<lambda>p fs. None)\<rparr>)
       (sample_request EJECT_METHOD (JObj [(''driveId'', JStr ''SAMBA_1'')])) one_share
       = Some ([Reply rd' (params rd')], n') \<and> mSambaDriveMap n' = []"
  using samba_eject_failure_forgets_share [of "calm_env\<lparr>umount_force := (\<lambda>p fs. None)\<rparr>"
      "sample_request EJECT_METHOD (JObj [(''driveId'', JStr ''SAMBA_1'')])" "''SAMBA_1''" one_share
      "''/tmp/10.0.0.2_0''" "''10.0.0.2_bob_music''"] one_share_simps
  by (fastforce simp: sample_request_def jget_def validateSambaOperation_def omap_erase_def)

section \<open>In every reachable state\<close>

text \<open>A request issues at most one drive id.\<close>

definition id_step :: "net_state \<Rightarrow> net_state \<Rightarrow> bool" where
  "id_step n n' \<longleftrightarrow> samba_id n' = samba_id n \<or> samba_id n' = samba_id n + 1"

lemma id_step_refl [simp]: "samba_id n' = samba_id n \<Longrightarrow> id_step n n'"
  by (simp add: id_step_def)

lemma samba_id_browse: "upnp_browse env d path n = (r, n') \<Longrightarrow> samba_id n' = samba_id n"
  by (drule samba_view_browse) (simp add: samba_view_def)

lemma samba_id_servers: "samba_id (snd (record_servers pf sid urls acc n)) = samba_id n"
  using samba_view_servers [of pf sid urls acc n] by (simp add: samba_view_def)

lemma samba_id_forget_share [simp]: "samba_id (forget_share d n) = samba_id n"
  by (simp add: forget_share_def split: option.splits)

lemma id_step_mount: "mountSambaServer env rd n = Some (es, n') \<Longrightarrow> id_step n n'"
  by (auto simp: mountSambaServer_def mount_share_def getTimestamp_def record_mount_def
      generateUniqueSambaDriveId_def id_step_def Let_def split: if_splits prod.splits bool.splits option.splits)

lemma id_step_discover: "discoverUPnPMediaServer env rd n = Some (es, n') \<Longrightarrow> id_step n n'"
  using samba_id_servers [of env "sessionId rd" _ "[]" "n\<lparr>n_upnp := startScan env (n_upnp n)\<rparr>"]
  by (auto simp: discoverUPnPMediaServer_def Let_def split: option.splits prod.splits) (metis id_step_refl snd_conv)+

lemma id_step_handle:
  assumes "network_handleRequests env rd n = Some (es, n')"
  shows "id_step n n'"
proof (cases "methodType rd")
  case EXTRA_METHOD
  with assms id_step_mount id_step_discover show ?thesis
    by (auto simp: network_handleRequests_def extraMethod_def Let_def split: if_splits)
next
  case LIST_METHOD
  with assms show ?thesis
    by (auto simp: network_handleRequests_def network_list_def network_list_samba_def network_list_upnp_def Let_def
        dest: samba_id_browse split: if_splits option.splits prod.splits)
next
  case GET_PROP_METHOD
  with assms show ?thesis
    by (auto simp: network_handleRequests_def network_getProperties_def upnp_properties_def samba_properties_def
        Let_def dest: samba_id_browse split: if_splits option.splits prod.splits)
next
  case LIST_STORAGES_METHOD
  with assms show ?thesis by (auto simp: network_handleRequests_def network_listStoragesMethod_def Let_def)
next
  case EJECT_METHOD
  with assms show ?thesis
    by (auto simp: network_handleRequests_def network_eject_def forget_mount_def Let_def
        split: if_splits option.splits prod.splits)
qed (use assms in \<open>auto simp: network_handleRequests_def network_copy_def network_move_def network_remove_def
      network_rename_def handler_simps split: if_splits option.splits prod.splits\<close>)

lemma id_step_unat: "id_step n n' \<Longrightarrow> unat (samba_id n') \<le> unat (samba_id n) + 1"
  by (auto simp: id_step_def unat_word_ariths)

lemma samba_inv_run:
  "\<lbrakk>run_all (network_handleRequests env) rds n = Some (es, n'); samba_inv n;
    unat (samba_id n) + length rds < 2 ^ 32\<rbrakk> \<Longrightarrow> samba_inv n'"
proof (induction rds arbitrary: n es)
  case (Cons rd rds)
  from Cons.prems(1) obtain e1 n1 e2 where h: "network_handleRequests env rd n = Some (e1, n1)"
    "run_all (network_handleRequests env) rds n1 = Some (e2, n')"
    by (auto split: option.splits prod.splits)
  have "samba_inv n1" using samba_tables_in_step [OF Cons.prems(2) _ h(1)] Cons.prems(3) by simp
  with Cons.IH [OF h(2)] id_step_unat [OF id_step_handle [OF h(1)]] Cons.prems(3) show ?case by simp
qed simp

text \<open>
  In every state the network provider can reach with fewer than 2^32 requests, whatever they
  are and however they end, the Samba tables are in step: the same drives have a session and a mount
  point, the table SAFUtilityOperation validates paths with is the table of mount points, and every
  drive id was issued by the counter.
\<close>

theorem samba_tables_reachable:
  assumes "disp_reach (network_handleRequests env) (net_init w) d" "w_samba w = []"
    and "length (submitted d) < 2 ^ 32"
  shows "samba_inv (mState d)"
proof -
  obtain dn where dn: "submitted d = dn @ in_flight d @ mQueue d"
    "run_all (network_handleRequests env) dn (net_init w) = Some (emitted d, mState d)"
    using disp_inv_reach [OF assms(1)] by (auto simp: disp_inv_def)
  have "unat (samba_id (net_init w)) + length dn < 2 ^ 32" using dn(1) assms(3) by (simp add: net_init_def)
  with samba_inv_run [OF dn(2) samba_inv_init [OF assms(2)]] show ?thesis by blast
qed

text \<open>A mount that was queued and handled.\<close>

theorem samba_tables_reachable_witness:
  "\<exists>d. disp_reach (network_handleRequests calm_env) (net_init empty_world) d \<and> emitted d \<noteq> [] \<and> samba_inv (mState d)"
proof -
  have "network_methods (methodType mount_request) \<and> \<not> upnp_request calm_env mount_request"
    by (simp add: mount_request_def sample_request_def network_methods_def upnp_request_def jget_def)
  from network_supported [OF this, of "net_init empty_world"]
  obtain es n where h: "network_handleRequests calm_env mount_request (net_init empty_world) = Some (es, n)" "es \<noteq> []"
    by blast
  obtain d where d: "disp_reach (network_handleRequests calm_env) (net_init empty_world) d"
    "submitted d = [mount_request]" "emitted d = es"
    using reach_handled [of "network_handleRequests calm_env", OF h(1)] by blast
  have "samba_inv (mState d)" using samba_tables_reachable [OF d(1)] d(2) by (simp add: empty_world_def)
  with d h(2) show ?thesis by blast
qed

end
