(* ===== verification/Saf_GDrive.thy ===== *)
theory Saf_GDrive
  imports Saf_Replies "HOL-Library.Signed_Division"
begin

text \<open>
  GDriveProvider and GDriveOperation: the cloud drives, each bound to the client id it was made
  for and to the session that made it, the cache of file ids of a drive, and the methods. The
  Google Drive library is a parameter: what its k-th call gives, and what it does to the map of
  the credential, which it may refresh at any time. The methods run in a std::async whose future
  is dropped, so an exception of the library ends the request: the replies already sent stand,
  and no other comes.
\<close>

section \<open>The library\<close>

record gfile =
  g_id :: string
  g_title :: string
  g_mimeType :: string
  g_fileSize :: "64 word"
  g_downloadUrl :: string
  g_exportLinks :: "(string, string) omap"

datatype g_request =
    Children_Listall string                       \<comment> \<open>id of a folder\<close>
  | Files_Get string string                       \<comment> \<open>id, added fields\<close>
  | About_Get
  | Files_Copy string string "string option"      \<comment> \<open>id, id of the new parent, new title\<close>
  | Files_Insert string string string string      \<comment> \<open>id of the parent, title, MIME type, content\<close>
  | Files_Delete string
  | Files_Patch string string                     \<comment> \<open>id, new title\<close>
  | Download string                               \<comment> \<open>a GET of this address with the credential\<close>
  | Build_Credential string string string         \<comment> \<open>client id, client secret, code\<close>

datatype g_answer =
    Ids "string list"
  | AFile gfile
  | Quota "64 word" "64 word"                     \<comment> \<open>quotaBytesTotal, quotaBytesUsed\<close>
  | Done
  | Content string
  | Built bool

text \<open>None is an exception; so is an answer that is not of the type of the request's result.\<close>

record cloud_env = platform +
  g_call :: "nat \<Rightarrow> g_request \<Rightarrow> (string, string) omap \<Rightarrow> g_answer option \<times> (string, string) omap"
  authorize_url :: "string \<Rightarrow> string \<Rightarrow> string"   \<comment> \<open>OAuth::get_authorize_url\<close>

section \<open>State\<close>

text \<open>GDriveUserData; \<open>mCred\<close> says whether the credential pointer is set.\<close>

record cloud_user =
  mFileIds :: "(string, string) omap"
  mAuthParam :: "(string, string) omap"
  mCred :: bool

record cloud_state =
  mDriveIdUserDataMap :: "(string, cloud_user) omap"
  mDriveIdSessionMap :: "(string, string) omap"
  mClientIdDriveId :: "(string, string) omap"
  drive_seq :: "32 word"                        \<comment> \<open>the static counter of generateDriveId\<close>
  g_calls :: nat
  c_world :: world

definition cloud_init :: "world \<Rightarrow> cloud_state" where
  "cloud_init w =
     \<lparr>mDriveIdUserDataMap = [], mDriveIdSessionMap = [], mClientIdDriveId = [], drive_seq = 0,
      g_calls = 0, c_world = w\<rparr>"

definition GDRIVE_NAME :: string where
  "GDRIVE_NAME = ''GDRIVE''"

definition generateDriveId :: "cloud_state \<Rightarrow> string \<times> cloud_state" where
  "generateDriveId s =
     (GDRIVE_NAME @ ''_'' @ int_str (sint (drive_seq s + 1)), s\<lparr>drive_seq := drive_seq s + 1\<rparr>)"

text \<open>The user data a reference into the map stands for, and an update through it.\<close>

definition no_user :: cloud_user where
  "no_user = \<lparr>mFileIds = [], mAuthParam = [], mCred = False\<rparr>"

definition user_of :: "string \<Rightarrow> cloud_state \<Rightarrow> cloud_user" where
  "user_of d s = (case omap_find d (mDriveIdUserDataMap s) of Some u \<Rightarrow> u | None \<Rightarrow> no_user)"

definition set_user :: "string \<Rightarrow> cloud_user \<Rightarrow> cloud_state \<Rightarrow> cloud_state" where
  "set_user d u s = s\<lparr>mDriveIdUserDataMap := omap_put d u (mDriveIdUserDataMap s)\<rparr>"

section \<open>Calls of the library\<close>

text \<open>
  A call with the credential of a drive. Without a credential it would go through a null
  pointer: no answer.
\<close>

definition lib_call ::
  "'a cloud_env_scheme \<Rightarrow> string \<Rightarrow> g_request \<Rightarrow> cloud_state \<Rightarrow> g_answer option \<times> cloud_state" where
  "lib_call env d req s =
     (let u = user_of d s
      in if \<not> mCred u then (None, s)
         else (let (a, auth) = g_call env (g_calls s) req (mAuthParam u)
               in (a, set_user d (u\<lparr>mAuthParam := auth\<rparr>) (s\<lparr>g_calls := g_calls s + 1\<rparr>))))"

definition call_ids ::
  "'a cloud_env_scheme \<Rightarrow> string \<Rightarrow> g_request \<Rightarrow> cloud_state \<Rightarrow> string list option \<times> cloud_state" where
  "call_ids env d req s =
     (case lib_call env d req s of (Some (Ids xs), s') \<Rightarrow> (Some xs, s') | (_, s') \<Rightarrow> (None, s'))"

definition call_file ::
  "'a cloud_env_scheme \<Rightarrow> string \<Rightarrow> g_request \<Rightarrow> cloud_state \<Rightarrow> gfile option \<times> cloud_state" where
  "call_file env d req s =
     (case lib_call env d req s of (Some (AFile f), s') \<Rightarrow> (Some f, s') | (_, s') \<Rightarrow> (None, s'))"

definition call_about ::
  "'a cloud_env_scheme \<Rightarrow> string \<Rightarrow> cloud_state \<Rightarrow> (64 word \<times> 64 word) option \<times> cloud_state" where
  "call_about env d s =
     (case lib_call env d About_Get s of (Some (Quota t u), s') \<Rightarrow> (Some (t, u), s') | (_, s') \<Rightarrow> (None, s'))"

definition call_done ::
  "'a cloud_env_scheme \<Rightarrow> string \<Rightarrow> g_request \<Rightarrow> cloud_state \<Rightarrow> unit option \<times> cloud_state" where
  "call_done env d req s =
     (case lib_call env d req s of (Some Done, s') \<Rightarrow> (Some (), s') | (_, s') \<Rightarrow> (None, s'))"

definition call_content ::
  "'a cloud_env_scheme \<Rightarrow> string \<Rightarrow> g_request \<Rightarrow> cloud_state \<Rightarrow> string option \<times> cloud_state" where
  "call_content env d req s =
     (case lib_call env d req s of (Some (Content c), s') \<Rightarrow> (Some c, s') | (_, s') \<Rightarrow> (None, s'))"

definition call_built ::
  "'a cloud_env_scheme \<Rightarrow> string \<Rightarrow> g_request \<Rightarrow> cloud_state \<Rightarrow> bool option \<times> cloud_state" where
  "call_built env d req s =
     (case lib_call env d req s of (Some (Built b), s') \<Rightarrow> (Some b, s') | (_, s') \<Rightarrow> (None, s'))"

type_synonym cloud_result = "(effect list \<times> cloud_state) option"

text \<open>Going on after a call, or ending the request with its exception.\<close>

definition attempt :: "'x option \<times> cloud_state \<Rightarrow> ('x \<Rightarrow> cloud_state \<Rightarrow> cloud_result) \<Rightarrow> cloud_result" where
  "attempt r k = (case r of (None, s) \<Rightarrow> Some ([], s) | (Some x, s) \<Rightarrow> k x s)"

section \<open>GDriveOperation\<close>

text \<open>
  getChildren with its recursion as a stack: a folder still to be listed below a path, or a child
  still to be looked up. A drive whose folders contain each other is walked forever. The flag
  is false when an exception ended the walk; the ids found so far stay.
\<close>

datatype drive_visit = Folder string string | Child string string

definition put_file_id :: "string \<Rightarrow> string \<Rightarrow> string \<Rightarrow> cloud_state \<Rightarrow> cloud_state" where
  "put_file_id d path i s =
     (let u = user_of d s in set_user d (u\<lparr>mFileIds := omap_put path i (mFileIds u)\<rparr>) s)"

partial_function (option) getChildren ::
  "'a cloud_env_scheme \<Rightarrow> string \<Rightarrow> drive_visit list \<Rightarrow> cloud_state \<Rightarrow> (bool \<times> cloud_state) option" where
  "getChildren env d todo s =
     (case todo of
        [] \<Rightarrow> Some (True, s)
      | Folder fileId parentPath # rest \<Rightarrow>
          (case call_ids env d (Children_Listall fileId) s of
             (None, s1) \<Rightarrow> Some (False, s1)
           | (Some childs, s1) \<Rightarrow> getChildren env d (map (\<lambda>c. Child c parentPath) childs @ rest) s1)
      | Child c parentPath # rest \<Rightarrow>
          (case call_file env d (Files_Get c ''id,title'') s of
             (None, s1) \<Rightarrow> Some (False, s1)
           | (Some f, s1) \<Rightarrow>
               getChildren env d (Folder (g_id f) (parentPath @ g_title f @ ''/'') # rest)
                 (put_file_id d (parentPath @ g_title f) (g_id f) s1)))"

definition loadFileIds ::
  "'a cloud_env_scheme \<Rightarrow> string \<Rightarrow> cloud_state \<Rightarrow> (bool \<times> cloud_state) option" where
  "loadFileIds env d s =
     getChildren env d [Folder ''root'' ''/'']
       (set_user d ((user_of d s)\<lparr>mFileIds := omap_put ''/'' ''root'' []\<rparr>) s)"

definition getFileId :: "cloud_user \<Rightarrow> string \<Rightarrow> string" where
  "getFileId u path = (case omap_find path (mFileIds u) of Some i \<Rightarrow> i | None \<Rightarrow> [])"

text \<open>
  getFileMap: the entries that contain the path, at its first place, with no slash further on
  than the character behind it.
\<close>

definition getFileMap :: "cloud_user \<Rightarrow> string \<Rightarrow> (string, string) omap" where
  "getFileMap u path =
     (if path = [] then mFileIds u
      else filter (\<lambda>e. fst e \<noteq> path
             \<and> (case str_find path (fst e) of
                  None \<Rightarrow> False
                | Some pos \<Rightarrow> CHR ''/'' \<notin> set (drop (pos + length path + 1) (fst e)))) (mFileIds u))"

section \<open>MIME types\<close>

definition mimetypesMap :: "(string \<times> string) list" where
  "mimetypesMap =
     [(''xls'', ''application/vnd.ms-excel''),
      (''xlsx'', ''application/vnd.openxmlformats-officedocument.spreadsheetml.sheet''),
      (''xml'', ''text/xml''), (''ods'', ''application/vnd.oasis.opendocument.spreadsheet''),
      (''csv'', ''text/plain''), (''tmpl'', ''text/plain''), (''pdf'', ''application/pdf''),
      (''php'', ''application/x-httpd-php''), (''jpg'', ''image/jpeg''), (''png'', ''image/png''),
      (''gif'', ''image/gif''), (''bmp'', ''image/bmp''), (''txt'', ''text/plain''),
      (''doc'', ''application/msword''), (''js'', ''text/js''),
      (''swf'', ''application/x-shockwave-flash''), (''mp3'', ''audio/mpeg''),
      (''zip'', ''application/zip''), (''rar'', ''application/rar''), (''tar'', ''application/tar''),
      (''arj'', ''application/arj''), (''cab'', ''application/cab''), (''html'', ''text/html''),
      (''htm'', ''text/html''), (''default'', ''application/octet-stream''),
      (''folder'', ''application/vnd.google-apps.folder'')]"

definition lower_chr :: "char \<Rightarrow> char" where
  "lower_chr c = (if 65 \<le> (of_char c :: nat) \<and> (of_char c :: nat) \<le> 90 then char_of ((of_char c :: nat) + 32) else c)"

text \<open>operator[] adds the empty string for an unknown type, which changes no later answer.\<close>

definition getMimeType :: "string \<Rightarrow> string" where
  "getMimeType fileType =
     (case map_of mimetypesMap (map lower_chr fileType) of Some m \<Rightarrow> m | None \<Rightarrow> [])"

definition gdrive_getFileType :: "string \<Rightarrow> string" where
  "gdrive_getFileType mimeType =
     (if str_contains ''folder'' mimeType then ''directory''
      else if mimeType \<noteq> [] then ''regular'' else ''unknown'')"

section \<open>The guards of the methods\<close>

definition cloud_error_reply :: "int \<Rightarrow> json" where
  "cloud_error_reply code = error_object code (getCloudErrorString code) jobject"

definition no_such_drive :: json where
  "no_such_drive =
     jputs [(''errorCode'', JNum (saf_code INVALID_PARAM)), (''errorText'', JStr ''Invalid DriveID'')] jobject"

text \<open>
  The drive is known, belongs to the session of the request, and is authenticated: None, or the
  error. The look-ups with operator[] leave entries behind.
\<close>

definition drive_guard :: "string \<Rightarrow> request_data \<Rightarrow> cloud_state \<Rightarrow> json option \<times> cloud_state" where
  "drive_guard d rd s =
     (if omap_find d (mDriveIdUserDataMap s) = None then (Some no_such_drive, s)
      else (let owner = omap_at d (mDriveIdSessionMap s);
                s1 = s\<lparr>mDriveIdSessionMap := omap_touch d (mDriveIdSessionMap s)\<rparr>
            in if owner \<noteq> sessionId rd
               then (Some (cloud_error_reply (saf_code STORAGE_TYPE_NOT_SUPPORTED)), s1)
               else (let u = user_of d s1;
                         s2 = set_user d (u\<lparr>mAuthParam := omap_touch ''refresh_token'' (mAuthParam u)\<rparr>) s1
                     in if omap_at ''refresh_token'' (mAuthParam u) = []
                        then (Some (cloud_error_reply (cloud_code AUTHENTICATION_NOT_DONE)), s2)
                        else (None, s2))))"

text \<open>The reply is sent, then the ids are loaded again; an exception there comes too late to matter.\<close>

definition answer_and_load ::
  "'a cloud_env_scheme \<Rightarrow> string \<Rightarrow> request_data \<Rightarrow> json \<Rightarrow> cloud_state \<Rightarrow> cloud_result" where
  "answer_and_load env d rd j s = map_option (\<lambda>(ok, s'). ([Reply rd j], s')) (loadFileIds env d s)"

section \<open>Login\<close>

definition payload_of :: "request_data \<Rightarrow> json" where
  "payload_of rd = jget (jget (params rd) ''operation'') ''payload''"

definition gdrive_validateExtraCommand :: "'a pbn_scheme \<Rightarrow> string list \<Rightarrow> request_data \<Rightarrow> bool" where
  "gdrive_validateExtraCommand pf extraParams rd =
     list_all (\<lambda>n. hasKey (payload_of rd) n \<and> asString pf (jget (payload_of rd) n) \<noteq> []) extraParams"

text \<open>The payload of a successful login or authentication.\<close>

definition payload_reply :: "'a pbn_scheme \<Rightarrow> request_data \<Rightarrow> string \<Rightarrow> json" where
  "payload_reply pf rd text =
     (let payloadObj = jput ''response'' (JStr text) jobject;
          responsePayObj = jputs [(''type'', JStr (asString pf (jget (jget (params rd) ''operation'') ''type''))),
                                  (''payload'', payloadObj)] jobject
      in jputs [(''returnValue'', JBool True), (''responsePayload'', jappend jarray responsePayObj)] jobject)"

definition attachCloud :: "'a cloud_env_scheme \<Rightarrow> request_data \<Rightarrow> cloud_state \<Rightarrow> cloud_result" where
  "attachCloud env rd s =
     (let clientId = asString env (jget (payload_of rd) ''clientId'');
          clientSecret = asString env (jget (payload_of rd) ''clientSecret'')
      in if omap_find clientId (mClientIdDriveId s) \<noteq> None
         then Some ([Reply rd (cloud_error_reply (cloud_code ALREADY_AUTHENTICATED))], s)
         else (let (driveId, s1) = generateDriveId s;
                   auth = omap_put ''client_secret'' clientSecret (omap_put ''client_id'' clientId []);
                   authURL = authorize_url env clientId clientSecret;
                   s2 = s1\<lparr>mClientIdDriveId := omap_put clientId driveId (mClientIdDriveId s1),
                           mDriveIdSessionMap := omap_put driveId (sessionId rd) (mDriveIdSessionMap s1)\<rparr>;
                   s3 = set_user driveId (no_user\<lparr>mAuthParam := auth\<rparr>) s2
               in Some ([Reply rd (if authURL = [] then cloud_error_reply (cloud_code INVALID_URL)
                                   else payload_reply env rd authURL)], s3)))"

text \<open>The code is exchanged for tokens, which the library writes into the map of the credential.\<close>

definition authenticateCloud :: "'a cloud_env_scheme \<Rightarrow> request_data \<Rightarrow> cloud_state \<Rightarrow> cloud_result" where
  "authenticateCloud env rd s =
     (let d = asString env (jget (params rd) ''driveId'')
      in if omap_find d (mDriveIdUserDataMap s) = None then Some ([Reply rd no_such_drive], s)
         else (let token = asString env (jget (payload_of rd) ''secretToken'');
                   u = user_of d s;
                   auth = omap_put ''access_token'' token (mAuthParam u);
                   auth' = omap_touch ''client_secret'' (omap_touch ''client_id'' auth);
                   s1 = set_user d (u\<lparr>mAuthParam := auth', mCred := True\<rparr>) s
               in if token = [] then Some ([Reply rd (cloud_error_reply (cloud_code INVALID_URL))], s1)
                  else attempt
                    (call_built env d (Build_Credential (omap_at ''client_id'' auth')
                       (omap_at ''client_secret'' auth') token) s1)
                    (\<lambda>built s2.
                       if built
                       then (let u2 = user_of d s2;
                                 refresh = omap_at ''refresh_token'' (mAuthParam u2);
                                 s3 = set_user d (u2\<lparr>mAuthParam := omap_touch ''refresh_token'' (mAuthParam u2)\<rparr>) s2
                             in answer_and_load env d rd (payload_reply env rd refresh) s3)
                       else Some ([Reply rd (cloud_error_reply (cloud_code INVALID_URL))], s2))))"

definition tokenCloud :: "'a cloud_env_scheme \<Rightarrow> request_data \<Rightarrow> cloud_state \<Rightarrow> cloud_result" where
  "tokenCloud env rd s =
     (let p = payload_of rd; clientId = asString env (jget p ''clientId'')
      in case omap_find clientId (mClientIdDriveId s) of
           None \<Rightarrow> Some ([Reply rd (cloud_error_reply (saf_code INVALID_PARAM))], s)
         | Some d \<Rightarrow>
             (let owner = omap_at d (mDriveIdSessionMap s);
                  s1 = s\<lparr>mDriveIdSessionMap := omap_touch d (mDriveIdSessionMap s)\<rparr>
              in if owner \<noteq> sessionId rd
                 then Some ([Reply rd (cloud_error_reply (saf_code STORAGE_TYPE_NOT_SUPPORTED))], s1)
                 else (let u = user_of d s1;
                           auth = omap_put ''refresh_token'' (asString env (jget p ''refreshToken''))
                                    (omap_put ''client_secret'' (asString env (jget p ''clientSecret''))
                                       (omap_put ''client_id'' clientId (mAuthParam u)))
                       in answer_and_load env d rd (jput ''returnValue'' (JBool True) jobject)
                            (set_user d (u\<lparr>mAuthParam := auth, mCred := True\<rparr>) s1))))"

definition gdrive_extraMethod :: "'a cloud_env_scheme \<Rightarrow> request_data \<Rightarrow> cloud_state \<Rightarrow> cloud_result" where
  "gdrive_extraMethod env rd s =
     (let type = asString env (jget (jget (params rd) ''operation'') ''type'')
      in if type = ''login'' \<and> gdrive_validateExtraCommand env [''clientId'', ''clientSecret''] rd
         then attachCloud env rd s
         else if type = ''authenticate'' \<and> gdrive_validateExtraCommand env [''secretToken''] rd
         then authenticateCloud env rd s
         else if type = ''token''
                 \<and> gdrive_validateExtraCommand env [''clientId'', ''clientSecret'', ''refreshToken''] rd
         then tokenCloud env rd s
         else Some ([Reply rd (cloud_error_reply (saf_code INVALID_PARAM))], s))"

section \<open>List and properties\<close>

text \<open>The loop over the map: the entries whose index is from start on and below end.\<close>

definition cloud_page :: "'c list \<Rightarrow> 32 word \<Rightarrow> 32 word \<Rightarrow> 'c list" where
  "cloud_page xs offset limit =
     (case page_bounds (length xs) offset limit of
        (start, end0) \<Rightarrow>
          map snd (filter (\<lambda>p. sint start \<le> fst p \<and> fst p < sint end0)
            (zip [0 .. int (length xs) - 1] xs)))"

text \<open>The size of an entry: what the account has in total less the size of the file, cast to int.\<close>

definition cloud_content_json :: "string \<Rightarrow> gfile \<Rightarrow> 64 word \<Rightarrow> json" where
  "cloud_content_json path f totalspace =
     jputs [(''path'', JStr path), (''name'', JStr (g_title f)), (''mimeType'', JStr (g_mimeType f)),
            (''type'', JStr (gdrive_getFileType (g_mimeType f))),
            (''size'', JNum (if g_fileSize f = -1 then 0
                             else sint (ucast (totalspace - g_fileSize f) :: 32 word)))] jobject"

fun list_entries ::
  "'a cloud_env_scheme \<Rightarrow> string \<Rightarrow> (string \<times> string) list \<Rightarrow> json list \<Rightarrow> cloud_state
     \<Rightarrow> json list option \<times> cloud_state" where
  "list_entries env d [] acc s = (Some acc, s)"
| "list_entries env d (e # es) acc s =
     (case call_file env d (Files_Get (snd e) ''id,title,mimeType,fileSize'') s of
        (None, s1) \<Rightarrow> (None, s1)
      | (Some f, s1) \<Rightarrow>
          (case call_about env d s1 of
             (None, s2) \<Rightarrow> (None, s2)
           | (Some q, s2) \<Rightarrow>
               list_entries env d es (acc @ [cloud_content_json (fst e) f (fst q)]) s2))"

definition gdrive_list :: "'a cloud_env_scheme \<Rightarrow> request_data \<Rightarrow> cloud_state \<Rightarrow> cloud_result" where
  "gdrive_list env rd s =
     (let d = asString env (jget (params rd) ''driveId'')
      in case drive_guard d rd s of
           (Some e, s1) \<Rightarrow> Some ([Reply rd e], s1)
         | (None, s1) \<Rightarrow>
             (let path = asString env (jget (params rd) ''path'');
                  limit = asInt env (jget (params rd) ''limit'');
                  offset = asInt env (jget (params rd) ''offset'')
              in case loadFileIds env d s1 of
                   None \<Rightarrow> None
                 | Some (False, s2) \<Rightarrow> Some ([], s2)
                 | Some (True, s2) \<Rightarrow>
                     (if getFileId (user_of d s2) path = []
                      then Some ([Reply rd (cloud_error_reply (saf_code INVALID_PATH))], s2)
                      else attempt
                        (list_entries env d (cloud_page (getFileMap (user_of d s2) path) offset limit) [] s2)
                        (\<lambda>contents s3.
                           Some ([Reply rd (jputs [(''returnValue'', JBool True), (''files'', JArr contents),
                                    (''fullPath'', JStr path),
                                    (''totalCount'', JNum (int (length contents)))] jobject)], s3)))))"

definition mega :: "64 word \<Rightarrow> int" where
  "mega n = sint (word_of_int (sint n sdiv 1000000) :: 32 word)"

definition gdrive_getProperties :: "'a cloud_env_scheme \<Rightarrow> request_data \<Rightarrow> cloud_state \<Rightarrow> cloud_result" where
  "gdrive_getProperties env rd s =
     (let d = asString env (jget (params rd) ''driveId'')
      in case drive_guard d rd s of
           (Some e, s1) \<Rightarrow> Some ([Reply rd e], s1)
         | (None, s1) \<Rightarrow>
             (let path = (if hasKey (params rd) ''path''
                          then getFileId (user_of d s1) (asString env (jget (params rd) ''path''))
                          else ''root'')
              in attempt (call_file env d (Files_Get path ''userPermission'') s1)
                   (\<lambda>f s2. attempt (call_about env d s2)
                     (\<lambda>q s3.
                        let r0 = jputs [(''returnValue'', JBool True), (''storageType'', JStr ''cloud''),
                                        (''writable'', JBool True), (''deletable'', JBool True)] jobject;
                            r1 = (if path = ''root''
                                  then jputs [(''totalSpace'', JNum (mega (fst q))),
                                              (''freeSpace'', JNum (mega (snd q)))] r0 else r0)
                        in Some ([Reply rd (jput ''attributes'' jarray r1)], s3)))))"

section \<open>Copy and move\<close>

definition progress_done :: json where
  "progress_done = jputs [(''returnValue'', JBool True), (''progress'', JNum 100)] jobject"

definition parent_or_root :: "string \<Rightarrow> string" where
  "parent_or_root i = (if i = [] then ''root'' else i)"

text \<open>\<open>keep\<close> tells copy from move. Inside the cloud: a copy below the new parent.\<close>

definition cloud_to_cloud ::
  "'a cloud_env_scheme \<Rightarrow> bool \<Rightarrow> string \<Rightarrow> request_data \<Rightarrow> string \<Rightarrow> string \<Rightarrow> cloud_state \<Rightarrow> cloud_result" where
  "cloud_to_cloud env keep d rd srcFileID destFileId s =
     (if srcFileID = [] then Some ([Reply rd (cloud_error_reply (saf_code INVALID_SOURCE_PATH))], s)
      else attempt (call_done env d (Files_Copy srcFileID (parent_or_root destFileId) None) s)
        (\<lambda>_ s1.
           if keep then answer_and_load env d rd progress_done s1
           else attempt (call_done env d (Files_Delete srcFileID) s1)
                  (\<lambda>_ s2. answer_and_load env d rd progress_done s2)))"

text \<open>From the file system to the cloud: the type is guessed from what follows the last dot.\<close>

definition file_to_cloud ::
  "'a cloud_env_scheme \<Rightarrow> bool \<Rightarrow> string \<Rightarrow> request_data \<Rightarrow> string \<Rightarrow> string \<Rightarrow> cloud_state \<Rightarrow> cloud_result" where
  "file_to_cloud env keep d rd srcPath destFileId s =
     (let mimeType = getMimeType (after_last (CHR ''.'') srcPath)
      in if mimeType = [] then Some ([Reply rd (cloud_error_reply (cloud_code INVALID_FILE))], s)
         else (case fs_read_file env srcPath (w_fs (c_world s)) of
             None \<Rightarrow> Some ([Reply rd (cloud_error_reply (saf_code UNKNOWN_ERROR))], s)
           | Some content \<Rightarrow>
               attempt (call_done env d
                   (Files_Insert (parent_or_root destFileId) (after_last (CHR ''/'') srcPath) mimeType content) s)
                 (\<lambda>_ s1.
                    let s2 = (if keep then s1
                              else s1\<lparr>c_world := (c_world s1)
                                       \<lparr>w_fs := snd (internalRemove env srcPath (w_fs (c_world s1)))\<rparr>\<rparr>)
                    in answer_and_load env d rd progress_done s2)))"

text \<open>
  From the cloud to the file system: the file is fetched, then its target opened. substr throws
  for a source path without a slash.
\<close>

definition cloud_to_file ::
  "'a cloud_env_scheme \<Rightarrow> bool \<Rightarrow> string \<Rightarrow> request_data \<Rightarrow> string \<Rightarrow> string \<Rightarrow> string \<Rightarrow> cloud_state \<Rightarrow> cloud_result" where
  "cloud_to_file env keep d rd srcPath srcFileID destPath s =
     (if srcFileID = [] then Some ([Reply rd (cloud_error_reply (saf_code INVALID_SOURCE_PATH))], s)
      else if \<not> validateInternalPath env (w_fs (c_world s)) destPath
      then Some ([Reply rd (cloud_error_reply (saf_code INVALID_DEST_PATH))], s)
      else if CHR ''/'' \<notin> set srcPath then Some ([], s)
      else (let target = destPath @ CHR ''/'' # after_last (CHR ''/'') srcPath
            in attempt (call_file env d (Files_Get srcFileID []) s)
                 (\<lambda>f s1.
                    let url = (if g_downloadUrl f = [] then omap_at ''application/pdf'' (g_exportLinks f)
                               else g_downloadUrl f)
                    in attempt (call_content env d (Download url) s1)
                         (\<lambda>content s2.
                            case fs_open_write env target (w_fs (c_world s2)) of
                              (False, fs) \<Rightarrow>
                                Some ([Reply rd (cloud_error_reply (saf_code UNKNOWN_ERROR))],
                                      s2\<lparr>c_world := (c_world s2)\<lparr>w_fs := fs\<rparr>\<rparr>)
                            | (True, fs) \<Rightarrow>
                                (let s3 = s2\<lparr>c_world := (c_world s2)\<lparr>w_fs := fs_fill env target content fs\<rparr>\<rparr>
                                 in if keep then answer_and_load env d rd progress_done s3
                                    else attempt (call_done env d (Files_Delete srcFileID) s3)
                                           (\<lambda>_ s4. answer_and_load env d rd progress_done s4))))))"

definition cloud_transfer ::
  "'a cloud_env_scheme \<Rightarrow> bool \<Rightarrow> request_data \<Rightarrow> cloud_state \<Rightarrow> cloud_result" where
  "cloud_transfer env keep rd s =
     (let (valid, out) = validateInterProviderOperation env rd (c_world s)
      in if \<not> valid then Some (out, s)
         else (let srcPath = asString env (jget (params rd) ''srcPath'');
                   destPath = asString env (jget (params rd) ''destPath'');
                   fromCloud = (asString env (jget (params rd) ''srcStorageType'') = ''cloud'');
                   toCloud = (asString env (jget (params rd) ''destStorageType'') = ''cloud'');
                   srcDrive = asString env (jget (params rd) ''srcDriveId'');
                   destDrive = asString env (jget (params rd) ''destDriveId'');
                   d = (if fromCloud then srcDrive else destDrive)
               in if fromCloud \<and> toCloud \<and> srcDrive \<noteq> destDrive
                  then Some ([Reply rd (jputs [(''errorCode'', JNum (saf_code SAF_ERROR_NOT_SUPPORTED)),
                                               (''errorText'', JStr ''Not supported yet'')] jobject)], s)
                  else (case drive_guard d rd s of
                      (Some e, s1) \<Rightarrow> Some ([Reply rd e], s1)
                    | (None, s1) \<Rightarrow>
                        (let u = user_of d s1;
                             srcFileID = getFileId u srcPath;
                             destFileId = getFileId u destPath
                         in if toCloud
                            then (if fromCloud then cloud_to_cloud env keep d rd srcFileID destFileId s1
                                  else file_to_cloud env keep d rd srcPath destFileId s1)
                            else cloud_to_file env keep d rd srcPath srcFileID destPath s1))))"

definition gdrive_copy :: "'a cloud_env_scheme \<Rightarrow> request_data \<Rightarrow> cloud_state \<Rightarrow> cloud_result" where
  "gdrive_copy env = cloud_transfer env True"

definition gdrive_move :: "'a cloud_env_scheme \<Rightarrow> request_data \<Rightarrow> cloud_state \<Rightarrow> cloud_result" where
  "gdrive_move env = cloud_transfer env False"

section \<open>Helpers the methods do not call\<close>

text \<open>getFilesFromPath: root, then the names between slashes; npos ends the loop.\<close>

function path_names :: "string \<Rightarrow> string list" where
  "path_names path =
     (let rest = dropWhile (\<lambda>c. c = CHR ''/'') path
      in if rest = [] then []
         else takeWhile (\<lambda>c. c \<noteq> CHR ''/'') rest # path_names (dropWhile (\<lambda>c. c \<noteq> CHR ''/'') rest))"
  by pat_completeness auto
termination
proof (relation "measure length")
  fix path rest :: string
  assume r: "rest = dropWhile (\<lambda>c. c = CHR ''/'') path" "rest \<noteq> []"
  obtain c cs where c: "rest = c # cs" using r(2) by (cases rest) auto
  have "dropWhile (\<lambda>c. c = CHR ''/'') path = c # cs" using r(1) c by simp
  then have "c \<noteq> CHR ''/''" by (simp add: dropWhile_eq_Cons_conv)
  moreover have "length (dropWhile (\<lambda>c. c \<noteq> CHR ''/'') cs) \<le> length cs" by (rule length_dropWhile_le)
  moreover have "length rest \<le> length path" unfolding r(1) by (rule length_dropWhile_le)
  ultimately show "(dropWhile (\<lambda>c. c \<noteq> CHR ''/'') rest, path) \<in> measure length" using c by simp
qed simp

declare path_names.simps [simp del]

definition getFilesFromPath :: "string list \<Rightarrow> string \<Rightarrow> string list" where
  "getFilesFromPath filesVec path = filesVec @ ''root'' # path_names path"

text \<open>
  getFileID: from folder to folder by title. A name that no child has leaves the folder as it is,
  and the search goes on with the next name. None is an exception.
\<close>

fun child_with_title ::
  "'a cloud_env_scheme \<Rightarrow> string \<Rightarrow> string \<Rightarrow> string list \<Rightarrow> cloud_state
     \<Rightarrow> string option option \<times> cloud_state" where
  "child_with_title env d title [] s = (Some None, s)"
| "child_with_title env d title (c # cs) s =
     (case call_file env d (Files_Get c ''id,title,mimeType'') s of
        (None, s1) \<Rightarrow> (None, s1)
      | (Some f, s1) \<Rightarrow> if g_title f = title then (Some (Some (g_id f)), s1) else child_with_title env d title cs s1)"

fun file_id_below ::
  "'a cloud_env_scheme \<Rightarrow> string \<Rightarrow> string \<Rightarrow> string list \<Rightarrow> cloud_state \<Rightarrow> string option \<times> cloud_state" where
  "file_id_below env d fileID [] s = (Some [], s)"
| "file_id_below env d fileID (title # titles) s =
     (case call_ids env d (Children_Listall fileID) s of
        (None, s1) \<Rightarrow> (None, s1)
      | (Some cs, s1) \<Rightarrow>
          (case child_with_title env d title cs s1 of
             (None, s2) \<Rightarrow> (None, s2)
           | (Some None, s2) \<Rightarrow> file_id_below env d fileID titles s2
           | (Some (Some i), s2) \<Rightarrow> if titles = [] then (Some i, s2) else file_id_below env d i titles s2))"

definition getFileID ::
  "'a cloud_env_scheme \<Rightarrow> string \<Rightarrow> string list \<Rightarrow> cloud_state \<Rightarrow> string option \<times> cloud_state" where
  "getFileID env d filesVec s =
     (case filesVec of [] \<Rightarrow> (None, s) | root # titles \<Rightarrow> file_id_below env d root titles s)"

text \<open>The three copies; false is the value they return, None an exception.\<close>

definition copyFileinGDrive ::
  "'a cloud_env_scheme \<Rightarrow> string \<Rightarrow> string \<Rightarrow> string \<Rightarrow> string \<Rightarrow> cloud_state \<Rightarrow> unit option \<times> cloud_state" where
  "copyFileinGDrive env d srcFileID destFolderId title s =
     call_done env d (Files_Copy srcFileID (parent_or_root destFolderId) (Some title)) s"

definition copyFilefromInternaltoGDrive ::
  "'a cloud_env_scheme \<Rightarrow> string \<Rightarrow> string \<Rightarrow> string \<Rightarrow> string \<Rightarrow> cloud_state \<Rightarrow> bool option \<times> cloud_state" where
  "copyFilefromInternaltoGDrive env d srcPath destFolderId mimeType s =
     (case fs_read_file env srcPath (w_fs (c_world s)) of
        None \<Rightarrow> (Some False, s)
      | Some content \<Rightarrow>
          (case call_done env d (Files_Insert (parent_or_root destFolderId)
                  (after_last (CHR ''/'') srcPath) mimeType content) s of
             (r, s1) \<Rightarrow> (map_option (\<lambda>u. True) r, s1)))"

text \<open>The download goes through a credential of its own, made from a copy of the map.\<close>

definition copyFilefromGDrivetoInternal ::
  "'a cloud_env_scheme \<Rightarrow> (string, string) omap \<Rightarrow> string \<Rightarrow> string \<Rightarrow> string \<Rightarrow> cloud_state \<Rightarrow> bool option \<times> cloud_state" where
  "copyFilefromGDrivetoInternal env authParam d srcFileID destPath s =
     (case call_file env d (Files_Get srcFileID []) s of
        (None, s1) \<Rightarrow> (None, s1)
      | (Some f, s1) \<Rightarrow>
          (let url = (if g_downloadUrl f = [] then omap_at ''application/pdf'' (g_exportLinks f) else g_downloadUrl f);
               s2 = s1\<lparr>g_calls := g_calls s1 + 1\<rparr>
           in case fst (g_call env (g_calls s1) (Download url) authParam) of
                Some (Content c) \<Rightarrow>
                  (let (good, fs) = fs_open_write env destPath (w_fs (c_world s2));
                       fs' = (if good then fs_fill env destPath c fs else fs)
                   in (Some good, s2\<lparr>c_world := (c_world s2)\<lparr>w_fs := fs'\<rparr>\<rparr>))
              | _ \<Rightarrow> (None, s2)))"

section \<open>Remove, rename, storages\<close>

text \<open>A change of one file by its path, and the reply to it.\<close>

definition change_file ::
  "'a cloud_env_scheme \<Rightarrow> (string \<Rightarrow> g_request) \<Rightarrow> string \<Rightarrow> request_data \<Rightarrow> cloud_state \<Rightarrow> cloud_result" where
  "change_file env req status rd s =
     (let d = asString env (jget (params rd) ''driveId'')
      in case drive_guard d rd s of
           (Some e, s1) \<Rightarrow> Some ([Reply rd e], s1)
         | (None, s1) \<Rightarrow>
             (let fileId = getFileId (user_of d s1) (asString env (jget (params rd) ''path''))
              in if fileId = [] then Some ([Reply rd (cloud_error_reply (saf_code INVALID_PATH))], s1)
                 else attempt (call_done env d (req fileId) s1)
                   (\<lambda>_ s2. answer_and_load env d rd
                      (jputs [(''returnValue'', JBool True), (''status'', JStr status)] jobject) s2)))"

definition gdrive_remove :: "'a cloud_env_scheme \<Rightarrow> request_data \<Rightarrow> cloud_state \<Rightarrow> cloud_result" where
  "gdrive_remove env rd s = change_file env Files_Delete ''File Deleted'' rd s"

definition gdrive_rename :: "'a cloud_env_scheme \<Rightarrow> request_data \<Rightarrow> cloud_state \<Rightarrow> cloud_result" where
  "gdrive_rename env rd s =
     change_file env (\<lambda>i. Files_Patch i (asString env (jget (params rd) ''newName''))) ''File Renamed'' rd s"

text \<open>The result goes into the parameters, which are the reply.\<close>

definition gdrive_listStoragesMethod :: "'a cloud_env_scheme \<Rightarrow> request_data \<Rightarrow> cloud_state \<Rightarrow> cloud_result" where
  "gdrive_listStoragesMethod env rd s =
     (let entry = (\<lambda>e. jputs [(''driveName'', JStr GDRIVE_NAME), (''driveId'', JStr (fst e)),
                              (''path'', JStr ''/'')] jobject);
          respObj = jput ''cloud'' (JArr (map entry (mDriveIdSessionMap s))) jobject;
          rd' = rd\<lparr>params := jput ''response'' respObj (params rd)\<rparr>
      in Some ([Reply rd' (params rd')], s))"

definition gdrive_eject :: "'a cloud_env_scheme \<Rightarrow> request_data \<Rightarrow> cloud_state \<Rightarrow> cloud_result" where
  "gdrive_eject env rd s =
     (let respObj = error_object (saf_code UNKNOWN_ERROR) ''Not supported yet'' jobject;
          rd' = rd\<lparr>params := jput ''response'' respObj (params rd)\<rparr>
      in Some ([Reply rd' (params rd')], s))"

definition gdrive_handleRequests :: "'a cloud_env_scheme \<Rightarrow> cloud_state handler" where
  "gdrive_handleRequests env rd s =
     (case methodType rd of
        EXTRA_METHOD \<Rightarrow> gdrive_extraMethod env rd s
      | LIST_METHOD \<Rightarrow> gdrive_list env rd s
      | GET_PROP_METHOD \<Rightarrow> gdrive_getProperties env rd s
      | REMOVE_METHOD \<Rightarrow> gdrive_remove env rd s
      | MOVE_METHOD \<Rightarrow> gdrive_move env rd s
      | COPY_METHOD \<Rightarrow> gdrive_copy env rd s
      | RENAME_METHOD \<Rightarrow> gdrive_rename env rd s
      | LIST_STORAGES_METHOD \<Rightarrow> gdrive_listStoragesMethod env rd s
      | EJECT_METHOD \<Rightarrow> gdrive_eject env rd s
      | _ \<Rightarrow> Some ([], s))"

definition cloud_methods :: "method_type \<Rightarrow> bool" where
  "cloud_methods m \<longleftrightarrow>
     m \<in> {EXTRA_METHOD, LIST_METHOD, GET_PROP_METHOD, REMOVE_METHOD, MOVE_METHOD, COPY_METHOD,
          RENAME_METHOD, LIST_STORAGES_METHOD, EJECT_METHOD}"

end
