(* ===== verification/Saf_Cloud.thy ===== *)
theory Saf_Cloud
  imports Saf_GDrive
begin

text \<open>
  What the cloud provider guarantees: an invariant of its tables that every request keeps; that
  the walk over a drive ends when no folder lies in itself; and, with a library that answers, an
  answer to every request, through the contract \<open>document_provider\<close> of the dispatcher.
\<close>

section \<open>The invariant\<close>

text \<open>
  A drive with a refresh token has a credential, and the paths of its ids have a slash. Every
  drive has a session, and every client id its drive.
\<close>

definition good_user :: "cloud_user \<Rightarrow> bool" where
  "good_user u \<longleftrightarrow> (omap_at ''refresh_token'' (mAuthParam u) \<noteq> [] \<longrightarrow> mCred u)
     \<and> (\<forall>k i. omap_find k (mFileIds u) = Some i \<longrightarrow> CHR ''/'' \<in> set k)"

definition cloud_inv :: "cloud_state \<Rightarrow> bool" where
  "cloud_inv s \<longleftrightarrow> (\<forall>d. good_user (user_of d s))
     \<and> (\<forall>d. omap_find d (mDriveIdUserDataMap s) \<noteq> None \<longrightarrow> omap_find d (mDriveIdSessionMap s) \<noteq> None)
     \<and> (\<forall>c d. omap_find c (mClientIdDriveId s) = Some d \<longrightarrow> omap_find d (mDriveIdUserDataMap s) \<noteq> None)"

text \<open>The states a method works in once it has the user data of a drive and its credential.\<close>

definition held :: "string \<Rightarrow> cloud_state \<Rightarrow> bool" where
  "held d s \<longleftrightarrow> cloud_inv s \<and> omap_find d (mDriveIdUserDataMap s) \<noteq> None \<and> mCred (user_of d s)"

lemma good_no_user [simp]: "good_user no_user"
  by (simp add: good_user_def no_user_def omap_at_def omap_find_def)

lemma user_of_set_user [simp]: "user_of d (set_user d' u s) = (if d = d' then u else user_of d s)"
  by (simp add: user_of_def set_user_def om.find_put)

lemma user_of_simps [simp]:
  "user_of d (s\<lparr>mDriveIdSessionMap := x\<rparr>) = user_of d s" "user_of d (s\<lparr>g_calls := k\<rparr>) = user_of d s"
  "user_of d (s\<lparr>c_world := w\<rparr>) = user_of d s" "user_of d (s\<lparr>mClientIdDriveId := y\<rparr>) = user_of d s"
  "user_of d (s\<lparr>drive_seq := z\<rparr>) = user_of d s"
  by (simp_all add: user_of_def)

lemma good_user_parts:
  "good_user u \<Longrightarrow> good_user (u\<lparr>mAuthParam := omap_touch k (mAuthParam u)\<rparr>)"
  "good_user u \<Longrightarrow> mCred u \<Longrightarrow> good_user (u\<lparr>mAuthParam := a\<rparr>)"
  "good_user u \<Longrightarrow> good_user (u\<lparr>mAuthParam := a, mCred := True\<rparr>)"
  "good_user u \<Longrightarrow> CHR ''/'' \<in> set k \<Longrightarrow> good_user (u\<lparr>mFileIds := omap_put k i (mFileIds u)\<rparr>)"
  by (auto simp: good_user_def omap_touch_def omap_at_def om.find_put split: option.splits if_splits)

text \<open>Writing back the user data of a drive that is there, or is given a session.\<close>

lemma cloud_inv_set_user:
  assumes "cloud_inv s" "good_user u" "omap_find d (mDriveIdSessionMap s) \<noteq> None"
  shows "cloud_inv (set_user d u s)"
proof -
  have "mDriveIdSessionMap (set_user d u s) = mDriveIdSessionMap s"
    "mClientIdDriveId (set_user d u s) = mClientIdDriveId s"
    by (simp_all add: set_user_def)
  moreover have "omap_find d' (mDriveIdUserDataMap (set_user d u s)) =
      (if d' = d then Some u else omap_find d' (mDriveIdUserDataMap s))" for d'
    by (simp add: set_user_def om.find_put)
  ultimately show ?thesis using assms by (auto simp: cloud_inv_def)
qed

lemma held_set_user: "held d s \<Longrightarrow> good_user u \<Longrightarrow> mCred u \<Longrightarrow> held d (set_user d u s)"
  by (simp add: held_def cloud_inv_set_user cloud_inv_def)
    (simp add: cloud_inv_set_user cloud_inv_def set_user_def om.find_put)

lemma held_user: "held d s \<Longrightarrow> good_user (user_of d s)" "held d s \<Longrightarrow> mCred (user_of d s)"
  "held d s \<Longrightarrow> cloud_inv s"
  by (simp_all add: held_def cloud_inv_def)

lemma held_simps [simp]:
  "held d (s\<lparr>g_calls := k\<rparr>) = held d s" "held d (s\<lparr>c_world := w\<rparr>) = held d s"
  by (simp_all add: held_def cloud_inv_def)

lemma cloud_inv_world [simp]: "cloud_inv (s\<lparr>c_world := w\<rparr>) = cloud_inv s"
  by (simp add: cloud_inv_def)

lemma held_touch: "held d s \<Longrightarrow> held d (s\<lparr>mDriveIdSessionMap := omap_touch d' (mDriveIdSessionMap s)\<rparr>)"
  by (auto simp: held_def cloud_inv_def omap_touch_def om.find_put)

subsection \<open>Library calls\<close>

lemma held_lib_call: "held d s \<Longrightarrow> held d (snd (lib_call env d req s))"
  using held_user [of d s]
  by (auto simp: lib_call_def Let_def intro!: held_set_user good_user_parts(2) split: prod.splits)

lemma snd_calls [simp]:
  "snd (call_ids env d req s) = snd (lib_call env d req s)"
  "snd (call_file env d req s) = snd (lib_call env d req s)"
  "snd (call_about env d s) = snd (lib_call env d About_Get s)"
  "snd (call_done env d req s) = snd (lib_call env d req s)"
  "snd (call_content env d req s) = snd (lib_call env d req s)"
  "snd (call_built env d req s) = snd (lib_call env d req s)"
  by (simp_all add: call_ids_def call_file_def call_about_def call_done_def call_content_def call_built_def
      split: prod.splits option.splits g_answer.splits)

lemma call_ids_state: "call_ids env d req s = (r, s') \<Longrightarrow> s' = snd (lib_call env d req s)"
  using snd_calls(1) [of env d req s] by simp

lemma call_file_state: "call_file env d req s = (r, s') \<Longrightarrow> s' = snd (lib_call env d req s)"
  using snd_calls(2) [of env d req s] by simp

lemma held_put_file_id: "held d s \<Longrightarrow> CHR ''/'' \<in> set path \<Longrightarrow> held d (put_file_id d path i s)"
  using held_user [of d s] by (simp add: put_file_id_def Let_def held_set_user good_user_parts)

text \<open>Paths of the walk.\<close>

fun visit_path :: "drive_visit \<Rightarrow> string" where
  "visit_path (Folder i p) = p"
| "visit_path (Child i p) = p"

definition slashed :: "drive_visit list \<Rightarrow> bool" where
  "slashed todo \<longleftrightarrow> (\<forall>v \<in> set todo. CHR ''/'' \<in> set (visit_path v))"

text \<open>The walk keeps what every call of the library and every new id keep.\<close>

lemma getChildren_keeps:
  assumes ret: "getChildren env d todo s = Some r" and "P s" "slashed todo"
    and "\<And>req s. P s \<Longrightarrow> P (snd (lib_call env d req s))"
    and "\<And>path i s. P s \<Longrightarrow> CHR ''/'' \<in> set path \<Longrightarrow> P (put_file_id d path i s)"
  shows "P (snd r)"
proof -
  let ?K = "\<lambda>env d. (\<forall>req s. P s \<longrightarrow> P (snd (lib_call env d req s)))
      \<and> (\<forall>path i s. P s \<longrightarrow> CHR ''/'' \<in> set path \<longrightarrow> P (put_file_id d path i s))"
  have "?K env d \<longrightarrow> P s \<longrightarrow> slashed todo \<longrightarrow> P (snd r)"
  proof (rule getChildren.raw_induct
      [where P = "\<lambda>env d todo s r. ?K env d \<longrightarrow> P s \<longrightarrow> slashed todo \<longrightarrow> P (snd r)", OF _ ret])
    fix f env d todo s r
    assume IH: "\<And>env d todo s r. f env d todo s = Some r \<Longrightarrow> ?K env d \<longrightarrow> P s \<longrightarrow> slashed todo \<longrightarrow> P (snd r)"
      and eq: "(case todo of
        [] \<Rightarrow> Some (True, s)
      | Folder fileId parentPath # rest \<Rightarrow>
          (case call_ids env d (Children_Listall fileId) s of
             (None, s1) \<Rightarrow> Some (False, s1)
           | (Some childs, s1) \<Rightarrow> f env d (map (\<lambda>c. Child c parentPath) childs @ rest) s1)
      | Child c parentPath # rest \<Rightarrow>
          (case call_file env d (Files_Get c ''id,title'') s of
             (None, s1) \<Rightarrow> Some (False, s1)
           | (Some fl, s1) \<Rightarrow>
               f env d (Folder (g_id fl) (parentPath @ g_title fl @ ''/'') # rest)
                 (put_file_id d (parentPath @ g_title fl) (g_id fl) s1))) = Some r"
    show "?K env d \<longrightarrow> P s \<longrightarrow> slashed todo \<longrightarrow> P (snd r)"
    proof (intro impI)
      assume K: "?K env d" and h: "P s" and sl: "slashed todo"
      show "P (snd r)"
      proof (cases todo)
        case Nil
        with eq h show ?thesis by auto
      next
        case (Cons v rest)
        from Cons sl have p: "CHR ''/'' \<in> set (visit_path v)" "slashed rest" by (auto simp: slashed_def)
        show ?thesis
        proof (cases v)
          case (Folder i p)
          obtain x s1 where c: "call_ids env d (Children_Listall i) s = (x, s1)" by fastforce
          with h K have h1: "P s1" by (auto dest: call_ids_state)
          show ?thesis
          proof (cases x)
            case (Some childs)
            with eq Cons Folder c have "f env d (map (\<lambda>c. Child c p) childs @ rest) s1 = Some r" by simp
            moreover have "slashed (map (\<lambda>c. Child c p) childs @ rest)" using p Folder by (auto simp: slashed_def)
            ultimately show ?thesis using IH K h1 by blast
          qed (use eq Cons Folder c h1 in auto)
        next
          case (Child c p)
          obtain x s1 where c': "call_file env d (Files_Get c ''id,title'') s = (x, s1)" by fastforce
          with h K have h1: "P s1" by (auto dest: call_file_state)
          show ?thesis
          proof (cases x)
            case (Some fl)
            with eq Cons Child c' have "f env d (Folder (g_id fl) (p @ g_title fl @ ''/'') # rest)
                (put_file_id d (p @ g_title fl) (g_id fl) s1) = Some r" by simp
            moreover have "P (put_file_id d (p @ g_title fl) (g_id fl) s1)"
              using h1 p(1) Child K by simp
            moreover have "slashed (Folder (g_id fl) (p @ g_title fl @ ''/'') # rest)"
              using p Child by (simp add: slashed_def)
            ultimately show ?thesis using IH K by blast
          qed (use eq Cons Child c' h1 in auto)
        qed
      qed
    qed
  qed
  with assms(2-5) show ?thesis by blast
qed

lemma getChildren_held:
  "getChildren env d todo s = Some r \<Longrightarrow> held d s \<Longrightarrow> slashed todo \<Longrightarrow> held d (snd r)"
  by (erule getChildren_keeps) (simp_all add: held_lib_call held_put_file_id)

lemma held_fresh_ids:
  assumes "held d s"
  shows "held d (set_user d ((user_of d s)\<lparr>mFileIds := omap_put ''/'' ''root'' []\<rparr>) s)"
proof -
  have "good_user ((user_of d s)\<lparr>mFileIds := omap_put ''/'' ''root'' []\<rparr>)"
    using held_user [OF assms]
    by (auto simp: good_user_def om.find_put om.find_clear simp del: omap_put.simps split: if_splits)
  then show ?thesis using held_user(2) [OF assms] by (intro held_set_user [OF assms]) simp_all
qed

lemma loadFileIds_held: "loadFileIds env d s = Some r \<Longrightarrow> held d s \<Longrightarrow> held d (snd r)"
  unfolding loadFileIds_def
  by (erule getChildren_held) (simp_all add: held_fresh_ids slashed_def del: omap_put.simps)

section \<open>A library that answers\<close>

text \<open>
  Every call gives an answer of the type its caller reads, a file asked for with its id and title
  is returned under the id it was asked by, and no folder lies in itself: the rank falls from a folder
  to what it lists. The alias root of the top folder is never listed, and may be answered with another id.
\<close>

fun fits :: "g_request \<Rightarrow> g_answer \<Rightarrow> bool" where
  "fits (Children_Listall i) a \<longleftrightarrow> (case a of Ids xs \<Rightarrow> ''root'' \<notin> set xs | _ \<Rightarrow> False)"
| "fits (Files_Get i added) a \<longleftrightarrow> (case a of AFile f \<Rightarrow> added = ''id,title'' \<and> i \<noteq> ''root'' \<longrightarrow> g_id f = i | _ \<Rightarrow> False)"
| "fits About_Get a \<longleftrightarrow> (case a of Quota t u \<Rightarrow> True | _ \<Rightarrow> False)"
| "fits (Download url) a \<longleftrightarrow> (case a of Content c \<Rightarrow> True | _ \<Rightarrow> False)"
| "fits (Build_Credential i sec code) a \<longleftrightarrow> (case a of Built b \<Rightarrow> True | _ \<Rightarrow> False)"
| "fits req a \<longleftrightarrow> a = Done"

definition reliable :: "'a cloud_env_scheme \<Rightarrow> (string \<Rightarrow> nat) \<Rightarrow> bool" where
  "reliable env rank \<longleftrightarrow>
     (\<forall>k req auth. \<exists>a. fst (g_call env k req auth) = Some a \<and> fits req a)
     \<and> (\<forall>k i auth xs. fst (g_call env k (Children_Listall i) auth) = Some (Ids xs)
          \<longrightarrow> (\<forall>c \<in> set xs. rank c < rank i))"

lemma reliable_call:
  assumes "reliable env rank" "mCred (user_of d s)"
  obtains a s1 where "lib_call env d req s = (Some a, s1)" "fits req a"
    "\<And>i xs. req = Children_Listall i \<Longrightarrow> a = Ids xs \<Longrightarrow> \<forall>c \<in> set xs. rank c < rank i"
proof -
  obtain x auth where g: "g_call env (g_calls s) req (mAuthParam (user_of d s)) = (x, auth)" by fastforce
  with assms(1) obtain a where "x = Some a" "fits req a"
    unfolding reliable_def by (metis fst_conv)
  moreover have "\<forall>c \<in> set xs. rank c < rank i" if "req = Children_Listall i" "x = Some (Ids xs)" for i xs
    using that g assms(1) unfolding reliable_def by (metis fst_conv)
  ultimately show ?thesis using g assms(2) that by (simp add: lib_call_def Let_def)
qed

lemmas call_defs = call_ids_def call_file_def call_about_def call_done_def call_content_def call_built_def

text \<open>Each kind of call then goes on, in a state still held.\<close>

lemma reliable_calls:
  assumes r: "reliable env rank" and h: "held d s"
  shows "\<exists>xs s1. call_ids env d (Children_Listall i) s = (Some xs, s1) \<and> held d s1
           \<and> (\<forall>c \<in> set xs. rank c < rank i) \<and> ''root'' \<notin> set xs"
    and "\<exists>f s1. call_file env d (Files_Get i added) s = (Some f, s1) \<and> held d s1
           \<and> (added = ''id,title'' \<and> i \<noteq> ''root'' \<longrightarrow> g_id f = i)"
    and "\<exists>q s1. call_about env d s = (Some q, s1) \<and> held d s1"
    and "\<exists>c s1. call_content env d (Download url) s = (Some c, s1) \<and> held d s1"
    and "\<exists>b s1. call_built env d (Build_Credential x y z) s = (Some b, s1) \<and> held d s1"
proof -
  note c = reliable_call [OF r held_user(2) [OF h]]
  note k = held_lib_call [OF h]
  show "\<exists>xs s1. call_ids env d (Children_Listall i) s = (Some xs, s1) \<and> held d s1
           \<and> (\<forall>c \<in> set xs. rank c < rank i) \<and> ''root'' \<notin> set xs"
    using k [of env "Children_Listall i"]
    by (rule_tac req = "Children_Listall i" in c) (auto simp: call_defs split: g_answer.splits)
  show "\<exists>f s1. call_file env d (Files_Get i added) s = (Some f, s1) \<and> held d s1
           \<and> (added = ''id,title'' \<and> i \<noteq> ''root'' \<longrightarrow> g_id f = i)"
    using k [of env "Files_Get i added"]
    by (rule_tac req = "Files_Get i added" in c) (auto simp: call_defs split: g_answer.splits)
  show "\<exists>q s1. call_about env d s = (Some q, s1) \<and> held d s1"
    using k [of env About_Get]
    by (rule_tac req = About_Get in c) (auto simp: call_defs split: g_answer.splits)
  show "\<exists>c s1. call_content env d (Download url) s = (Some c, s1) \<and> held d s1"
    using k [of env "Download url"]
    by (rule_tac req = "Download url" in c) (auto simp: call_defs split: g_answer.splits)
  show "\<exists>b s1. call_built env d (Build_Credential x y z) s = (Some b, s1) \<and> held d s1"
    using k [of env "Build_Credential x y z"]
    by (rule_tac req = "Build_Credential x y z" in c) (auto simp: call_defs split: g_answer.splits)
qed

lemma reliable_done:
  assumes "reliable env rank" "held d s" and only: "\<And>a. fits req a \<Longrightarrow> a = Done"
  shows "\<exists>u s1. call_done env d req s = (Some u, s1) \<and> held d s1"
proof -
  obtain a s1 where "lib_call env d req s = (Some a, s1)" "fits req a"
    using reliable_call [OF assms(1) held_user(2) [OF assms(2)]] by metis
  with only [of a] held_lib_call [OF assms(2), of env req] show ?thesis by (simp add: call_done_def)
qed

subsection \<open>The walk ends\<close>

definition returns :: "'a cloud_env_scheme \<Rightarrow> string \<Rightarrow> drive_visit list \<Rightarrow> bool" where
  "returns env d todo \<longleftrightarrow> (\<forall>s. held d s \<longrightarrow> (\<exists>s'. getChildren env d todo s = Some (True, s')))"

lemma returns_childs:
  assumes "reliable env rank" "CHR ''/'' \<in> set p" "returns env d rest" and "''root'' \<notin> set cs"
    and folder: "\<And>c p rest. c \<in> set cs \<Longrightarrow> CHR ''/'' \<in> set p \<Longrightarrow> returns env d rest
                  \<Longrightarrow> returns env d (Folder c p # rest)"
  shows "returns env d (map (\<lambda>c. Child c p) cs @ rest)"
  using assms(4) folder
proof (induction cs)
  case (Cons c cs)
  let ?rest = "map (\<lambda>c. Child c p) cs @ rest"
  have rest: "returns env d ?rest" using Cons by simp
  show ?case unfolding returns_def
  proof (intro allI impI)
    fix s assume h: "held d s"
    obtain f s1 where f: "call_file env d (Files_Get c ''id,title'') s = (Some f, s1)" "held d s1" "g_id f = c"
      using reliable_calls(2) [OF assms(1) h, of c "''id,title''"] Cons.prems(1) by auto
    have "returns env d (Folder c (p @ g_title f @ ''/'') # ?rest)"
      using Cons.prems rest assms(2) by simp
    moreover have "held d (put_file_id d (p @ g_title f) c s1)"
      using f(2) assms(2) by (simp add: held_put_file_id)
    ultimately show "\<exists>s'. getChildren env d (map (\<lambda>c. Child c p) (c # cs) @ rest) s = Some (True, s')"
      using f by (subst getChildren.simps) (simp add: returns_def)
  qed
qed (simp add: assms(3))

lemma returns_folder:
  assumes "reliable env rank"
  shows "CHR ''/'' \<in> set p \<Longrightarrow> returns env d rest \<Longrightarrow> returns env d (Folder i p # rest)"
proof (induction "rank i" arbitrary: i p rest rule: less_induct)
  case less
  show ?case unfolding returns_def
  proof (intro allI impI)
    fix s assume h: "held d s"
    obtain cs s1 where c: "call_ids env d (Children_Listall i) s = (Some cs, s1)" "held d s1"
      "\<forall>c \<in> set cs. rank c < rank i" "''root'' \<notin> set cs"
      using reliable_calls(1) [OF assms h] by blast
    have "returns env d (map (\<lambda>c. Child c p) cs @ rest)"
      using less c(3,4) by (intro returns_childs [OF assms]) auto
    with c show "\<exists>s'. getChildren env d (Folder i p # rest) s = Some (True, s')"
      by (subst getChildren.simps) (simp add: returns_def)
  qed
qed

lemma loadFileIds_returns:
  assumes "reliable env rank" "held d s"
  shows "\<exists>s'. loadFileIds env d s = Some (True, s') \<and> held d s'"
proof -
  have "returns env d [Folder ''root'' ''/'']"
    by (rule returns_folder [OF assms(1)]) (simp_all add: returns_def getChildren.simps)
  then obtain s' where "loadFileIds env d s = Some (True, s')"
    using held_fresh_ids [OF assms(2)] by (auto simp: loadFileIds_def returns_def)
  with loadFileIds_held [OF this assms(2)] show ?thesis by simp
qed

section \<open>Every request settles\<close>

text \<open>
  What a method does in a state of the invariant: it keeps it, its effects answer the request, and
  with a library that answers there is at least one.
\<close>

definition settles :: "bool \<Rightarrow> request_data \<Rightarrow> cloud_result \<Rightarrow> bool" where
  "settles rel rd res \<longleftrightarrow>
     (case res of
        None \<Rightarrow> \<not> rel
      | Some (es, s') \<Rightarrow> cloud_inv s' \<and> (\<forall>e \<in> set es. answers_to rd e) \<and> (rel \<longrightarrow> es \<noteq> []))"

lemma settles_reply [simp]:
  "settles rel rd (Some ([Reply rd j], s)) \<longleftrightarrow> cloud_inv s"
  "settles rel rd (Some ([Reply (rd\<lparr>params := x\<rparr>) j], s)) \<longleftrightarrow> cloud_inv s"
  by (simp_all add: settles_def)

lemma settles_load:
  assumes "held d s"
  shows "settles (\<exists>rank. reliable env rank) rd (answer_and_load env d rd j s)"
  using loadFileIds_returns [OF _ assms, of env] loadFileIds_held [OF _ assms, of env]
  by (cases "loadFileIds env d s")
    (auto simp: settles_def answer_and_load_def held_def)

text \<open>A call of the library that an answering library answers, in a held state.\<close>

definition sure :: "'a cloud_env_scheme \<Rightarrow> string \<Rightarrow> 'x option \<times> cloud_state \<Rightarrow> bool" where
  "sure env d r \<longleftrightarrow> held d (snd r) \<and> ((\<exists>rank. reliable env rank) \<longrightarrow> fst r \<noteq> None)"

lemma settles_attempt:
  assumes "sure env d r" "\<And>x s1. held d s1 \<Longrightarrow> settles (\<exists>rank. reliable env rank) rd (k x s1)"
  shows "settles (\<exists>rank. reliable env rank) rd (attempt r k)"
  using assms by (cases r; cases "fst r") (auto simp: settles_def attempt_def sure_def held_def)

lemma sureI:
  "held d (snd r) \<Longrightarrow> (\<And>rank. reliable env rank \<Longrightarrow> \<exists>x s1. r = (Some x, s1) \<and> Q x s1) \<Longrightarrow> sure env d r"
  by (fastforce simp: sure_def)

lemma sure_calls:
  assumes "held d s"
  shows "sure env d (call_file env d (Files_Get i added) s)" "sure env d (call_about env d s)"
    "sure env d (call_content env d (Download url) s)"
    "sure env d (call_built env d (Build_Credential x y z) s)"
  by (rule sureI, simp add: held_lib_call [OF assms], erule reliable_calls [OF _ assms])+

lemma sure_done:
  assumes "held d s" "\<And>a. fits req a \<Longrightarrow> a = Done"
  shows "sure env d (call_done env d req s)"
  by (rule sureI, simp add: held_lib_call [OF assms(1)], rule reliable_done [OF _ assms])

lemma sure_list_entries:
  "held d s \<Longrightarrow> sure env d (list_entries env d es acc s)"
proof (induction es arbitrary: acc s)
  case (Cons e es)
  obtain x s1 where f: "call_file env d (Files_Get (snd e) ''id,title,mimeType,fileSize'') s = (x, s1)"
    by fastforce
  note sf = sure_calls(1) [OF Cons.prems, of env "snd e" "''id,title,mimeType,fileSize''", unfolded f]
  show ?case
  proof (cases x)
    case (Some fl)
    obtain q s2 where a: "call_about env d s1 = (q, s2)" by fastforce
    have "sure env d (q, s2)" using sure_calls(2) [of d s1 env] sf a by (simp add: sure_def)
    with Some f a Cons.IH show ?thesis by (cases q) (auto simp: sure_def)
  qed (use f sf in \<open>simp add: sure_def\<close>)
qed (simp add: sure_def)

text \<open>The rules for going on after each kind of call.\<close>

lemma settles_done:
  "\<lbrakk>held d s; \<And>a. fits req a \<Longrightarrow> a = Done; \<And>x s1. held d s1 \<Longrightarrow> settles (\<exists>rank. reliable env rank) rd (k x s1)\<rbrakk>
   \<Longrightarrow> settles (\<exists>rank. reliable env rank) rd (attempt (call_done env d req s) k)"
  by (rule settles_attempt [OF sure_done])

lemmas settles_calls = settles_done settles_attempt [OF sure_calls(1)] settles_attempt [OF sure_calls(2)]
  settles_attempt [OF sure_calls(3)] settles_attempt [OF sure_calls(4)] settles_attempt [OF sure_list_entries]

text \<open>The guard leads into a held state or to an error.\<close>

lemma drive_guard_held:
  assumes "cloud_inv s" "drive_guard d rd s = (r, s1)"
  shows "if r = None then held d s1 else cloud_inv s1"
proof (cases "omap_find d (mDriveIdUserDataMap s)")
  case (Some u)
  let ?s = "s\<lparr>mDriveIdSessionMap := omap_touch d (mDriveIdSessionMap s)\<rparr>"
  have i: "cloud_inv ?s" "omap_find d (mDriveIdSessionMap ?s) \<noteq> None"
    using assms(1) Some by (auto simp: cloud_inv_def omap_touch_def om.find_put)
  have u: "user_of d s = u" "good_user u"
    using assms(1) Some by (auto simp: user_of_def cloud_inv_def dest: spec [of _ d])
  show ?thesis
  proof (cases "omap_at d (mDriveIdSessionMap s) \<noteq> sessionId rd")
    case True
    with assms(2) Some i show ?thesis by (auto simp: drive_guard_def Let_def)
  next
    case False
    let ?u = "u\<lparr>mAuthParam := omap_touch ''refresh_token'' (mAuthParam u)\<rparr>"
    have "cloud_inv (set_user d ?u ?s)" using i u by (intro cloud_inv_set_user good_user_parts)
    moreover have "mCred u" if "omap_at ''refresh_token'' (mAuthParam u) \<noteq> []"
      using that u(2) by (simp add: good_user_def)
    ultimately show ?thesis using assms(2) Some False u(1)
      by (auto simp: drive_guard_def Let_def held_def set_user_def om.find_put user_of_def split: if_splits)
  qed
qed (use assms in \<open>auto simp: drive_guard_def\<close>)

lemma settles_guarded:
  assumes "cloud_inv s" "\<And>s1. held d s1 \<Longrightarrow> settles rel rd (k s1)"
  shows "settles rel rd (case drive_guard d rd s of
           (Some e, s1) \<Rightarrow> Some ([Reply rd e], s1) | (None, s1) \<Rightarrow> k s1)"
proof -
  obtain r s1 where g: "drive_guard d rd s = (r, s1)" by fastforce
  with drive_guard_held [OF assms(1) g] assms(2) [of s1] show ?thesis by (cases r) auto
qed

subsection \<open>The methods\<close>

lemma settles_change_file:
  "cloud_inv s \<Longrightarrow> (\<And>i a. fits (req i) a \<Longrightarrow> a = Done) \<Longrightarrow>
   settles (\<exists>rank. reliable env rank) rd (change_file env req status rd s)"
  unfolding change_file_def Let_def
  by (rule settles_guarded)
    (auto intro!: settles_calls settles_load dest: held_user(3))

lemma settles_list: "cloud_inv s \<Longrightarrow> settles (\<exists>rank. reliable env rank) rd (gdrive_list env rd s)"
  unfolding gdrive_list_def Let_def
proof (erule settles_guarded, goal_cases)
  case (1 s1)
  let ?d = "asString env (jget (params rd) ''driveId'')"
  show ?case
  proof (cases "loadFileIds env ?d s1")
    case None
    with loadFileIds_returns [OF _ 1, of env] show ?thesis by (auto simp: settles_def)
  next
    case (Some r)
    obtain ok s2 where r: "r = (ok, s2)" by fastforce
    have h: "held ?d s2" using loadFileIds_held [OF Some 1] r by simp
    show ?thesis
    proof (cases ok)
      case True
      with Some r h show ?thesis
        by (auto intro!: settles_calls dest: held_user(3))
    next
      case False
      with loadFileIds_returns [OF _ 1, of env] Some r h show ?thesis
        by (auto simp: settles_def held_def)
    qed
  qed
qed

lemma settles_getProperties:
  "cloud_inv s \<Longrightarrow> settles (\<exists>rank. reliable env rank) rd (gdrive_getProperties env rd s)"
  unfolding gdrive_getProperties_def Let_def
  by (erule settles_guarded) (auto intro!: settles_calls dest: held_user(3))

lemma held_world: "held d s \<Longrightarrow> held d (s\<lparr>c_world := w\<rparr>)"
  by simp

lemma settles_cloud_to_cloud:
  "held d s \<Longrightarrow> settles (\<exists>rank. reliable env rank) rd (cloud_to_cloud env keep d rd i j s)"
  unfolding cloud_to_cloud_def Let_def
  by (auto intro!: settles_calls settles_load dest: held_user(3))

lemma settles_file_to_cloud:
  "held d s \<Longrightarrow> settles (\<exists>rank. reliable env rank) rd (file_to_cloud env keep d rd p i s)"
  unfolding file_to_cloud_def Let_def
  by (auto intro!: settles_calls settles_load dest: held_user(3) split: option.splits)

lemma getFileId_slash:
  "good_user u \<Longrightarrow> getFileId u p \<noteq> [] \<Longrightarrow> CHR ''/'' \<in> set p"
  by (auto simp: good_user_def getFileId_def split: option.splits)

lemma settles_cloud_to_file:
  assumes "held d s"
  shows "settles (\<exists>rank. reliable env rank) rd
           (cloud_to_file env keep d rd p (getFileId (user_of d s) p) q s)"
  using getFileId_slash [OF held_user(1) [OF assms], of p] assms
  unfolding cloud_to_file_def Let_def
  by (auto intro!: settles_calls settles_load dest: held_user(3) split: prod.splits bool.splits)

lemma settles_transfer:
  assumes "cloud_inv s"
  shows "settles (\<exists>rank. reliable env rank) rd (cloud_transfer env keep rd s)"
proof -
  obtain valid out where v: "validateInterProviderOperation env rd (c_world s) = (valid, out)" by fastforce
  have bad: "settles (\<exists>rank. reliable env rank) rd (Some (out, s))" if "\<not> valid"
    using validate_effects [OF v] that assms by (auto simp: settles_def)
  show ?thesis
    using bad unfolding cloud_transfer_def v Let_def
    by (auto intro!: settles_guarded [OF assms] settles_cloud_to_cloud settles_file_to_cloud
        settles_cloud_to_file simp: assms)
qed

lemma settles_tokenCloud:
  assumes "cloud_inv s"
  shows "settles (\<exists>rank. reliable env rank) rd (tokenCloud env rd s)"
proof -
  let ?c = "asString env (jget (payload_of rd) ''clientId'')"
  show ?thesis
  proof (cases "omap_find ?c (mClientIdDriveId s)")
    case (Some d)
    let ?s = "s\<lparr>mDriveIdSessionMap := omap_touch d (mDriveIdSessionMap s)\<rparr>"
    have i: "cloud_inv ?s" "omap_find d (mDriveIdSessionMap ?s) \<noteq> None"
      using assms Some by (auto simp: cloud_inv_def omap_touch_def om.find_put)
    have u: "good_user (user_of d ?s)" using i(1) by (simp add: cloud_inv_def)
    have "held d (set_user d (user_of d ?s\<lparr>mAuthParam := a, mCred := True\<rparr>) ?s)" for a
      using cloud_inv_set_user [OF i(1) good_user_parts(3) [OF u, of a] i(2)]
      by (simp add: held_def set_user_def om.find_put user_of_def)
    then show ?thesis
      using i(1) Some by (auto simp: tokenCloud_def Let_def simp del: user_of_simps intro!: settles_load)
  qed (use assms in \<open>simp add: tokenCloud_def Let_def\<close>)
qed

lemma settles_authenticateCloud:
  assumes "cloud_inv s"
  shows "settles (\<exists>rank. reliable env rank) rd (authenticateCloud env rd s)"
proof -
  let ?d = "asString env (jget (params rd) ''driveId'')"
  show ?thesis
  proof (cases "omap_find ?d (mDriveIdUserDataMap s)")
    case (Some u)
    have i: "omap_find ?d (mDriveIdSessionMap s) \<noteq> None" "good_user (user_of ?d s)"
      using assms Some by (auto simp: cloud_inv_def)
    have h: "held ?d (set_user ?d (user_of ?d s\<lparr>mAuthParam := a, mCred := True\<rparr>) s)" for a
      using cloud_inv_set_user [OF assms good_user_parts(3) [OF i(2), of a] i(1)]
      by (simp add: held_def set_user_def om.find_put user_of_def)
    have t: "held ?d (set_user ?d (user_of ?d s2\<lparr>mAuthParam := omap_touch k (mAuthParam (user_of ?d s2))\<rparr>) s2)"
      if "held ?d s2" for s2 k
      using that held_user [OF that] by (intro held_set_user good_user_parts) simp_all
    show ?thesis
      using Some held_user(3) [OF h] h
      by (auto simp: authenticateCloud_def Let_def intro!: settles_calls settles_load t dest: held_user(3))
  qed (use assms in \<open>simp add: authenticateCloud_def Let_def\<close>)
qed

lemma settles_attachCloud:
  assumes "cloud_inv s"
  shows "settles rel rd (attachCloud env rd s)"
proof -
  let ?c = "asString env (jget (payload_of rd) ''clientId'')"
  obtain d s1 where g: "generateDriveId s = (d, s1)" by fastforce
  have s1: "s1 = s\<lparr>drive_seq := drive_seq s + 1\<rparr>" using g by (auto simp: generateDriveId_def)
  let ?s2 = "s1\<lparr>mClientIdDriveId := omap_put ?c d (mClientIdDriveId s1),
                mDriveIdSessionMap := omap_put d (sessionId rd) (mDriveIdSessionMap s1)\<rparr>"
  define auth where "auth = omap_put ''client_secret'' (asString env (jget (payload_of rd) ''clientSecret''))
                              (omap_put ''client_id'' ?c [])"
  have "omap_at ''refresh_token'' auth = []"
    by (simp add: auth_def omap_at_put omap_at_def om.find_put om.find_clear del: omap_put.simps)
  then have u: "good_user (no_user\<lparr>mAuthParam := auth\<rparr>)"
    using good_no_user by (simp add: good_user_def no_user_def)
  let ?s3 = "set_user d (no_user\<lparr>mAuthParam := auth\<rparr>) ?s2"
  have "cloud_inv ?s3"
    using assms u by (auto simp: cloud_inv_def s1 set_user_def om.find_put user_of_def split: if_splits)
  then show ?thesis
    using assms by (auto simp: attachCloud_def Let_def g auth_def)
qed

lemma cloud_settles:
  assumes "cloud_inv s" "cloud_methods (methodType rd)"
  shows "settles (\<exists>rank. reliable env rank) rd (gdrive_handleRequests env rd s)"
  using assms settles_change_file [OF assms(1), of Files_Delete]
    settles_change_file [OF assms(1), of "\<lambda>i. Files_Patch i (asString env (jget (params rd) ''newName''))"]
  by (cases "methodType rd")
    (simp_all add: gdrive_handleRequests_def cloud_methods_def gdrive_extraMethod_def settles_attachCloud
      settles_authenticateCloud settles_tokenCloud settles_list settles_getProperties gdrive_copy_def
      gdrive_move_def settles_transfer gdrive_remove_def gdrive_rename_def
      gdrive_listStoragesMethod_def gdrive_eject_def Let_def)

lemma cloud_unsupported:
  "\<not> cloud_methods (methodType rd) \<Longrightarrow> gdrive_handleRequests env rd s = Some ([], s)"
  by (cases "methodType rd") (simp_all add: gdrive_handleRequests_def cloud_methods_def)

interpretation cloud_provider: document_provider "gdrive_handleRequests env" cloud_inv
  "\<lambda>rd. (\<exists>rank. reliable env rank) \<and> cloud_methods (methodType rd)"
  "\<lambda>rd. \<not> cloud_methods (methodType rd)"
proof unfold_locales
  fix s and rd :: request_data
  assume "cloud_inv s" "(\<exists>rank. reliable env rank) \<and> cloud_methods (methodType rd)"
  with cloud_settles [of s rd env]
  show "\<exists>es s'. gdrive_handleRequests env rd s = Some (es, s') \<and> es \<noteq> []
          \<and> (\<forall>e \<in> set es. answers_to rd e) \<and> cloud_inv s'"
    by (auto simp: settles_def split: option.splits)
qed (rule cloud_unsupported)

lemma cloud_inv_init: "cloud_inv (cloud_init w)"
  by (simp add: cloud_inv_def cloud_init_def user_of_def omap_find_def)

lemma cloud_inv_step:
  "gdrive_handleRequests env rd s = Some (es, s') \<Longrightarrow> cloud_inv s \<Longrightarrow> cloud_inv s'"
  using cloud_settles [of s rd env] cloud_unsupported [of rd env s]
  by (cases "cloud_methods (methodType rd)") (auto simp: settles_def)

lemma cloud_inv_run:
  "run_all (gdrive_handleRequests env) rds s = Some (es, s') \<Longrightarrow> cloud_inv s \<Longrightarrow> cloud_inv s'"
proof (induction rds arbitrary: s es)
  case (Cons rd rds)
  then show ?case by (auto dest: cloud_inv_step split: option.splits prod.splits)
qed simp

section \<open>What the methods leave alone\<close>

text \<open>The cloud works on the file system only, and calls no other service of the bus.\<close>

lemma world_set_user [simp]: "c_world (set_user d u s) = c_world s"
  by (simp add: set_user_def)

lemma world_lib_call [simp]: "c_world (snd (lib_call env d req s)) = c_world s"
  by (simp add: lib_call_def Let_def split: prod.splits)

lemma world_load: "loadFileIds env d s = Some r \<Longrightarrow> c_world (snd r) = c_world s"
  unfolding loadFileIds_def
  by (erule getChildren_keeps [where P = "\<lambda>s'. c_world s' = c_world s"])
    (simp_all add: slashed_def put_file_id_def Let_def)

definition just_replies :: "(string, string) omap \<Rightarrow> cloud_result \<Rightarrow> bool" where
  "just_replies tab res \<longleftrightarrow>
     (case res of None \<Rightarrow> True | Some (es, s) \<Rightarrow> list_all is_reply es \<and> w_samba (c_world s) = tab)"

lemma just_replies_simps [simp]:
  "just_replies tab None" "just_replies tab (Some (es, s)) \<longleftrightarrow> list_all is_reply es \<and> w_samba (c_world s) = tab"
  by (simp_all add: just_replies_def)

lemma just_replies_attempt:
  "\<lbrakk>w_samba (c_world (snd r)) = tab; \<And>x s. w_samba (c_world s) = tab \<Longrightarrow> just_replies tab (k x s)\<rbrakk>
   \<Longrightarrow> just_replies tab (attempt r k)"
  by (cases r; cases "fst r") (auto simp: attempt_def)

lemma just_replies_load: "w_samba (c_world s) = tab \<Longrightarrow> just_replies tab (answer_and_load env d rd j s)"
  using world_load [of env d s] by (cases "loadFileIds env d s") (auto simp: answer_and_load_def)

lemma world_calls:
  "call_file env d req s = (x, s') \<Longrightarrow> c_world s' = c_world s"
  "call_about env d s = (y, s') \<Longrightarrow> c_world s' = c_world s"
  using snd_calls(2) [of env d req s] snd_calls(3) [of env d s] by auto

lemma world_list_entries: "c_world (snd (list_entries env d es acc s)) = c_world s"
  by (induction env d es acc s rule: list_entries.induct) (auto dest!: world_calls split: prod.splits option.splits)

lemma world_guard: "drive_guard d rd s = (r, s') \<Longrightarrow> c_world s' = c_world s"
  by (auto simp: drive_guard_def Let_def split: if_splits option.splits)

lemmas replies_intros = just_replies_attempt just_replies_load

lemma just_replies_extra: "just_replies (w_samba (c_world s)) (gdrive_extraMethod env rd s)"
  by (auto simp: gdrive_extraMethod_def attachCloud_def authenticateCloud_def tokenCloud_def generateDriveId_def Let_def
      intro!: replies_intros split: option.splits)

lemma just_replies_list: "just_replies (w_samba (c_world s)) (gdrive_list env rd s)"
  by (auto simp: gdrive_list_def Let_def world_list_entries dest!: world_guard world_load
      intro!: replies_intros split: option.splits prod.splits bool.splits)

lemma just_replies_properties: "just_replies (w_samba (c_world s)) (gdrive_getProperties env rd s)"
  by (auto simp: gdrive_getProperties_def Let_def dest!: world_guard intro!: replies_intros split: option.splits prod.splits)

lemma just_replies_change: "just_replies (w_samba (c_world s)) (change_file env req status rd s)"
  by (auto simp: change_file_def Let_def dest!: world_guard intro!: replies_intros split: option.splits prod.splits)

lemma just_replies_cloud_to_cloud: "w_samba (c_world s) = tab \<Longrightarrow> just_replies tab (cloud_to_cloud env keep d rd i j s)"
  by (auto simp: cloud_to_cloud_def intro!: replies_intros)

lemma just_replies_file_to_cloud: "w_samba (c_world s) = tab \<Longrightarrow> just_replies tab (file_to_cloud env keep d rd path j s)"
  by (auto simp: file_to_cloud_def Let_def intro!: replies_intros split: option.splits)

lemma just_replies_cloud_to_file:
  "w_samba (c_world s) = tab \<Longrightarrow> just_replies tab (cloud_to_file env keep d rd path i dest s)"
  unfolding cloud_to_file_def Let_def
  by (auto intro!: replies_intros split: prod.splits bool.splits)

lemma just_replies_transfer: "just_replies (w_samba (c_world s)) (cloud_transfer env keep rd s)"
proof -
  note ways = just_replies_cloud_to_cloud just_replies_file_to_cloud just_replies_cloud_to_file
  obtain valid out where v: "validateInterProviderOperation env rd (c_world s) = (valid, out)" by fastforce
  show ?thesis
    using validate_replies [OF v]
    by (simp add: cloud_transfer_def v Let_def ways world_guard split: prod.split option.split)
qed

lemma gdrive_just_replies: "just_replies (w_samba (c_world s)) (gdrive_handleRequests env rd s)"
  by (cases "methodType rd") (simp_all add: gdrive_handleRequests_def just_replies_extra just_replies_list
      just_replies_properties just_replies_change just_replies_transfer gdrive_copy_def gdrive_move_def
      gdrive_remove_def gdrive_rename_def gdrive_listStoragesMethod_def gdrive_eject_def Let_def)

section \<open>Properties\<close>

text \<open>A library that answers everything and shows an empty drive.\<close>

fun calm_answer :: "g_request \<Rightarrow> g_answer" where
  "calm_answer (Children_Listall i) = Ids []"
| "calm_answer (Files_Get i added) = AFile \<lparr>g_id = i, g_title = ''a'', g_mimeType = [], g_fileSize = 0,
     g_downloadUrl = ''u'', g_exportLinks = []\<rparr>"
| "calm_answer About_Get = Quota 0 0"
| "calm_answer (Download url) = Content []"
| "calm_answer (Build_Credential i sec code) = Built True"
| "calm_answer req = Done"

definition calm_cloud :: cloud_env where
  "calm_cloud =
     \<lparr>dom_parse = (\<lambda>s. None), schema_ok = conforms, conv_string = (\<lambda>j. []), conv_int = (\<lambda>j. 0),
      conv_bool = (\<lambda>j. False), read_fault = (\<lambda>q fs. False), write_fault = (\<lambda>u fs. None),
      dir_denied = (\<lambda>p fs. False), disk_space = (\<lambda>p fs. (8000000000, 2000000000, 1000000000)),
      fresh_meta = root_meta, popen_cmd = (\<lambda>c fs. Some fs), mount_cifs = (\<lambda>s p d fs. Some fs),
      umount_force = (\<lambda>p fs. Some fs), g_call = (\<lambda>k req auth. (Some (calm_answer req), auth)),
      authorize_url = (\<lambda>i sec. ''https://accounts'')\<rparr>"

lemma calm_cloud_reliable: "reliable calm_cloud (\<lambda>i. 0)"
proof -
  have "fits req (calm_answer req)" for req by (cases req) simp_all
  then show ?thesis by (simp add: reliable_def calm_cloud_def)
qed

text \<open>One drive of the session root, with its tokens.\<close>

definition one_drive :: cloud_state where
  "one_drive = (cloud_init empty_world)
     \<lparr>mDriveIdUserDataMap := [(''GDRIVE_1'', \<lparr>mFileIds = [(''/'', ''root''), (''/a'', ''f1'')],
        mAuthParam = [(''refresh_token'', ''t'')], mCred = True\<rparr>)],
      mDriveIdSessionMap := [(''GDRIVE_1'', ''root'')], mClientIdDriveId := [(''c'', ''GDRIVE_1'')],
      drive_seq := 1\<rparr>"

text \<open>
  Left alone in any reachable state, the cloud provider's thread empties its queue and
  answers every request of its methods, to its own client, when the Google Drive library answers
  its calls and no folder of a drive lies in itself.
\<close>

theorem cloud_requests_answered:
  assumes "reliable env rank" "disp_reach (gdrive_handleRequests env) (cloud_init w) d"
    and "\<not> mQuit d" "mThread d = Waiting"
  shows "\<exists>d'. drain (gdrive_handleRequests env) (2 * length (mQueue d)) d = Some d' \<and> mQueue d' = []
     \<and> run_all (gdrive_handleRequests env) (submitted d) (cloud_init w) = Some (emitted d', mState d')
     \<and> (\<forall>rd \<in> {r \<in> set (submitted d). cloud_methods (methodType r)}.
           \<exists>e \<in> set (emitted d'). answers_to rd e)
     \<and> (\<forall>e \<in> set (emitted d'). \<exists>rd \<in> set (submitted d). answers_to rd e)"
proof -
  have r: "\<exists>rank. reliable env rank" using assms(1) by blast
  then have "\<forall>rd \<in> set (submitted d). ((\<exists>rank. reliable env rank) \<and> cloud_methods (methodType rd))
      \<or> \<not> cloud_methods (methodType rd)" by blast
  from cloud_provider.drain_answers [OF assms(2-4) cloud_inv_init this] r show ?thesis by auto
qed

theorem cloud_requests_answered_witness:
  "\<exists>d'. drain (gdrive_handleRequests calm_cloud) 2
          (addRequest (sample_request LIST_METHOD jobject) (dispatcher_init (cloud_init empty_world))) = Some d'
      \<and> (\<exists>e \<in> set (emitted d'). answers_to (sample_request LIST_METHOD jobject) e)"
proof -
  let ?rd = "sample_request LIST_METHOD jobject"
  let ?d = "addRequest ?rd (dispatcher_init (cloud_init empty_world))"
  have d: "mQueue ?d = [?rd]" "submitted ?d = [?rd]" "\<not> mQuit ?d" "mThread ?d = Waiting"
    by (simp_all add: addRequest_def dispatcher_init_def)
  have "cloud_methods (methodType ?rd)" by (simp add: sample_request_def cloud_methods_def)
  then show ?thesis
    using cloud_requests_answered
      [OF calm_cloud_reliable reach_one [of "gdrive_handleRequests calm_cloud" _ ?rd] d(3,4)] d
    by auto
qed

text \<open>
  In every reachable state of the cloud provider each drive has the session it belongs
  to, each client id has a drive that exists, and a drive with a refresh token has a credential:
  no call of the library goes through a null pointer.
\<close>

theorem cloud_tables_in_step:
  assumes "disp_reach (gdrive_handleRequests env) (cloud_init w) d"
  shows "(\<forall>i. omap_find i (mDriveIdUserDataMap (mState d)) \<noteq> None
            \<longrightarrow> omap_find i (mDriveIdSessionMap (mState d)) \<noteq> None)
     \<and> (\<forall>c i. omap_find c (mClientIdDriveId (mState d)) = Some i
            \<longrightarrow> omap_find i (mDriveIdUserDataMap (mState d)) \<noteq> None)
     \<and> (\<forall>i u. omap_find i (mDriveIdUserDataMap (mState d)) = Some u
            \<longrightarrow> omap_at ''refresh_token'' (mAuthParam u) \<noteq> [] \<longrightarrow> mCred u)"
proof -
  obtain rds where "run_all (gdrive_handleRequests env) rds (cloud_init w) = Some (emitted d, mState d)"
    using disp_inv_reach [OF assms] by (auto simp: disp_inv_def)
  then have i: "cloud_inv (mState d)" using cloud_inv_run cloud_inv_init by blast
  then have "\<forall>i u. omap_find i (mDriveIdUserDataMap (mState d)) = Some u \<longrightarrow> good_user u"
    by (metis cloud_inv_def option.case(2) user_of_def)
  with i show ?thesis by (auto simp: cloud_inv_def good_user_def)
qed

text \<open>A login that was queued and handled.\<close>

definition login_call :: json where
  "login_call = JObj [(''operation'', JObj [(''type'', JStr ''login''),
     (''payload'', JObj [(''clientId'', JStr ''c''), (''clientSecret'', JStr ''x'')])])]"

lemma login_reached:
  "\<exists>d. disp_reach (gdrive_handleRequests calm_cloud) (cloud_init empty_world) d
     \<and> omap_find ''c'' (mClientIdDriveId (mState d)) = Some ''GDRIVE_1''"
proof -
  let ?rd = "sample_request EXTRA_METHOD login_call"
  have "int_str 1 = ''1''" by code_simp
  then obtain es s where "gdrive_handleRequests calm_cloud ?rd (cloud_init empty_world) = Some (es, s)"
    "omap_find ''c'' (mClientIdDriveId s) = Some ''GDRIVE_1''"
    by (simp add: gdrive_handleRequests_def gdrive_extraMethod_def sample_request_def login_call_def
        gdrive_validateExtraCommand_def payload_of_def jget_def hasKey_def asString_def attachCloud_def
        cloud_init_def generateDriveId_def omap_find_def set_user_def GDRIVE_NAME_def Let_def)
  with reach_handled [of "gdrive_handleRequests calm_cloud" ?rd "cloud_init empty_world" es s] show ?thesis by blast
qed

theorem cloud_tables_in_step_witness:
  "\<exists>d. disp_reach (gdrive_handleRequests calm_cloud) (cloud_init empty_world) d
     \<and> omap_find ''GDRIVE_1'' (mDriveIdSessionMap (mState d)) \<noteq> None"
  using login_reached cloud_tables_in_step [of calm_cloud empty_world] by (metis option.distinct(1))

text \<open>The drive a request names.\<close>

definition named_drive :: "'a pbn_scheme \<Rightarrow> request_data \<Rightarrow> string" where
  "named_drive pf rd =
     asString pf (jget (params rd)
       (if methodType rd \<in> {COPY_METHOD, MOVE_METHOD}
        then (if asString pf (jget (params rd) ''srcStorageType'') = ''cloud'' then ''srcDriveId'' else ''destDriveId'')
        else ''driveId''))"

lemma drive_guard_other:
  assumes "omap_find d (mDriveIdSessionMap s) = Some owner" "owner \<noteq> sessionId rd"
  shows "\<exists>e. drive_guard d rd s = (Some e, s) \<and> jget e ''returnValue'' \<noteq> JBool True"
  using assms
  by (auto simp: drive_guard_def Let_def omap_at_def omap_touch_def no_such_drive_def cloud_error_reply_def
      error_object_def jget_def)

text \<open>
  C11: A cloud drive belongs to the session that logged in. A list, getProperties, remove,
  rename, copy or move from any other session is refused, and changes neither the drive nor the
  tables nor a file.
\<close>

theorem cloud_drive_of_other_session:
  assumes "omap_find (named_drive env rd) (mDriveIdSessionMap s) = Some owner" "owner \<noteq> sessionId rd"
    and "methodType rd \<in> {LIST_METHOD, GET_PROP_METHOD, REMOVE_METHOD, RENAME_METHOD, COPY_METHOD, MOVE_METHOD}"
  shows "\<exists>es. gdrive_handleRequests env rd s = Some (es, s) \<and> es \<noteq> []
           \<and> (\<forall>e \<in> set es. \<exists>j. e = Reply rd j \<and> jget j ''returnValue'' \<noteq> JBool True)"
proof -
  obtain e where g: "drive_guard (named_drive env rd) rd s = (Some e, s)" "jget e ''returnValue'' \<noteq> JBool True"
    using drive_guard_other [OF assms(1,2)] by blast
  obtain valid out where v: "validateInterProviderOperation env rd (c_world s) = (valid, out)" by fastforce
  have o: "\<not> valid \<Longrightarrow> \<forall>e \<in> set out. \<exists>j. e = Reply rd j \<and> jget j ''returnValue'' \<noteq> JBool True"
    using v by (auto simp: validateInterProviderOperation_def Let_def error_object_def jget_def split: if_splits)
  have u: "jget (jputs [(''errorCode'', JNum x), (''errorText'', JStr y)] jobject) ''returnValue'' \<noteq> JBool True" for x y
    by (simp add: jget_def)
  from assms(3) g validate_effects(1) [OF v] o v u show ?thesis
    by (auto simp: gdrive_handleRequests_def gdrive_list_def gdrive_getProperties_def gdrive_remove_def
        gdrive_rename_def change_file_def gdrive_copy_def gdrive_move_def cloud_transfer_def named_drive_def Let_def)
qed

theorem cloud_drive_of_other_session_witness:
  "\<exists>es. gdrive_handleRequests calm_cloud
     ((sample_request REMOVE_METHOD (JObj [(''driveId'', JStr ''GDRIVE_1''), (''path'', JStr ''/a'')]))
        \<lparr>sessionId := ''guest''\<rparr>) one_drive = Some (es, one_drive) \<and> es \<noteq> []"
proof -
  let ?rd = "(sample_request REMOVE_METHOD (JObj [(''driveId'', JStr ''GDRIVE_1''), (''path'', JStr ''/a'')]))
        \<lparr>sessionId := ''guest''\<rparr>"
  have "omap_find (named_drive calm_cloud ?rd) (mDriveIdSessionMap one_drive) = Some ''root''"
    by (simp add: named_drive_def sample_request_def one_drive_def jget_def asString_def omap_find_def)
  from cloud_drive_of_other_session [OF this] show ?thesis by (auto simp: sample_request_def)
qed

section \<open>Pages and folders\<close>

lemma map_snd_filter_zip:
  "map snd (filter (\<lambda>p. Q (fst p)) (zip [0 .. int (length xs) - 1] xs)) =
     map (\<lambda>i. xs ! nat i) (filter Q [0 .. int (length xs) - 1])"
proof (induction xs rule: rev_induct)
  case (snoc x xs)
  have u: "[0 .. int (length (xs @ [x])) - 1] = [0 .. int (length xs) - 1] @ [int (length xs)]"
    by (simp add: upto_rec2)
  have "map (\<lambda>i. (xs @ [x]) ! nat i) (filter Q [0 .. int (length xs) - 1]) =
      map (\<lambda>i. xs ! nat i) (filter Q [0 .. int (length xs) - 1])"
    by (intro map_cong) (auto simp: nth_append nat_less_iff)
  with snoc show ?case unfolding u by simp
qed simp

lemma filter_upto:
  assumes "\<And>i. a \<le> i \<Longrightarrow> i < b \<Longrightarrow> 0 \<le> i \<and> i < n"
  shows "filter (\<lambda>i. a \<le> i \<and> i < b) [0 .. n - 1] = [a .. b - 1]"
  by (rule sorted_distinct_set_unique) (use assms in \<open>auto simp: sorted_wrt_filter\<close>)

text \<open>
  The paging loop of the cloud provider, which runs over the whole map and skips what lies
  outside, gives the same page as the index loop of the other providers.
\<close>

theorem cloud_page_is_page:
  assumes "length xs < 2 ^ 31 - 1"
  shows "cloud_page xs offset limit = page xs offset limit"
proof -
  obtain s e where b: "page_bounds (length xs) offset limit = (s, e)" by fastforce
  have c: "0 \<le> i \<and> i < int (length xs)" if "sint s \<le> i" "i < sint e" for i
  proof -
    have "i \<in> set (page_indices (length xs) offset limit)" using that by (simp add: page_indices_def b)
    then show ?thesis unfolding page_indices_eq [OF assms] by (auto simp: Let_def split: if_splits)
  qed
  from filter_upto [of "sint s" "sint e" "int (length xs)", OF c] show ?thesis
    by (simp add: cloud_page_def page_def page_indices_def b
        map_snd_filter_zip [of "\<lambda>i. sint s \<le> i \<and> i < sint e" xs])
qed

theorem cloud_page_is_page_witness: "cloud_page [''a'', ''b'', ''c''] 2 1 = page [''a'', ''b'', ''c''] 2 1"
  by (rule cloud_page_is_page) simp

lemma getFileMap_below:
  assumes "p \<noteq> []" "prefix p q"
  shows "(q, i) \<in> set (getFileMap u p) \<longleftrightarrow>
     (q, i) \<in> set (mFileIds u) \<and> q \<noteq> p \<and> CHR ''/'' \<notin> set (drop (length p + 1) q)"
proof -
  have "str_find p q = Some 0" using assms(2) by (simp only: str_find_prefix)
  with assms(1) show ?thesis by (auto simp: getFileMap_def simp del: str_find_prefix)
qed

text \<open>
  A listing of a folder holds every file directly in it and nothing from deeper below;
  but it also holds each neighbour whose path only continues the folder's name.
\<close>

theorem cloud_folder_listing:
  assumes "p \<noteq> []" "n \<noteq> []" "CHR ''/'' \<notin> set n"
  shows "((p @ ''/'' @ n, i) \<in> set (getFileMap u p) \<longleftrightarrow> (p @ ''/'' @ n, i) \<in> set (mFileIds u))
     \<and> (p @ ''/'' @ n @ ''/'' @ m, i) \<notin> set (getFileMap u p)
     \<and> ((p @ n, i) \<in> set (getFileMap u p) \<longleftrightarrow> (p @ n, i) \<in> set (mFileIds u))"
proof -
  have "CHR ''/'' \<notin> set (drop 1 n)" using assms(3) by (meson in_set_dropD)
  with assms show ?thesis by (simp add: getFileMap_below)
qed

theorem cloud_folder_listing_witness:
  "(''/docs2'', ''id2'') \<in> set (getFileMap
     \<lparr>mFileIds = [(''/docs'', ''id1''), (''/docs/a'', ''id3''), (''/docs2'', ''id2'')], mAuthParam = [], mCred = True\<rparr>
     ''/docs'')"
  using cloud_folder_listing [of "''/docs''" "''2''" "''id2''" "\<lparr>mFileIds = [(''/docs'', ''id1''),
     (''/docs/a'', ''id3''), (''/docs2'', ''id2'')], mAuthParam = [], mCred = True\<rparr>" "[]"]
  by simp

text \<open>
  An authenticate leaves the same state whatever session it comes from: any client that
  knows the id of a drive can put its own tokens into it.
\<close>

theorem cloud_login_ignores_session:
  "map_option snd (authenticateCloud env (rd\<lparr>sessionId := other\<rparr>) s) =
   map_option snd (authenticateCloud env rd s)"
proof -
  have l: "map_option snd (answer_and_load env d (rd\<lparr>sessionId := other\<rparr>) j s) =
      map_option snd (answer_and_load env d rd j' s)" for d j j' s
    by (simp add: answer_and_load_def option.map_comp comp_def case_prod_unfold)
  show ?thesis
    by (auto simp: authenticateCloud_def Let_def payload_of_def attempt_def l split: prod.splits option.splits)
qed

end
