(* ===== verification/Saf_Drive_Walk.thy ===== *)
theory Saf_Drive_Walk
  imports Saf_Cloud
begin

text \<open>
  The ids loadFileIds collects, against a drive given as a tree: the walk with its stack adds the
  paths of the tree in preorder.
\<close>

section \<open>What the walk finds\<close>

text \<open>A drive as a tree, the paths of its files in the order of the walk, and a library that shows it.\<close>

datatype drive_node = Node (node_id: string) (node_title: string) (node_kids: "drive_node list")

primrec node_paths :: "string \<Rightarrow> drive_node \<Rightarrow> (string \<times> string) list" where
  "node_paths p (Node i t ks) = (p @ t, i) # concat (map (node_paths (p @ t @ ''/'')) ks)"

definition drive_paths :: "drive_node list \<Rightarrow> (string \<times> string) list" where
  "drive_paths ks = (''/'', ''root'') # concat (map (node_paths ''/'') ks)"

text \<open>What the library answers about a folder's children, about a file, and about a tree.\<close>

definition lists_kids :: "'a cloud_env_scheme \<Rightarrow> string \<Rightarrow> drive_node list \<Rightarrow> bool" where
  "lists_kids env i ks \<longleftrightarrow> (\<forall>k auth. fst (g_call env k (Children_Listall i) auth) = Some (Ids (map node_id ks)))"

definition shows_node :: "'a cloud_env_scheme \<Rightarrow> drive_node \<Rightarrow> bool" where
  "shows_node env n \<longleftrightarrow>
     lists_kids env (node_id n) (node_kids n)
     \<and> (\<forall>k auth. \<exists>f. fst (g_call env k (Files_Get (node_id n) ''id,title'') auth) = Some (AFile f)
          \<and> g_id f = node_id n \<and> g_title f = node_title n)"

primrec shows_tree :: "'a cloud_env_scheme \<Rightarrow> drive_node \<Rightarrow> bool" where
  "shows_tree env (Node i t ks) \<longleftrightarrow> shows_node env (Node i t ks) \<and> list_all (shows_tree env) ks"

definition put_all :: "(string \<times> string) list \<Rightarrow> (string, string) omap \<Rightarrow> (string, string) omap" where
  "put_all es m = fold (\<lambda>e. omap_put (fst e) (snd e)) es m"

lemma put_all_simps [simp]: "put_all [] m = m" "put_all (e # es) m = put_all es (omap_put (fst e) (snd e) m)"
  "put_all (es @ es') m = put_all es' (put_all es m)"
  by (simp_all add: put_all_def)

lemma find_put_all: "omap_find k (put_all es m) = (case map_of (rev es) k of Some v \<Rightarrow> Some v | None \<Rightarrow> omap_find k m)"
  by (induction es arbitrary: m) (auto simp: om.find_put map_add_def split: option.splits)

lemma lib_call_ids [simp]: "mFileIds (user_of d (snd (lib_call env d req s))) = mFileIds (user_of d s)"
  "mCred (user_of d (snd (lib_call env d req s))) = mCred (user_of d s)"
  by (simp_all add: lib_call_def Let_def split: prod.splits)

lemma put_file_id_user [simp]:
  "mFileIds (user_of d (put_file_id d p i s)) = omap_put p i (mFileIds (user_of d s))"
  "mCred (user_of d (put_file_id d p i s)) = mCred (user_of d s)"
  by (simp_all add: put_file_id_def Let_def)

lemma lib_call_shown:
  assumes "mCred (user_of d s)" "\<And>k auth. \<exists>a. fst (g_call env k req auth) = Some a \<and> P a"
  shows "\<exists>a. fst (lib_call env d req s) = Some a \<and> P a"
proof -
  obtain x auth where g: "g_call env (g_calls s) req (mAuthParam (user_of d s)) = (x, auth)" by fastforce
  with assms(2) [of "g_calls s" "mAuthParam (user_of d s)"] show ?thesis
    using assms(1) by (auto simp: lib_call_def Let_def)
qed

lemma shown_kids:
  assumes "lists_kids env i ks" "mCred (user_of d s)"
  shows "call_ids env d (Children_Listall i) s = (Some (map node_id ks), snd (lib_call env d (Children_Listall i) s))"
proof -
  have "fst (lib_call env d (Children_Listall i) s) = Some (Ids (map node_id ks))"
    using lib_call_shown [OF assms(2), of env "Children_Listall i" "\<lambda>a. a = Ids (map node_id ks)"] assms(1)
    by (auto simp: lists_kids_def)
  then show ?thesis by (auto simp: call_ids_def split: prod.splits)
qed

lemma shown_file:
  assumes "shows_node env n" "mCred (user_of d s)"
  shows "\<exists>f. call_file env d (Files_Get (node_id n) ''id,title'') s =
           (Some f, snd (lib_call env d (Files_Get (node_id n) ''id,title'') s))
         \<and> g_id f = node_id n \<and> g_title f = node_title n"
proof -
  have "\<exists>a. fst (lib_call env d (Files_Get (node_id n) ''id,title'') s) = Some a
      \<and> (\<exists>f. a = AFile f \<and> g_id f = node_id n \<and> g_title f = node_title n)"
    by (rule lib_call_shown [OF assms(2)]) (use assms(1) in \<open>unfold shows_node_def, blast\<close>)
  then show "\<exists>f. call_file env d (Files_Get (node_id n) ''id,title'') s =
      (Some f, snd (lib_call env d (Files_Get (node_id n) ''id,title'') s))
      \<and> g_id f = node_id n \<and> g_title f = node_title n"
    by (auto simp: call_file_def split: prod.splits)
qed

text \<open>A part of the stack adds its paths to the ids and then goes on with the rest.\<close>

definition adds :: "'a cloud_env_scheme \<Rightarrow> string \<Rightarrow> drive_visit list \<Rightarrow> (string \<times> string) list \<Rightarrow> bool" where
  "adds env d todo es \<longleftrightarrow>
     (\<forall>rest s. mCred (user_of d s) \<longrightarrow>
        (\<exists>s'. getChildren env d (todo @ rest) s = getChildren env d rest s' \<and> mCred (user_of d s')
            \<and> mFileIds (user_of d s') = put_all es (mFileIds (user_of d s))))"

lemma adds_nil: "adds env d [] []"
  by (auto simp: adds_def)

lemma adds_append:
  assumes "adds env d xs es" "adds env d ys fs"
  shows "adds env d (xs @ ys) (es @ fs)"
  unfolding adds_def
proof (intro allI impI)
  fix rest s assume c: "mCred (user_of d s)"
  obtain s1 where s1: "getChildren env d (xs @ ys @ rest) s = getChildren env d (ys @ rest) s1"
    "mCred (user_of d s1)" "mFileIds (user_of d s1) = put_all es (mFileIds (user_of d s))"
    using assms(1) c unfolding adds_def by blast
  obtain s2 where "getChildren env d (ys @ rest) s1 = getChildren env d rest s2"
    "mCred (user_of d s2)" "mFileIds (user_of d s2) = put_all fs (mFileIds (user_of d s1))"
    using assms(2) s1(2) unfolding adds_def by blast
  with s1 show "\<exists>s'. getChildren env d ((xs @ ys) @ rest) s = getChildren env d rest s' \<and> mCred (user_of d s')
      \<and> mFileIds (user_of d s') = put_all (es @ fs) (mFileIds (user_of d s))"
    by auto
qed

lemma adds_child:
  assumes n: "shows_node env n"
    and "adds env d [Folder (node_id n) (p @ node_title n @ ''/'')] es"
  shows "adds env d [Child (node_id n) p] ((p @ node_title n, node_id n) # es)"
  unfolding adds_def
proof (intro allI impI)
  fix rest s assume c: "mCred (user_of d s)"
  let ?i = "node_id n"
  let ?s = "put_file_id d (p @ node_title n) ?i (snd (lib_call env d (Files_Get ?i ''id,title'') s))"
  have "getChildren env d ([Child ?i p] @ rest) s =
      getChildren env d ([Folder ?i (p @ node_title n @ ''/'')] @ rest) ?s"
    using shown_file [OF n c] by (subst getChildren.simps) auto
  moreover have "mCred (user_of d ?s)" using c by simp
  ultimately show "\<exists>s'. getChildren env d ([Child ?i p] @ rest) s = getChildren env d rest s'
      \<and> mCred (user_of d s')
      \<and> mFileIds (user_of d s') = put_all ((p @ node_title n, ?i) # es) (mFileIds (user_of d s))"
    using assms(2) unfolding adds_def by fastforce
qed

lemma adds_childs:
  assumes "\<And>n p. n \<in> set ks \<Longrightarrow> adds env d [Child (node_id n) p] (node_paths p n)"
  shows "adds env d (map (\<lambda>c. Child c p) (map node_id ks)) (concat (map (node_paths p) ks))"
  using assms
proof (induction ks)
  case (Cons n ks)
  then have "adds env d ([Child (node_id n) p] @ map (\<lambda>c. Child c p) (map node_id ks))
      (node_paths p n @ concat (map (node_paths p) ks))"
    by (intro adds_append) simp_all
  then show ?case by simp
qed (simp add: adds_nil)

lemma adds_folder:
  assumes "lists_kids env i ks"
    and "adds env d (map (\<lambda>c. Child c p) (map node_id ks)) es"
  shows "adds env d [Folder i p] es"
  unfolding adds_def
proof (intro allI impI)
  fix rest s assume c: "mCred (user_of d s)"
  let ?s = "snd (lib_call env d (Children_Listall i) s)"
  have "getChildren env d ([Folder i p] @ rest) s =
      getChildren env d (map (\<lambda>c. Child c p) (map node_id ks) @ rest) ?s"
    using shown_kids [OF assms(1) c] by (subst getChildren.simps) simp
  moreover have "mCred (user_of d ?s)" using c by simp
  ultimately show "\<exists>s'. getChildren env d ([Folder i p] @ rest) s = getChildren env d rest s'
      \<and> mCred (user_of d s') \<and> mFileIds (user_of d s') = put_all es (mFileIds (user_of d s))"
    using assms(2) unfolding adds_def by fastforce
qed

lemma adds_tree: "shows_tree env n \<Longrightarrow> adds env d [Child (node_id n) p] (node_paths p n)"
proof (induction n arbitrary: p)
  case (Node i t ks)
  have "adds env d (map (\<lambda>c. Child c q) (map node_id ks)) (concat (map (node_paths q) ks))" for q
    using Node by (intro adds_childs) (auto simp: list_all_iff)
  then show ?case using Node.prems adds_child [of env "Node i t ks" d p] adds_folder [of env i ks d]
    by (simp add: shows_node_def)
qed

lemma load_tree:
  assumes "lists_kids env ''root'' ks" "list_all (shows_tree env) ks" "mCred (user_of d s)"
  shows "\<exists>s'. loadFileIds env d s = Some (True, s')
           \<and> mFileIds (user_of d s') = put_all (drive_paths ks) []"
proof -
  have "adds env d (map (\<lambda>c. Child c ''/'') (map node_id ks)) (concat (map (node_paths ''/'') ks))"
    using assms(2) by (intro adds_childs adds_tree) (simp add: list_all_iff)
  then have a: "adds env d [Folder ''root'' ''/''] (concat (map (node_paths ''/'') ks))"
    using assms(1) adds_folder [of env "''root''" ks d "''/''"] by simp
  let ?s = "set_user d ((user_of d s)\<lparr>mFileIds := omap_put ''/'' ''root'' []\<rparr>) s"
  have "mCred (user_of d ?s)" "mFileIds (user_of d ?s) = omap_put ''/'' ''root'' []"
    using assms(3) by simp_all
  then obtain s' where "getChildren env d ([Folder ''root'' ''/''] @ []) ?s = getChildren env d [] s'"
    "mFileIds (user_of d s') = put_all (concat (map (node_paths ''/'') ks)) (omap_put ''/'' ''root'' [])"
    using a unfolding adds_def by metis
  then show ?thesis by (auto simp: loadFileIds_def getChildren.simps drive_paths_def)
qed

section \<open>Properties of the walk\<close>

text \<open>
  When every folder lists something, as folders do that contain each other, loading the
  ids of a drive never returns.
\<close>

theorem cloud_cycle_never_ends:
  assumes "\<And>k i auth. \<exists>x xs. fst (g_call env k (Children_Listall i) auth) = Some (Ids (x # xs))"
    and "\<And>k i auth. \<exists>f. fst (g_call env k (Files_Get i ''id,title'') auth) = Some (AFile f)"
    and "mCred (user_of d s)"
  shows "loadFileIds env d s = None"
proof (rule ccontr)
  let ?P = "\<lambda>env' d todo s (r :: bool \<times> cloud_state). \<not> (env' = env \<and> mCred (user_of d s) \<and> todo \<noteq> [])"
  assume "loadFileIds env d s \<noteq> None"
  then obtain r where ret: "getChildren env d [Folder ''root'' ''/'']
       (set_user d ((user_of d s)\<lparr>mFileIds := omap_put ''/'' ''root'' []\<rparr>) s) = Some r"
    by (auto simp: loadFileIds_def)
  have "?P env d [Folder ''root'' ''/''] (set_user d ((user_of d s)\<lparr>mFileIds := omap_put ''/'' ''root'' []\<rparr>) s) r"
  proof (rule getChildren.raw_induct [where P = ?P, OF _ ret])
    fix f env' d todo s r
    assume IH: "\<And>env' d todo s r. f env' d todo s = Some r \<Longrightarrow> ?P env' d todo s r"
      and eq: "(case todo of
        [] \<Rightarrow> Some (True, s)
      | Folder fileId parentPath # rest \<Rightarrow>
          (case call_ids env' d (Children_Listall fileId) s of
             (None, s1) \<Rightarrow> Some (False, s1)
           | (Some childs, s1) \<Rightarrow> f env' d (map (\<lambda>c. Child c parentPath) childs @ rest) s1)
      | Child c parentPath # rest \<Rightarrow>
          (case call_file env' d (Files_Get c ''id,title'') s of
             (None, s1) \<Rightarrow> Some (False, s1)
           | (Some fl, s1) \<Rightarrow>
               f env' d (Folder (g_id fl) (parentPath @ g_title fl @ ''/'') # rest)
                 (put_file_id d (parentPath @ g_title fl) (g_id fl) s1))) = Some r"
    show "?P env' d todo s r"
    proof
      assume a: "env' = env \<and> mCred (user_of d s) \<and> todo \<noteq> []"
      then obtain v rest where t: "todo = v # rest" by (cases todo) auto
      show False
      proof (cases v)
        case (Folder i p)
        obtain x xs where "call_ids env d (Children_Listall i) s =
            (Some (x # xs), snd (lib_call env d (Children_Listall i) s))"
          using lib_call_shown [of d s env "Children_Listall i" "\<lambda>a. \<exists>x xs. a = Ids (x # xs)"] assms(1) a
          by (fastforce simp: call_ids_def split: prod.splits)
        with eq t Folder a have "f env d (map (\<lambda>c. Child c p) (x # xs) @ rest)
            (snd (lib_call env d (Children_Listall i) s)) = Some r" by simp
        from IH [OF this] a show False by simp
      next
        case (Child c p)
        obtain fl where "call_file env d (Files_Get c ''id,title'') s =
            (Some fl, snd (lib_call env d (Files_Get c ''id,title'') s))"
          using lib_call_shown [of d s env "Files_Get c ''id,title''" "\<lambda>a. \<exists>f. a = AFile f"] assms(2) a
          by (fastforce simp: call_file_def split: prod.splits)
        with eq t Child a have "f env d (Folder (g_id fl) (p @ g_title fl @ ''/'') # rest)
            (put_file_id d (p @ g_title fl) (g_id fl) (snd (lib_call env d (Files_Get c ''id,title'') s))) = Some r"
          by simp
        from IH [OF this] a show False by simp
      qed
    qed
  qed
  then show False using assms(3) by simp
qed

text \<open>A library in which every folder lists one more.\<close>

definition endless_cloud :: cloud_env where
  "endless_cloud = calm_cloud\<lparr>g_call := (\<lambda>k req auth.
     (Some (case req of Children_Listall i \<Rightarrow> Ids [''f''] | _ \<Rightarrow> calm_answer req), auth))\<rparr>"

theorem cloud_cycle_never_ends_witness: "loadFileIds endless_cloud ''GDRIVE_1'' one_drive = None"
  by (rule cloud_cycle_never_ends)
    (simp_all add: endless_cloud_def one_drive_def user_of_def omap_find_def)

text \<open>
  C26: When the library answers its calls and no folder lies in itself, loading the ids of a
  drive returns, without an exception, and keeps the invariant.
\<close>

theorem cloud_walk_ends:
  assumes "reliable env rank" "cloud_inv s" "omap_find d (mDriveIdUserDataMap s) = Some u" "mCred u"
  shows "\<exists>s'. loadFileIds env d s = Some (True, s') \<and> cloud_inv s'"
proof -
  have "held d s" using assms(2-4) by (simp add: held_def user_of_def)
  with loadFileIds_returns [OF assms(1)] show ?thesis by (auto simp: held_def)
qed

theorem cloud_walk_ends_witness: "\<exists>s'. loadFileIds calm_cloud ''GDRIVE_1'' one_drive = Some (True, s')"
proof -
  have "cloud_inv one_drive"
    by (auto simp: cloud_inv_def one_drive_def cloud_init_def user_of_def omap_find_def good_user_def no_user_def
        omap_at_def)
  moreover obtain u where "omap_find ''GDRIVE_1'' (mDriveIdUserDataMap one_drive) = Some u" "mCred u"
    by (simp add: one_drive_def omap_find_def)
  ultimately show ?thesis using cloud_walk_ends [OF calm_cloud_reliable] by blast
qed

text \<open>
  C13: After loading the ids of a drive that is a tree, as the library lists and shows it, a path is known if and only if it is the
  path of a file of the tree, and its id is that of the last such file in the order of the walk:
  of two files with one name in a folder only the second can be reached.
\<close>

theorem cloud_ids_loaded:
  assumes "lists_kids env ''root'' ks" "list_all (shows_tree env) ks" "mCred (user_of d s)"
  shows "\<exists>s'. loadFileIds env d s = Some (True, s')
     \<and> (\<forall>p. getFileId (user_of d s') p = (case map_of (rev (drive_paths ks)) p of Some i \<Rightarrow> i | None \<Rightarrow> []))"
proof -
  obtain s' where "loadFileIds env d s = Some (True, s')" "mFileIds (user_of d s') = put_all (drive_paths ks) []"
    using load_tree [OF assms] by blast
  then show ?thesis by (simp add: getFileId_def find_put_all om.find_clear split: option.splits)
qed

text \<open>A drive with a folder, a file in it, and a second file of the same name.\<close>

definition docs_drive :: "drive_node list" where
  "docs_drive = [Node ''f1'' ''docs'' [Node ''f2'' ''a'' [], Node ''f3'' ''a'' []]]"

definition docs_cloud :: cloud_env where
  "docs_cloud = calm_cloud\<lparr>g_call := (\<lambda>k req auth.
     (Some (case req of
        Children_Listall i \<Rightarrow> Ids (if i = ''root'' then [''f1''] else if i = ''f1'' then [''f2'', ''f3''] else [])
      | Files_Get i added \<Rightarrow> AFile \<lparr>g_id = i, g_title = (if i = ''f1'' then ''docs'' else if i = ''root'' then [] else ''a''),
          g_mimeType = [], g_fileSize = 0, g_downloadUrl = ''u'', g_exportLinks = []\<rparr>
      | _ \<Rightarrow> calm_answer req), auth))\<rparr>"

theorem cloud_ids_loaded_witness:
  "\<exists>s'. loadFileIds docs_cloud ''GDRIVE_1'' one_drive = Some (True, s')
     \<and> getFileId (user_of ''GDRIVE_1'' s') ''/docs/a'' = ''f3''"
proof -
  have "lists_kids docs_cloud ''root'' docs_drive" "list_all (shows_tree docs_cloud) docs_drive"
    by (simp_all add: docs_drive_def docs_cloud_def shows_node_def lists_kids_def)
  moreover have "mCred (user_of ''GDRIVE_1'' one_drive)"
    by (simp add: one_drive_def user_of_def omap_find_def)
  moreover have "map_of (rev (drive_paths docs_drive)) ''/docs/a'' = Some ''f3''"
    by (simp add: drive_paths_def docs_drive_def)
  ultimately show ?thesis
    using cloud_ids_loaded [of docs_cloud docs_drive "''GDRIVE_1''" one_drive] by force
qed

end
