(* ===== verification/Saf_Luna.thy ===== *)
theory Saf_Luna
  imports Saf_Core Saf_Errors Saf_Usb
begin

text \<open>
  SAFLunaService: the methods on the bus, each checking its payload against a strict schema and
  its parameters before it hands a request to the manager, and the reply functions the requests
  are bound to. An event is an answer sent to the client or a request queued at a provider.
\<close>

datatype luna_event =
    Responded lsmsg json
  | Queued provider request_data
  | NullProvider request_data   \<comment> \<open>addRequest called on a null pointer\<close>

section \<open>Payloads and answers\<close>

text \<open>LSUtils::parsePayload with a schema.\<close>

definition parsePayload :: "'a pbn_scheme \<Rightarrow> string \<Rightarrow> schema \<Rightarrow> json option" where
  "parsePayload pf text s =
     (case dom_parse pf text of
        None \<Rightarrow> None
      | Some j \<Rightarrow> if schema_ok pf s j then Some j else None)"

definition respondWithError :: "lsmsg \<Rightarrow> saf_error \<Rightarrow> luna_event list" where
  "respondWithError m e =
     [Responded m (jputs [(''returnValue'', JBool False),
                          (''errorText'', JStr (getSAFErrorString (saf_code e))),
                          (''errorCode'', JNum (saf_code e))] jobject)]"

text \<open>The two overloads of getStorageDeviceType.\<close>

definition storage_type_of :: "string \<Rightarrow> storage_type" where
  "storage_type_of type =
     (if type = ''internal'' then INTERNAL
      else if type = ''usb'' then USB
      else if type = ''cloud'' then GDRIVE
      else if type = ''network'' then NETWORK
      else INVALID)"

definition getStorageDeviceType :: "json \<Rightarrow> storage_type" where
  "getStorageDeviceType jsonObj =
     (case jget jsonObj ''storageType'' of
        JStr type \<Rightarrow> storage_type_of type
      | _ \<Rightarrow> (case jget jsonObj ''srcStorageType'' of
                JStr type \<Rightarrow> storage_type_of type
              | _ \<Rightarrow> INVALID))"

text \<open>
  REQUEST_BUILDER; \<open>sess\<close> is the session of a message: always root, or the bus's session in a
  build with sessions.
\<close>

definition REQUEST_BUILDER ::
  "(lsmsg \<Rightarrow> string) \<Rightarrow> method_type \<Rightarrow> json \<Rightarrow> reply_handler \<Rightarrow> lsmsg \<Rightarrow> request_data" where
  "REQUEST_BUILDER sess type p k m =
     \<lparr>cb = k, storageType = getStorageDeviceType p, methodType = type, params = p,
      sessionId = sess m, subs = m\<rparr>"

definition submit_request ::
  "'a pbn_scheme \<Rightarrow> factories \<Rightarrow> request_data \<Rightarrow> luna_event list" where
  "submit_request pf fs rd =
     (case manager_addRequest pf fs rd of
        None \<Rightarrow> [NullProvider rd]
      | Some (p, rd') \<Rightarrow> [Queued p rd'])"

section \<open>Schemas\<close>

definition extra_schema :: schema where
  "extra_schema =
     \<lparr>properties = [(''storageType'', TString), (''driveId'', TString),
        (''operation'', TObject [(''type'', TString),
           (''payload'', TObject [(''clientId'', TString), (''clientSecret'', TString),
              (''secretToken'', TString), (''refreshToken'', TString), (''userName'', TString),
              (''password'', TString), (''ip'', TString), (''serverType'', TString),
              (''uid'', TString), (''gid'', TString), (''sec'', TString)])])],
      required = [''storageType'', ''operation'']\<rparr>"

definition list_schema :: schema where
  "list_schema =
     \<lparr>properties = [(''storageType'', TString), (''driveId'', TString), (''path'', TString),
        (''limit'', TInteger), (''offset'', TInteger), (''refreshToken'', TString),
        (''refresh'', TBoolEnum True)],
      required = [''storageType'', ''driveId'', ''path'', ''offset'', ''limit'']\<rparr>"

definition properties_schema :: schema where
  "properties_schema =
     \<lparr>properties = [(''storageType'', TString), (''driveId'', TString), (''path'', TString),
        (''refreshToken'', TString)],
      required = [''storageType'', ''driveId'']\<rparr>"

definition storages_schema :: schema where
  "storages_schema = \<lparr>properties = [(''subscribe'', TBoolean)], required = []\<rparr>"

definition transfer_schema :: schema where
  "transfer_schema =
     \<lparr>properties = [(''srcStorageType'', TString), (''srcDriveId'', TString),
        (''destStorageType'', TString), (''destDriveId'', TString), (''srcPath'', TString),
        (''destPath'', TString), (''srcRefreshToken'', TString), (''destRefreshToken'', TString),
        (''overwrite'', TBoolean), (''subscribe'', TBoolean)],
      required = [''srcStorageType'', ''srcDriveId'', ''destStorageType'', ''destDriveId'',
        ''srcPath'', ''destPath'']\<rparr>"

definition remove_schema :: schema where
  "remove_schema =
     \<lparr>properties = [(''storageType'', TString), (''driveId'', TString), (''path'', TString),
        (''refreshToken'', TString)],
      required = [''storageType'', ''driveId'', ''path'']\<rparr>"

definition eject_schema :: schema where
  "eject_schema =
     \<lparr>properties = [(''storageType'', TString), (''driveId'', TString)],
      required = [''storageType'', ''driveId'']\<rparr>"

definition rename_schema :: schema where
  "rename_schema =
     \<lparr>properties = [(''storageType'', TString), (''driveId'', TString), (''path'', TString),
        (''newName'', TString)],
      required = [''storageType'', ''driveId'', ''path'', ''newName'']\<rparr>"

section \<open>The methods\<close>

definition luna_handleExtraCommand ::
  "'a pbn_scheme \<Rightarrow> (lsmsg \<Rightarrow> string) \<Rightarrow> factories \<Rightarrow> lsmsg \<Rightarrow> luna_event list" where
  "luna_handleExtraCommand pf sess fs m =
     (case parsePayload pf (payload m) extra_schema of
        None \<Rightarrow> respondWithError m INVALID_JSON_FORMAT
      | Some r \<Rightarrow>
          (if storage_type_of (asString pf (jget r ''storageType'')) = INVALID
           then respondWithError m STORAGE_TYPE_NOT_SUPPORTED
           else submit_request pf fs (REQUEST_BUILDER sess EXTRA_METHOD r onHandleExtraCommandReply m)))"

definition luna_list ::
  "'a pbn_scheme \<Rightarrow> (lsmsg \<Rightarrow> string) \<Rightarrow> factories \<Rightarrow> lsmsg \<Rightarrow> luna_event list" where
  "luna_list pf sess fs m =
     (case parsePayload pf (payload m) list_schema of
        None \<Rightarrow> respondWithError m INVALID_JSON_FORMAT
      | Some r \<Rightarrow>
          (let type = asString pf (jget r ''storageType'');
               offset = asInt pf (jget r ''offset'');
               limit = asInt pf (jget r ''limit'')
           in if type = [] \<or> asString pf (jget r ''path'') = [] \<or> asString pf (jget r ''driveId'') = []
                 \<or> sint offset < 1 \<or> 100 < sint offset \<or> limit = -1
              then respondWithError m INVALID_PARAM
              else if storage_type_of type = INVALID then respondWithError m STORAGE_TYPE_NOT_SUPPORTED
              else submit_request pf fs (REQUEST_BUILDER sess LIST_METHOD r onListReply m)))"

definition luna_getProperties ::
  "'a pbn_scheme \<Rightarrow> (lsmsg \<Rightarrow> string) \<Rightarrow> factories \<Rightarrow> lsmsg \<Rightarrow> luna_event list" where
  "luna_getProperties pf sess fs m =
     (case parsePayload pf (payload m) properties_schema of
        None \<Rightarrow> respondWithError m INVALID_JSON_FORMAT
      | Some r \<Rightarrow>
          (let type = asString pf (jget r ''storageType'')
           in if type = [] \<or> asString pf (jget r ''driveId'') = [] then respondWithError m INVALID_PARAM
              else if storage_type_of type = INVALID then respondWithError m STORAGE_TYPE_NOT_SUPPORTED
              else submit_request pf fs (REQUEST_BUILDER sess GET_PROP_METHOD r onGetPropertiesReply m)))"

text \<open>The chain over the providers starts with USB when that provider is registered.\<close>

definition luna_listStorageProviders ::
  "'a pbn_scheme \<Rightarrow> (lsmsg \<Rightarrow> string) \<Rightarrow> factories \<Rightarrow> lsmsg \<Rightarrow> luna_event list" where
  "luna_listStorageProviders pf sess fs m =
     (case parsePayload pf (payload m) storages_schema of
        None \<Rightarrow> respondWithError m INVALID_JSON_FORMAT
      | Some r \<Rightarrow>
          (let r' = (if USB \<in> set (getSupportedDocumentProviders fs)
                     then jput ''storageType'' (JStr ''usb'') r else r)
           in submit_request pf fs (REQUEST_BUILDER sess LIST_STORAGES_METHOD r' onListOfStoragesReply m)))"

text \<open>The checks copy and move share; they differ in the request they build.\<close>

definition luna_transfer ::
  "method_type \<Rightarrow> reply_handler \<Rightarrow> 'a pbn_scheme \<Rightarrow> (lsmsg \<Rightarrow> string) \<Rightarrow> factories \<Rightarrow> lsmsg \<Rightarrow> luna_event list" where
  "luna_transfer method k pf sess fs m =
     (case parsePayload pf (payload m) transfer_schema of
        None \<Rightarrow> respondWithError m INVALID_JSON_FORMAT
      | Some r \<Rightarrow>
          (let srcType = asString pf (jget r ''srcStorageType'');
               desType = asString pf (jget r ''destStorageType'')
           in if srcType = [] \<or> asString pf (jget r ''srcDriveId'') = [] \<or> desType = []
                 \<or> asString pf (jget r ''destDriveId'') = [] \<or> asString pf (jget r ''srcPath'') = []
                 \<or> asString pf (jget r ''destPath'') = []
              then respondWithError m INVALID_PARAM
              else if storage_type_of srcType = INVALID \<or> storage_type_of desType = INVALID
              then respondWithError m STORAGE_TYPE_NOT_SUPPORTED
              else submit_request pf fs
                     (REQUEST_BUILDER sess method (jput ''storageType'' (JStr srcType) r) k m)))"

definition luna_copy ::
  "'a pbn_scheme \<Rightarrow> (lsmsg \<Rightarrow> string) \<Rightarrow> factories \<Rightarrow> lsmsg \<Rightarrow> luna_event list" where
  "luna_copy = luna_transfer COPY_METHOD onCopyReply"

definition luna_move ::
  "'a pbn_scheme \<Rightarrow> (lsmsg \<Rightarrow> string) \<Rightarrow> factories \<Rightarrow> lsmsg \<Rightarrow> luna_event list" where
  "luna_move = luna_transfer MOVE_METHOD onMoveReply"

definition luna_remove ::
  "'a pbn_scheme \<Rightarrow> (lsmsg \<Rightarrow> string) \<Rightarrow> factories \<Rightarrow> lsmsg \<Rightarrow> luna_event list" where
  "luna_remove pf sess fs m =
     (case parsePayload pf (payload m) remove_schema of
        None \<Rightarrow> respondWithError m INVALID_JSON_FORMAT
      | Some r \<Rightarrow>
          (let type = asString pf (jget r ''storageType'')
           in if type = [] \<or> asString pf (jget r ''driveId'') = [] \<or> asString pf (jget r ''path'') = []
              then respondWithError m INVALID_PARAM
              else if storage_type_of type = INVALID then respondWithError m STORAGE_TYPE_NOT_SUPPORTED
              else submit_request pf fs (REQUEST_BUILDER sess REMOVE_METHOD r onRemoveReply m)))"

definition luna_eject ::
  "'a pbn_scheme \<Rightarrow> (lsmsg \<Rightarrow> string) \<Rightarrow> factories \<Rightarrow> lsmsg \<Rightarrow> luna_event list" where
  "luna_eject pf sess fs m =
     (case parsePayload pf (payload m) eject_schema of
        None \<Rightarrow> respondWithError m INVALID_JSON_FORMAT
      | Some r \<Rightarrow>
          (let type = asString pf (jget r ''storageType'')
           in if type = [] \<or> asString pf (jget r ''driveId'') = [] then respondWithError m INVALID_PARAM
              else if storage_type_of type = INVALID then respondWithError m STORAGE_TYPE_NOT_SUPPORTED
              else submit_request pf fs (REQUEST_BUILDER sess EJECT_METHOD r onEjectReply m)))"

definition luna_rename ::
  "'a pbn_scheme \<Rightarrow> (lsmsg \<Rightarrow> string) \<Rightarrow> factories \<Rightarrow> lsmsg \<Rightarrow> luna_event list" where
  "luna_rename pf sess fs m =
     (case parsePayload pf (payload m) rename_schema of
        None \<Rightarrow> respondWithError m INVALID_JSON_FORMAT
      | Some r \<Rightarrow>
          (let type = asString pf (jget r ''storageType'')
           in if type = [] \<or> asString pf (jget r ''driveId'') = [] \<or> asString pf (jget r ''path'') = []
                 \<or> asString pf (jget r ''newName'') = []
              then respondWithError m INVALID_PARAM
              else if storage_type_of type = INVALID then respondWithError m STORAGE_TYPE_NOT_SUPPORTED
              else submit_request pf fs (REQUEST_BUILDER sess RENAME_METHOD r onRenameReply m)))"

section \<open>The reply functions\<close>

text \<open>
  The reply of list, copy, move, remove and rename is passed on when the client's message names
  a storage type; put on the null value changes nothing.
\<close>

definition known_type :: "storage_type \<Rightarrow> bool" where
  "known_type t \<longleftrightarrow> t = INTERNAL \<or> t = USB \<or> t = GDRIVE \<or> t = NETWORK"

definition relay_reply :: "'a pbn_scheme \<Rightarrow> json \<Rightarrow> lsmsg \<Rightarrow> luna_event list" where
  "relay_reply pf rootObj m =
     [Responded m
        (case dom_parse pf (payload m) of
           None \<Rightarrow> JNull
         | Some reqObj \<Rightarrow>
             (if known_type (getStorageDeviceType reqObj) then rootObj
              else jput ''returnValue'' (JBool False) JNull))]"

definition luna_onHandleExtraCommandReply :: "'a pbn_scheme \<Rightarrow> json \<Rightarrow> lsmsg \<Rightarrow> luna_event list" where
  "luna_onHandleExtraCommandReply pf rootObj m = [Responded m rootObj]"

definition luna_onListReply :: "'a pbn_scheme \<Rightarrow> json \<Rightarrow> lsmsg \<Rightarrow> luna_event list" where
  "luna_onListReply = relay_reply"

definition luna_onCopyReply :: "'a pbn_scheme \<Rightarrow> json \<Rightarrow> lsmsg \<Rightarrow> luna_event list" where
  "luna_onCopyReply = relay_reply"

definition luna_onMoveReply :: "'a pbn_scheme \<Rightarrow> json \<Rightarrow> lsmsg \<Rightarrow> luna_event list" where
  "luna_onMoveReply = relay_reply"

definition luna_onRemoveReply :: "'a pbn_scheme \<Rightarrow> json \<Rightarrow> lsmsg \<Rightarrow> luna_event list" where
  "luna_onRemoveReply = relay_reply"

definition luna_onRenameReply :: "'a pbn_scheme \<Rightarrow> json \<Rightarrow> lsmsg \<Rightarrow> luna_event list" where
  "luna_onRenameReply = relay_reply"

definition luna_onGetPropertiesReply :: "'a pbn_scheme \<Rightarrow> json \<Rightarrow> lsmsg \<Rightarrow> luna_event list" where
  "luna_onGetPropertiesReply pf rootObj m =
     [Responded m
        (case dom_parse pf (payload m) of
           None \<Rightarrow> JNull
         | Some reqObj \<Rightarrow>
             (let type = getStorageDeviceType reqObj
              in if type = INTERNAL \<or> type = GDRIVE \<or> type = NETWORK then rootObj
                 else if type = USB
                 then (if hasKey reqObj ''path'' then rootObj else ParseGetProperties pf rootObj)
                 else jput ''returnValue'' (JBool False) JNull))]"

definition luna_onEjectReply :: "'a pbn_scheme \<Rightarrow> json \<Rightarrow> lsmsg \<Rightarrow> luna_event list" where
  "luna_onEjectReply pf rootObj m =
     [Responded m
        (case dom_parse pf (payload m) of
           None \<Rightarrow> jobject
         | Some reqObj \<Rightarrow>
             (let type = getStorageDeviceType reqObj
              in if type = USB then ParseEject rootObj
                 else if type = GDRIVE \<or> type = NETWORK \<or> type = INTERNAL then jget rootObj ''response''
                 else jput ''returnValue'' (JBool False) jobject))]"

text \<open>The answers collected so far, with the one that just came when there is one.\<close>

definition collect_storage :: "json \<Rightarrow> json" where
  "collect_storage rootObj =
     (let arr = jget rootObj ''listStorageResponse''
      in if hasKey rootObj ''response'' then jappend arr (jget rootObj ''response'') else arr)"

text \<open>The request to the next provider of the chain.\<close>

definition next_storage ::
  "'a pbn_scheme \<Rightarrow> (lsmsg \<Rightarrow> string) \<Rightarrow> factories \<Rightarrow> string \<Rightarrow> json \<Rightarrow> json \<Rightarrow> lsmsg \<Rightarrow> luna_event list" where
  "next_storage pf sess fs type arr rootObj m =
     submit_request pf fs
       (REQUEST_BUILDER sess LIST_STORAGES_METHOD
          (jput ''listStorageResponse'' arr (jput ''storageType'' (JStr type) rootObj))
          onListOfStoragesReply m)"

definition luna_onListOfStoragesReply ::
  "'a pbn_scheme \<Rightarrow> (lsmsg \<Rightarrow> string) \<Rightarrow> factories \<Rightarrow> json \<Rightarrow> lsmsg \<Rightarrow> luna_event list" where
  "luna_onListOfStoragesReply pf sess fs rootObj m =
     (case getStorageDeviceType rootObj of
        USB \<Rightarrow>
          next_storage pf sess fs ''internal''
            (jappend jarray (if hasKey rootObj ''response'' then jget rootObj ''response'' else jobject))
            rootObj m
      | INTERNAL \<Rightarrow> next_storage pf sess fs ''cloud'' (collect_storage rootObj) rootObj m
      | GDRIVE \<Rightarrow> next_storage pf sess fs ''network'' (collect_storage rootObj) rootObj m
      | NETWORK \<Rightarrow>
          [Responded m (jputs [(''returnValue'', JBool True),
                               (''storageProviders'', collect_storage rootObj)] jobject)]
      | INVALID \<Rightarrow> [Responded m (jput ''returnValue'' (JBool False) jobject)])"

text \<open>The callback of a request, applied to what the provider replied.\<close>

definition luna_reply ::
  "'a pbn_scheme \<Rightarrow> (lsmsg \<Rightarrow> string) \<Rightarrow> factories \<Rightarrow> request_data \<Rightarrow> json \<Rightarrow> luna_event list" where
  "luna_reply pf sess fs rd rootObj =
     (case cb rd of
        onHandleExtraCommandReply \<Rightarrow> luna_onHandleExtraCommandReply pf rootObj (subs rd)
      | onListReply \<Rightarrow> luna_onListReply pf rootObj (subs rd)
      | onGetPropertiesReply \<Rightarrow> luna_onGetPropertiesReply pf rootObj (subs rd)
      | onListOfStoragesReply \<Rightarrow> luna_onListOfStoragesReply pf sess fs rootObj (subs rd)
      | onCopyReply \<Rightarrow> luna_onCopyReply pf rootObj (subs rd)
      | onMoveReply \<Rightarrow> luna_onMoveReply pf rootObj (subs rd)
      | onRemoveReply \<Rightarrow> luna_onRemoveReply pf rootObj (subs rd)
      | onEjectReply \<Rightarrow> luna_onEjectReply pf rootObj (subs rd)
      | onRenameReply \<Rightarrow> luna_onRenameReply pf rootObj (subs rd))"

section \<open>Facts\<close>

definition all_registered :: "factories \<Rightarrow> bool" where
  "all_registered fs \<longleftrightarrow> (\<forall>t. omap_find t fs = map_of registrations t)"

lemma submit_registered:
  assumes "all_registered fs" "storageType rd \<noteq> INVALID"
  shows "\<exists>p rd'. submit_request pf fs rd = [Queued p rd'] \<and> params rd' = params rd
           \<and> subs rd' = subs rd \<and> cb rd' = cb rd"
proof -
  have f: "\<exists>p. omap_find t fs = Some p" if "t \<noteq> INVALID" for t
    using assms(1) that by (cases t) (auto simp: all_registered_def registrations_def)
  show ?thesis
    using f [of GDRIVE] f [of "storageType rd"] assms(2)
    by (auto simp: submit_request_def manager_addRequest_def createDocumentProvider_def Let_def)
qed

lemma storage_type_of_simps [simp]:
  "storage_type_of ''internal'' = INTERNAL" "storage_type_of ''usb'' = USB"
  "storage_type_of ''cloud'' = GDRIVE" "storage_type_of ''network'' = NETWORK"
  by (simp_all add: storage_type_of_def)

lemma getStorageDeviceType_put [simp]:
  "isObject j \<Longrightarrow> getStorageDeviceType (jput ''storageType'' (JStr s) j) = storage_type_of s"
  by (simp add: getStorageDeviceType_def)

section \<open>Properties\<close>

lemma registered_provider:
  assumes "all_registered fs"
  shows "omap_find INTERNAL fs = Some InternalStorageProvider" "omap_find USB fs = Some USBStorageProvider"
    "omap_find GDRIVE fs = Some GDriveProvider" "omap_find NETWORK fs = Some NetworkProvider"
    "omap_find INVALID fs = None" "USB \<in> set (getSupportedDocumentProviders fs)"
proof -
  show f: "omap_find INTERNAL fs = Some InternalStorageProvider" "omap_find USB fs = Some USBStorageProvider"
    "omap_find GDRIVE fs = Some GDriveProvider" "omap_find NETWORK fs = Some NetworkProvider"
    "omap_find INVALID fs = None"
    using assms by (simp_all add: all_registered_def registrations_def)
  from f(2) have "(USB, USBStorageProvider) \<in> set fs" by (simp add: omap_find_def map_of_SomeD)
  then show "USB \<in> set (getSupportedDocumentProviders fs)"
    by (force simp: getSupportedDocumentProviders_def)
qed

lemma manager_registered:
  assumes "all_registered fs" "storageType rd \<noteq> INVALID"
  shows "\<exists>p t. manager_addRequest pf fs rd = Some (p, rd\<lparr>storageType := t\<rparr>) \<and> createDocumentProvider fs t = Some p
     \<and> t = (if methodType rd \<in> {COPY_METHOD, MOVE_METHOD}
               \<and> asString pf (jget (params rd) ''destStorageType'') = ''cloud'' then GDRIVE else storageType rd)"
  using assms(2) registered_provider [OF assms(1)]
  by (cases "storageType rd") (auto simp: manager_addRequest_def createDocumentProvider_def)

text \<open>The outcome of a method on the bus: a refusal to the client, or its request at a provider.\<close>

fun settled_event :: "(lsmsg \<Rightarrow> string) \<Rightarrow> lsmsg \<Rightarrow> luna_event \<Rightarrow> bool" where
  "settled_event sess m (Responded m' j) \<longleftrightarrow> m' = m \<and> jget j ''returnValue'' = JBool False"
| "settled_event sess m (Queued p rd) \<longleftrightarrow> subs rd = m \<and> sessionId rd = sess m"
| "settled_event sess m (NullProvider rd) \<longleftrightarrow> False"

lemma settled_error: "\<exists>ev. respondWithError m e = [ev] \<and> settled_event sess m ev"
  by (simp add: respondWithError_def)

lemma settled_submit:
  assumes "all_registered fs" "getStorageDeviceType p \<noteq> INVALID"
  shows "\<exists>ev. submit_request pf fs (REQUEST_BUILDER sess type p k m) = [ev] \<and> settled_event sess m ev"
  using manager_registered [OF assms(1), of "REQUEST_BUILDER sess type p k m" pf] assms(2)
  by (auto simp: submit_request_def REQUEST_BUILDER_def)

lemma parse_conforms:
  assumes "pbn_ok pf" "parsePayload pf text s = Some j"
  shows "conforms s j" "isObject j"
proof -
  show "conforms s j" using assms by (auto simp: parsePayload_def pbn_ok_def split: option.splits if_splits)
  then show "isObject j" using conforms_object [of s j] by auto
qed

lemma parsed_type:
  assumes "pbn_ok pf" "parsePayload pf text s = Some j" "''storageType'' \<in> set (required s)"
    "map_of (properties s) ''storageType'' = Some TString"
  shows "getStorageDeviceType j = storage_type_of (asString pf (jget j ''storageType''))"
proof -
  obtain v where "jfind j ''storageType'' = Some (JStr v)"
    using conforms_string [OF parse_conforms(1) [OF assms(1,2)] assms(3,4)] by blast
  then show ?thesis by (simp add: getStorageDeviceType_def jget_def)
qed

lemma settled_transfer:
  assumes "pbn_ok pf" "all_registered fs"
  shows "\<exists>ev. luna_transfer method k pf sess fs m = [ev] \<and> settled_event sess m ev"
  using parse_conforms(2) [OF assms(1), of "payload m" transfer_schema]
  by (auto simp: luna_transfer_def settled_error Let_def intro!: settled_submit [OF assms(2)] split: option.splits)

lemma settled_storages:
  assumes "pbn_ok pf" "all_registered fs"
  shows "\<exists>ev. luna_listStorageProviders pf sess fs m = [ev] \<and> settled_event sess m ev"
  using parse_conforms(2) [OF assms(1), of "payload m" storages_schema]
  by (auto simp: luna_listStorageProviders_def settled_error Let_def registered_provider [OF assms(2)]
      intro!: settled_submit [OF assms(2)] split: option.splits)

lemma next_registered:
  assumes "all_registered fs" "isObject root" "storage_type_of type = t" "t \<noteq> INVALID"
    and "createDocumentProvider fs t = Some p"
  shows "next_storage pf sess fs type arr root m =
     [Queued p (REQUEST_BUILDER sess LIST_STORAGES_METHOD
        (jput ''listStorageResponse'' arr (jput ''storageType'' (JStr type) root)) onListOfStoragesReply m)]"
  using assms
  by (simp add: next_storage_def submit_request_def manager_addRequest_def REQUEST_BUILDER_def getStorageDeviceType_def)

lemma luna_reply_one:
  "cb rd \<noteq> onListOfStoragesReply \<Longrightarrow> \<exists>j'. luna_reply pf sess fs rd j = [Responded (subs rd) j']"
  by (cases "cb rd") (auto simp: luna_reply_def luna_onHandleExtraCommandReply_def luna_onListReply_def
      luna_onGetPropertiesReply_def luna_onCopyReply_def luna_onMoveReply_def luna_onRemoveReply_def
      luna_onEjectReply_def luna_onRenameReply_def relay_reply_def)

lemma methods_settle:
  assumes "pbn_ok pf" "all_registered fs"
    and "method \<in> {luna_handleExtraCommand, luna_list, luna_getProperties, luna_listStorageProviders,
                   luna_copy, luna_move, luna_remove, luna_eject, luna_rename}"
  shows "\<exists>ev. method pf sess fs m = [ev] \<and> settled_event sess m ev"
proof -
  note ty = parsed_type [OF assms(1), of "payload m"] and sub = settled_submit [OF assms(2)]
  have "\<exists>ev. luna_handleExtraCommand pf sess fs m = [ev] \<and> settled_event sess m ev"
    using ty [of extra_schema]
    by (auto simp: luna_handleExtraCommand_def settled_error extra_schema_def intro!: sub split: option.splits)
  moreover have "\<exists>ev. luna_list pf sess fs m = [ev] \<and> settled_event sess m ev"
    using ty [of list_schema]
    by (auto simp: luna_list_def settled_error list_schema_def Let_def intro!: sub split: option.splits)
  moreover have "\<exists>ev. luna_getProperties pf sess fs m = [ev] \<and> settled_event sess m ev"
    using ty [of properties_schema]
    by (auto simp: luna_getProperties_def settled_error properties_schema_def Let_def intro!: sub split: option.splits)
  moreover have "\<exists>ev. luna_remove pf sess fs m = [ev] \<and> settled_event sess m ev"
    using ty [of remove_schema]
    by (auto simp: luna_remove_def settled_error remove_schema_def Let_def intro!: sub split: option.splits)
  moreover have "\<exists>ev. luna_eject pf sess fs m = [ev] \<and> settled_event sess m ev"
    using ty [of eject_schema]
    by (auto simp: luna_eject_def settled_error eject_schema_def Let_def intro!: sub split: option.splits)
  moreover have "\<exists>ev. luna_rename pf sess fs m = [ev] \<and> settled_event sess m ev"
    using ty [of rename_schema]
    by (auto simp: luna_rename_def settled_error rename_schema_def Let_def intro!: sub split: option.splits)
  ultimately show ?thesis
    using assms(3) settled_transfer [OF assms(1,2)] settled_storages [OF assms(1,2)]
    by (auto simp: luna_copy_def luna_move_def)
qed

text \<open>
  Every method of the service ends in exactly one event, whatever the payload: a refusal sent to
  the client that asked, or one request queued at a registered provider under the client's message
  and session. No request is ever handed to a provider that does not exist.
\<close>

theorem luna_methods_settle:
  assumes "pbn_ok pf" "all_registered fs"
    and "method \<in> {luna_handleExtraCommand, luna_list, luna_getProperties, luna_listStorageProviders,
                   luna_copy, luna_move, luna_remove, luna_eject, luna_rename}"
  shows "\<exists>ev. method pf sess fs m = [ev] \<and> settled_event sess m ev"
  by (rule methods_settle [OF assms])

text \<open>A platform that parses one payload, and the registry the program starts with.\<close>

definition parsing :: "json \<Rightarrow> platform" where
  "parsing j = calm_platform\<lparr>dom_parse := (\<lambda>s. Some j)\<rparr>"

lemma parsing_simps [simp]:
  "pbn_ok (parsing j)" "dom_parse (parsing j) s = Some j" "schema_ok (parsing j) = conforms"
  by (auto simp: parsing_def pbn_ok_def calm_platform_def)

lemma all_registered_start: "all_registered (register_all registrations)"
  using register_all_find [of registrations]
  by (simp add: all_registered_def) (simp add: registrations_def)

theorem luna_methods_settle_witness:
  "\<exists>ev. luna_list (parsing jobject) (\<lambda>m. ''root'') (register_all registrations) \<lparr>payload = [], token = 7\<rparr> = [ev]
     \<and> settled_event (\<lambda>m. ''root'') \<lparr>payload = [], token = 7\<rparr> ev"
  using luna_methods_settle [of "parsing jobject" "register_all registrations" luna_list "\<lambda>m. ''root''"]
    all_registered_start by simp

text \<open>
  A list whose payload fits the schema reaches a provider if and only if its storage type is one
  of the four, its path and drive id are not empty, its offset is between 1 and 100 and its limit
  is not -1; every other limit, negative ones and zero included, is let through.
\<close>

theorem list_request_admitted:
  assumes "pbn_ok pf" "all_registered fs" "dom_parse pf (payload m) = Some r" "schema_ok pf list_schema r"
  shows "(\<exists>p rd. luna_list pf sess fs m = [Queued p rd]) \<longleftrightarrow>
     storage_type_of (asString pf (jget r ''storageType'')) \<noteq> INVALID
     \<and> asString pf (jget r ''path'') \<noteq> [] \<and> asString pf (jget r ''driveId'') \<noteq> []
     \<and> 1 \<le> sint (asInt pf (jget r ''offset'')) \<and> sint (asInt pf (jget r ''offset'')) \<le> 100
     \<and> asInt pf (jget r ''limit'') \<noteq> -1"
proof -
  have p: "parsePayload pf (payload m) list_schema = Some r" using assms(3,4) by (simp add: parsePayload_def)
  have t: "getStorageDeviceType r = storage_type_of (asString pf (jget r ''storageType''))"
    using parsed_type [OF assms(1) p] by (simp add: list_schema_def)
  have n: "storage_type_of [] = INVALID" by (simp add: storage_type_of_def)
  have s: "\<exists>q rd. submit_request pf fs (REQUEST_BUILDER sess LIST_METHOD r onListReply m) = [Queued q rd]"
    if "getStorageDeviceType r \<noteq> INVALID"
    using manager_registered [OF assms(2), of "REQUEST_BUILDER sess LIST_METHOD r onListReply m" pf] that
    by (auto simp: submit_request_def REQUEST_BUILDER_def)
  show ?thesis using t n s by (auto simp: luna_list_def p Let_def respondWithError_def)
qed

theorem list_request_admitted_witness:
  "\<exists>p rd. luna_list (parsing (JObj [(''storageType'', JStr ''internal''), (''driveId'', JStr ''INTERNAL_STORAGE''),
        (''path'', JStr ''/tmp''), (''offset'', JNum 1), (''limit'', JNum 10)]))
      (\<lambda>m. ''root'') (register_all registrations) \<lparr>payload = [], token = 7\<rparr> = [Queued p rd]"
proof -
  let ?r = "JObj [(''storageType'', JStr ''internal''), (''driveId'', JStr ''INTERNAL_STORAGE''),
        (''path'', JStr ''/tmp''), (''offset'', JNum 1), (''limit'', JNum 10)]"
  have c: "schema_ok (parsing ?r) list_schema ?r" by (simp add: conforms_def list_schema_def)
  have "asInt (parsing ?r) (jget ?r ''offset'') = 1" "asInt (parsing ?r) (jget ?r ''limit'') = 10"
    by (simp_all add: asInt_def jget_def)
  with list_request_admitted [OF parsing_simps(1) all_registered_start _ c,
      of "\<lparr>payload = [], token = 7\<rparr>" "\<lambda>m. ''root''"] show ?thesis
    by (simp add: jget_def)
qed

section \<open>The methods on the bus\<close>

text \<open>The method tables of registerService; None is a method the bus does not know.\<close>

definition registerService ::
  "'a pbn_scheme \<Rightarrow> (lsmsg \<Rightarrow> string) \<Rightarrow> factories \<Rightarrow> string \<Rightarrow> string \<Rightarrow> (lsmsg \<Rightarrow> luna_event list) option" where
  "registerService pf sess fs category method =
     (if category = ''/''
      then map_of [(''listStorageProviders'', luna_listStorageProviders pf sess fs)] method
      else if category = ''/device''
      then map_of [(''handleExtraCommand'', luna_handleExtraCommand pf sess fs), (''list'', luna_list pf sess fs),
             (''getProperties'', luna_getProperties pf sess fs), (''copy'', luna_copy pf sess fs),
             (''move'', luna_move pf sess fs), (''remove'', luna_remove pf sess fs),
             (''eject'', luna_eject pf sess fs), (''rename'', luna_rename pf sess fs)] method
      else None)"

text \<open>The type and the callback of the request a method builds.\<close>

definition device_calls :: "(string \<times> method_type \<times> reply_handler) list" where
  "device_calls =
     [(''handleExtraCommand'', EXTRA_METHOD, onHandleExtraCommandReply), (''list'', LIST_METHOD, onListReply),
      (''getProperties'', GET_PROP_METHOD, onGetPropertiesReply), (''copy'', COPY_METHOD, onCopyReply),
      (''move'', MOVE_METHOD, onMoveReply), (''remove'', REMOVE_METHOD, onRemoveReply),
      (''eject'', EJECT_METHOD, onEjectReply), (''rename'', RENAME_METHOD, onRenameReply)]"

lemma queued_submit:
  "submit_request pf fs (REQUEST_BUILDER sess type p k m) = [Queued q rd] \<Longrightarrow>
   methodType rd = type \<and> cb rd = k \<and> subs rd = m"
  by (auto simp: submit_request_def REQUEST_BUILDER_def manager_addRequest_def Let_def split: option.splits if_splits)

lemma not_queued_error: "respondWithError m e \<noteq> [Queued q rd]"
  by (simp add: respondWithError_def)

lemma device_call_queued:
  assumes "registerService pf sess fs ''/device'' name = Some f" "f m = [Queued p rd]"
  shows "(name, methodType rd, cb rd) \<in> set device_calls \<and> subs rd = m"
proof -
  note d = device_calls_def queued_submit not_queued_error
  from assms show ?thesis
    by (auto simp: registerService_def device_calls_def luna_handleExtraCommand_def luna_list_def
        luna_getProperties_def luna_copy_def luna_move_def luna_transfer_def luna_remove_def luna_eject_def
        luna_rename_def not_queued_error Let_def dest!: queued_submit split: if_splits option.splits)
qed


text \<open>The schema a method checks its payload against.\<close>

definition call_schemas :: "(string \<times> schema) list" where
  "call_schemas =
     [(''handleExtraCommand'', extra_schema), (''list'', list_schema), (''getProperties'', properties_schema),
      (''copy'', transfer_schema), (''move'', transfer_schema), (''remove'', remove_schema),
      (''eject'', eject_schema), (''rename'', rename_schema)]"

lemma queued_submit_typed:
  assumes "all_registered fs" "submit_request pf fs (REQUEST_BUILDER sess type p k m) = [Queued q rd]"
  shows "params rd = p \<and> createDocumentProvider fs (storageType rd) = Some q \<and> storageType rd \<noteq> INVALID"
  using assms(2) registered_provider(5) [OF assms(1)]
  by (auto simp: submit_request_def REQUEST_BUILDER_def manager_addRequest_def createDocumentProvider_def Let_def
      split: option.splits if_splits)

text \<open>
  C16: What a method of a device hands on is well-typed: the request is at the provider
  registered for its storage type, which is one of the four; its parameters are an object, and but
  for the storage type they are those of the payload, which conforms to the method's schema.
\<close>

theorem queued_requests_typed:
  assumes "pbn_ok pf" "all_registered fs"
    and "registerService pf sess fs ''/device'' name = Some f" "f m = [Queued p rd]"
  shows "createDocumentProvider fs (storageType rd) = Some p \<and> storageType rd \<noteq> INVALID
     \<and> (\<exists>s r. (name, s) \<in> set call_schemas \<and> dom_parse pf (payload m) = Some r \<and> conforms s r
          \<and> isObject (params rd) \<and> (\<forall>k. k \<noteq> ''storageType'' \<longrightarrow> jget (params rd) k = jget r k))"
proof -
  have p: "parsePayload pf (payload m) s = Some r \<Longrightarrow>
      dom_parse pf (payload m) = Some r \<and> conforms s r \<and> isObject r" for s r
    using parse_conforms [OF assms(1), of "payload m" s r]
    by (auto simp: parsePayload_def split: option.splits if_splits)
  from assms(3,4) show ?thesis
    by (auto simp: registerService_def call_schemas_def luna_handleExtraCommand_def luna_list_def
        luna_getProperties_def luna_copy_def luna_move_def luna_transfer_def luna_remove_def luna_eject_def
        luna_rename_def not_queued_error Let_def dest!: queued_submit_typed [OF assms(2)] p
        split: if_splits option.splits)
qed
text \<open>A call of remove.\<close>

definition remove_call :: json where
  "remove_call = JObj [(''storageType'', JStr ''usb''), (''driveId'', JStr ''d''), (''path'', JStr ''/p'')]"

theorem queued_requests_typed_witness:
  "\<exists>p rd. luna_remove (parsing remove_call) (\<lambda>m. ''root'') (register_all registrations)
       \<lparr>payload = [], token = 7\<rparr> = [Queued p rd] \<and> isObject (params rd) \<and> jget (params rd) ''path'' = JStr ''/p''"
proof -
  let ?pf = "parsing remove_call" and ?fs = "register_all registrations" and ?m = "\<lparr>payload = [], token = 7\<rparr>"
  have f: "registerService ?pf (\<lambda>m. ''root'') ?fs ''/device'' ''remove'' = Some (luna_remove ?pf (\<lambda>m. ''root'') ?fs)"
    by (simp add: registerService_def)
  have "parsePayload ?pf (payload ?m) remove_schema = Some remove_call"
    by (simp add: parsePayload_def conforms_def remove_schema_def remove_call_def)
  moreover have "jget remove_call ''storageType'' = JStr ''usb''" "jget remove_call ''driveId'' = JStr ''d''"
    "jget remove_call ''path'' = JStr ''/p''"
    by (simp_all add: remove_call_def jget_def)
  ultimately obtain rd where rd: "luna_remove ?pf (\<lambda>m. ''root'') ?fs ?m = [Queued USBStorageProvider rd]"
    using registered_provider [OF all_registered_start]
    by (simp add: luna_remove_def Let_def submit_request_def manager_addRequest_def REQUEST_BUILDER_def
        createDocumentProvider_def getStorageDeviceType_def)
  have "jget remove_call ''path'' = JStr ''/p''" by (simp add: remove_call_def jget_def)
  with queued_requests_typed [OF parsing_simps(1) all_registered_start f rd] rd show ?thesis by auto
qed

end
