(* ===== verification/Saf_Watch.thy ===== *)
theory Saf_Watch
  imports Saf_Prelude
begin

text \<open>
  ClientWatch (include/ClientWatch.h, utils/ClientWatch.cpp): the object a request holds for its
  client. It keeps a reference to the message, watches the client's service on the bus and the
  cancelling of calls, and puts a source into the main loop when the client is gone. What it
  holds of the bus and the loop is the record \<open>bus\<close>; the numbers stand for the pointers,
  cookies and source ids, 0 for none. The callback it is given is stored and never called.
\<close>

section \<open>State\<close>

record bus =
  message_refs :: "nat list"                   \<comment> \<open>one entry for each reference to a message\<close>
  status_watches :: "(nat \<times> nat) list"         \<comment> \<open>cookie, and the watch it calls\<close>
  cancel_watches :: "nat list"                 \<comment> \<open>the watches called when a call is cancelled\<close>
  loop_sources :: "(nat \<times> nat) list"           \<comment> \<open>source id, and the watch it calls\<close>
  next_id :: nat

record watch =
  this :: nat
  mMessage :: "nat option"
  mCookie :: nat
  mNotificationTimeout :: nat

section \<open>Operations\<close>

text \<open>The two registrations can fail, which is an exception: the flag is false.\<close>

definition startWatching :: "bool \<Rightarrow> bool \<Rightarrow> watch \<Rightarrow> bus \<Rightarrow> bool \<times> watch \<times> bus" where
  "startWatching status_ok cancel_ok w b =
     (if mMessage w = None then (True, w, b)
      else if \<not> status_ok then (False, w, b)
      else (let w1 = w\<lparr>mCookie := next_id b\<rparr>;
                b1 = b\<lparr>status_watches := (next_id b, this w) # status_watches b, next_id := next_id b + 1\<rparr>
            in if \<not> cancel_ok then (False, w1, b1)
               else (True, w1, b1\<lparr>cancel_watches := this w # cancel_watches b1\<rparr>)))"

text \<open>The constructor; None is its exception, after which the destructor does not run.\<close>

definition ClientWatch :: "bool \<Rightarrow> bool \<Rightarrow> nat \<Rightarrow> nat option \<Rightarrow> bus \<Rightarrow> watch option \<times> bus" where
  "ClientWatch status_ok cancel_ok self message b =
     (let w = \<lparr>this = self, mMessage = message, mCookie = 0, mNotificationTimeout = 0\<rparr>
      in case message of
           None \<Rightarrow> (Some w, b)
         | Some t \<Rightarrow>
             (let (fine, w', b') = startWatching status_ok cancel_ok w (b\<lparr>message_refs := t # message_refs b\<rparr>)
              in (if fine then Some w' else None, b')))"

text \<open>The destructor; a status watch that cannot be cancelled is only logged.\<close>

definition destroyWatch :: "bool \<Rightarrow> watch \<Rightarrow> bus \<Rightarrow> bus" where
  "destroyWatch cancel_ok w b =
     (let b1 = (if mNotificationTimeout w \<noteq> 0
                then b\<lparr>loop_sources := filter (\<lambda>e. fst e \<noteq> mNotificationTimeout w) (loop_sources b)\<rparr> else b);
          b2 = (if mCookie w \<noteq> 0 \<and> cancel_ok
                then b1\<lparr>status_watches := filter (\<lambda>e. fst e \<noteq> mCookie w) (status_watches b1)\<rparr> else b1);
          b3 = (case mMessage w of Some t \<Rightarrow> b2\<lparr>message_refs := remove1 t (message_refs b2)\<rparr> | None \<Rightarrow> b2)
      in b3\<lparr>cancel_watches := remove1 (this w) (cancel_watches b3)\<rparr>)"

definition triggerClientDroppedNotification :: "watch \<Rightarrow> bus \<Rightarrow> watch \<times> bus" where
  "triggerClientDroppedNotification w b =
     (if mNotificationTimeout w \<noteq> 0 then (w, b)
      else (w\<lparr>mNotificationTimeout := next_id b\<rparr>,
            b\<lparr>loop_sources := (next_id b, this w) # loop_sources b, next_id := next_id b + 1\<rparr>))"

definition notifyClientDisconnected :: "watch \<Rightarrow> bus \<Rightarrow> watch \<times> bus" where
  "notifyClientDisconnected w b = triggerClientDroppedNotification w b"

definition notifyClientCanceled :: "nat \<Rightarrow> watch \<Rightarrow> bus \<Rightarrow> watch \<times> bus" where
  "notifyClientCanceled clientToken w b =
     (if mMessage w = Some clientToken then triggerClientDroppedNotification w b else (w, b))"

definition serverStatusCallback :: "bool \<Rightarrow> watch \<Rightarrow> bus \<Rightarrow> watch \<times> bus" where
  "serverStatusCallback connected w b = (if connected then (w, b) else notifyClientDisconnected w b)"

definition clientCanceledCallback :: "nat \<Rightarrow> watch \<Rightarrow> bus \<Rightarrow> watch \<times> bus" where
  "clientCanceledCallback uniqueToken w b = (w, b)"

text \<open>The source of the loop; it returns FALSE, so the loop drops it.\<close>

definition sendClientDroppedNotification :: "nat \<Rightarrow> watch \<Rightarrow> bus \<Rightarrow> watch \<times> bus" where
  "sendClientDroppedNotification i w b =
     (w\<lparr>mNotificationTimeout := 0\<rparr>, b\<lparr>loop_sources := filter (\<lambda>e. fst e \<noteq> i) (loop_sources b)\<rparr>)"

section \<open>What can happen to a watch\<close>

inductive watch_step :: "watch \<times> bus \<Rightarrow> watch \<times> bus \<Rightarrow> bool" where
  status: "(c, this w) \<in> set (status_watches b) \<Longrightarrow> watch_step (w, b) (serverStatusCallback connected w b)"
| cancelled: "this w \<in> set (cancel_watches b) \<Longrightarrow> watch_step (w, b) (clientCanceledCallback t w b)"
| notified: "watch_step (w, b) (notifyClientCanceled t w b)"
| dropped: "(i, this w) \<in> set (loop_sources b) \<Longrightarrow> watch_step (w, b) (sendClientDroppedNotification i w b)"

inductive_cases watch_stepE: "watch_step (w, b) (w', b')"

inductive watch_life :: "watch \<times> bus \<Rightarrow> watch \<times> bus \<Rightarrow> bool" for s where
  born: "watch_life s s"
| lives: "watch_life s t \<Longrightarrow> watch_step t u \<Longrightarrow> watch_life s u"

text \<open>A bus on which the watch is new: nothing has its number, and new ids are new.\<close>

definition new_on :: "nat \<Rightarrow> bus \<Rightarrow> bool" where
  "new_on self b \<longleftrightarrow> 0 < next_id b
     \<and> (\<forall>e \<in> set (status_watches b) \<union> set (loop_sources b). fst e < next_id b \<and> snd e \<noteq> self)
     \<and> self \<notin> set (cancel_watches b)"

text \<open>What the watch adds to the bus it was made on: its registrations and at most one source.\<close>

definition watch_inv :: "nat \<Rightarrow> nat \<Rightarrow> bus \<Rightarrow> watch \<times> bus \<Rightarrow> bool" where
  "watch_inv self t b0 s \<longleftrightarrow>
     (case s of (w, b) \<Rightarrow>
        this w = self \<and> mMessage w = Some t \<and> mCookie w = next_id b0 \<and> next_id b0 < next_id b
        \<and> message_refs b = t # message_refs b0
        \<and> status_watches b = (mCookie w, self) # status_watches b0
        \<and> cancel_watches b = self # cancel_watches b0
        \<and> loop_sources b = (if mNotificationTimeout w = 0 then [] else [(mNotificationTimeout w, self)]) @ loop_sources b0
        \<and> (mNotificationTimeout w = 0 \<or> next_id b0 < mNotificationTimeout w))"

section \<open>Properties\<close>

lemma new_on_filter:
  assumes "new_on self b" "next_id b \<le> i"
  shows "filter (\<lambda>e. fst e \<noteq> i) (status_watches b) = status_watches b"
    "filter (\<lambda>e. fst e \<noteq> i) (loop_sources b) = loop_sources b"
proof -
  have "fst e \<noteq> i" if "e \<in> set (status_watches b) \<union> set (loop_sources b)" for e
    using assms that unfolding new_on_def by (metis leD)
  then show "filter (\<lambda>e. fst e \<noteq> i) (status_watches b) = status_watches b"
    "filter (\<lambda>e. fst e \<noteq> i) (loop_sources b) = loop_sources b"
    by (auto intro!: filter_True)
qed

lemma watch_inv_start:
  "ClientWatch status_ok cancel_ok self (Some t) b0 = (Some w, b) \<Longrightarrow> watch_inv self t b0 (w, b)"
  by (auto simp: ClientWatch_def startWatching_def watch_inv_def Let_def split: if_splits)

lemma watch_inv_trigger:
  "new_on self b0 \<Longrightarrow> watch_inv self t b0 (w, b) \<Longrightarrow> watch_inv self t b0 (triggerClientDroppedNotification w b)"
  by (auto simp: watch_inv_def triggerClientDroppedNotification_def)

lemma watch_inv_step:
  assumes "new_on self b0" "watch_step s s'" "watch_inv self t b0 s"
  shows "watch_inv self t b0 s'"
  using assms(2,3)
proof cases
  case (dropped i w b)
  have "(j, self) \<notin> set (loop_sources b0)" for j
    using assms(1) unfolding new_on_def by (metis UnCI snd_conv)
  then have i: "i = mNotificationTimeout w \<and> mNotificationTimeout w \<noteq> 0"
    using dropped(3) assms(3) dropped(1) by (auto simp: watch_inv_def split: if_splits)
  then have "next_id b0 < i" using assms(3) dropped(1) by (auto simp: watch_inv_def)
  with i assms(3) dropped new_on_filter(2) [OF assms(1), of i] show ?thesis
    by (auto simp: watch_inv_def sendClientDroppedNotification_def)
qed (use watch_inv_trigger [OF assms(1)] assms(3) in
      \<open>auto simp: serverStatusCallback_def notifyClientDisconnected_def clientCanceledCallback_def notifyClientCanceled_def\<close>)

lemma watch_inv_life:
  assumes "new_on self b0" "watch_life s s'"
  shows "watch_inv self t b0 s \<Longrightarrow> watch_inv self t b0 s'"
  using assms(2) by induction (auto intro: watch_inv_step [OF assms(1)])

text \<open>
  C30: Once the constructor of a watch for a message has returned, whatever happens to the watch
  until its destructor (clients that go away, cancelled calls, the source of the loop), the
  destructor leaves the reference count of the message, the cancel notifications, the sources of the
  loop and everything of others as they were before the constructor, and of the watch itself nothing
  but its status watch, and that one exactly when the bus refuses to cancel it.
\<close>

theorem watch_leaves_nothing:
  assumes "new_on self b0" "ClientWatch status_ok cancel_ok self (Some t) b0 = (Some w0, b1)"
    and "watch_life (w0, b1) (w, b)"
  shows "destroyWatch cancelled w b =
    b0\<lparr>status_watches := (if cancelled then [] else [(mCookie w, self)]) @ status_watches b0, next_id := next_id b\<rparr>"
proof -
  have inv: "watch_inv self t b0 (w, b)"
    using watch_inv_life [OF assms(1,3)] watch_inv_start [OF assms(2)] by blast
  from inv have w: "this w = self" "mMessage w = Some t" "mCookie w = next_id b0"
    and b: "message_refs b = t # message_refs b0" "status_watches b = (next_id b0, self) # status_watches b0"
      "cancel_watches b = self # cancel_watches b0"
      "loop_sources b = (if mNotificationTimeout w = 0 then [] else [(mNotificationTimeout w, self)]) @ loop_sources b0"
    and timeout: "mNotificationTimeout w = 0 \<or> next_id b0 < mNotificationTimeout w"
    by (simp_all add: watch_inv_def)
  from assms(1) have pos: "next_id b0 \<noteq> 0" by (simp add: new_on_def)
  have kept: "filter (\<lambda>e. fst e \<noteq> next_id b0) (status_watches b0) = status_watches b0"
    by (rule new_on_filter(1) [OF assms(1)]) simp
  show ?thesis
  proof (cases "mNotificationTimeout w = 0")
    case True
    with w b pos kept show ?thesis by (cases b) (simp add: destroyWatch_def Let_def)
  next
    case False
    with timeout have "filter (\<lambda>e. fst e \<noteq> mNotificationTimeout w) (loop_sources b0) = loop_sources b0"
      by (intro new_on_filter(2) [OF assms(1)]) simp
    with False w b pos kept show ?thesis by (cases b) (simp add: destroyWatch_def Let_def)
  qed
qed

definition quiet_bus :: bus where
  "quiet_bus = \<lparr>message_refs = [], status_watches = [], cancel_watches = [], loop_sources = [], next_id = 1\<rparr>"

text \<open>A client that goes away.\<close>

theorem watch_leaves_nothing_witness:
  "\<exists>w b. loop_sources b = [(mNotificationTimeout w, 7)] \<and> destroyWatch True w b = quiet_bus\<lparr>next_id := next_id b\<rparr>
     \<and> status_watches (destroyWatch False w b) = [(mCookie w, 7)]"
proof -
  obtain w0 b1 where s: "ClientWatch True True 7 (Some 3) quiet_bus = (Some w0, b1)"
    "this w0 = 7" "(1, 7) \<in> set (status_watches b1)" "mNotificationTimeout w0 = 0" "loop_sources b1 = []"
    by (simp add: ClientWatch_def startWatching_def quiet_bus_def Let_def)
  let ?t = "serverStatusCallback False w0 b1"
  have "watch_life (w0, b1) ?t"
    using s(2,3) by (intro watch_life.lives [OF watch_life.born] watch_step.status [of 1]) simp
  moreover have "new_on 7 quiet_bus" by (simp add: new_on_def quiet_bus_def)
  ultimately have "destroyWatch True (fst ?t) (snd ?t) = quiet_bus\<lparr>next_id := next_id (snd ?t)\<rparr>"
    "status_watches (destroyWatch False (fst ?t) (snd ?t)) = [(mCookie (fst ?t), 7)]"
    using watch_leaves_nothing [OF _ s(1), of "fst ?t" "snd ?t" True] watch_leaves_nothing [OF _ s(1), of "fst ?t" "snd ?t" False]
    by (simp_all add: quiet_bus_def)
  moreover have "loop_sources (snd ?t) = [(mNotificationTimeout (fst ?t), 7)]"
    using s by (simp add: serverStatusCallback_def notifyClientDisconnected_def triggerClientDroppedNotification_def)
  ultimately show ?thesis by blast
qed

text \<open>
  When the second registration of the constructor fails, its exception leaves the reference
  to the message and a registration that will call into the destroyed object.
\<close>

theorem watch_failure_leaks:
  "ClientWatch True False self (Some t) b =
     (None, b\<lparr>message_refs := t # message_refs b, status_watches := (next_id b, self) # status_watches b,
              next_id := next_id b + 1\<rparr>)"
  by (simp add: ClientWatch_def startWatching_def Let_def)

end
