(* ===== verification/Saf_Service.thy ===== *)
theory Saf_Service
  imports Saf_Internal Saf_Samba Saf_Drive_Walk Saf_Luna
begin

text \<open>
  The program as a whole: the bus, SAFLunaService, the four providers with their threads, and the
  replies of other services, as one step relation over one state. A request is handled in one
  step; the threads, the clients and the other services take turns in any order.
\<close>

section \<open>The program\<close>

text \<open>What the program runs on: the platform as each part sees it, the sessions of the bus, the registry.\<close>

record host =
  h_sys :: platform
  h_net :: net_env
  h_cloud :: cloud_env
  h_session :: "lsmsg \<Rightarrow> string"
  h_registry :: factories

text \<open>The state of the providers; the file system and the singleton's tables are shared.\<close>

record store =
  st_world :: world
  st_usb :: usb_attached
  st_net :: net_state
  st_cloud :: cloud_state

definition usb_of :: "store \<Rightarrow> usb_state" where
  "usb_of st = \<lparr>usbStorages = st_usb st, u_world = st_world st\<rparr>"

definition net_of :: "store \<Rightarrow> net_state" where
  "net_of st = (st_net st)\<lparr>n_world := st_world st\<rparr>"

definition cloud_of :: "store \<Rightarrow> cloud_state" where
  "cloud_of st = (st_cloud st)\<lparr>c_world := st_world st\<rparr>"

definition provider_handler :: "host \<Rightarrow> provider \<Rightarrow> store handler" where
  "provider_handler h p rd st =
     (case p of
        InternalStorageProvider \<Rightarrow>
          map_option (\<lambda>(es, w). (es, st\<lparr>st_world := w\<rparr>)) (internal_handleRequests (h_sys h) rd (st_world st))
      | USBStorageProvider \<Rightarrow>
          map_option (\<lambda>(es, u). (es, st\<lparr>st_world := u_world u, st_usb := usbStorages u\<rparr>))
            (usb_handleRequests (h_sys h) rd (usb_of st))
      | GDriveProvider \<Rightarrow>
          map_option (\<lambda>(es, c). (es, st\<lparr>st_world := c_world c, st_cloud := c\<rparr>))
            (gdrive_handleRequests (h_cloud h) rd (cloud_of st))
      | NetworkProvider \<Rightarrow>
          map_option (\<lambda>(es, n). (es, st\<lparr>st_world := n_world n, st_net := n\<rparr>))
            (network_handleRequests (h_net h) rd (net_of st)))"

text \<open>
  The providers' queues and threads, each with what its last request did; the calls of other
  services that wait for their answer, and those whose subscription goes on after it; what was
  received from clients and sent to them; and whether addRequest was called on a null pointer.
\<close>

record service =
  s_store :: store
  s_disp :: "provider \<Rightarrow> store dispatcher"
  s_calls :: "(ls_callback \<times> request_data) list"
  s_subscribed :: "request_data list"
  s_received :: "lsmsg list"
  s_sent :: "(lsmsg \<times> json) list"
  s_null :: bool

definition store_init :: "world \<Rightarrow> store" where
  "store_init w = \<lparr>st_world = w, st_usb = [], st_net = net_init w, st_cloud = cloud_init w\<rparr>"

definition service_init :: "world \<Rightarrow> service" where
  "service_init w =
     \<lparr>s_store = store_init w, s_disp = (\<lambda>p. dispatcher_init (store_init w)), s_calls = [], s_subscribed = [],
      s_received = [], s_sent = [], s_null = False\<rparr>"

text \<open>The events of SAFLunaService, and the effects of a provider: a reply runs the request's callback.\<close>

fun carry_event :: "luna_event \<Rightarrow> service \<Rightarrow> service" where
  "carry_event (Responded m j) s = s\<lparr>s_sent := s_sent s @ [(m, j)]\<rparr>"
| "carry_event (Queued p rd) s = s\<lparr>s_disp := (s_disp s)(p := addRequest rd (s_disp s p))\<rparr>"
| "carry_event (NullProvider rd) s = s\<lparr>s_null := True\<rparr>"

definition callback :: "host \<Rightarrow> request_data \<Rightarrow> json \<Rightarrow> luna_event list" where
  "callback h = luna_reply (h_sys h) (h_session h) (h_registry h)"

fun carry_effect :: "host \<Rightarrow> effect \<Rightarrow> service \<Rightarrow> service" where
  "carry_effect h (Reply rd j) s = fold carry_event (callback h rd j) s"
| "carry_effect h (LSCall u p k rd) s = s\<lparr>s_calls := s_calls s @ [(k, rd)]\<rparr>"

definition carry_out :: "host \<Rightarrow> effect list \<Rightarrow> service \<Rightarrow> service" where
  "carry_out h es s = fold (carry_effect h) es s"

text \<open>A client calls a method; None is a method the bus does not know.\<close>

definition client_call :: "host \<Rightarrow> string \<Rightarrow> string \<Rightarrow> lsmsg \<Rightarrow> service \<Rightarrow> service option" where
  "client_call h category method m s =
     map_option (\<lambda>f. fold carry_event (f m) (s\<lparr>s_received := s_received s @ [m]\<rparr>))
       (registerService (h_sys h) (h_session h) (h_registry h) category method)"

text \<open>The two steps of a provider's thread.\<close>

definition provider_wake :: "provider \<Rightarrow> service \<Rightarrow> service option" where
  "provider_wake p s = map_option (\<lambda>d. s\<lparr>s_disp := (s_disp s)(p := d)\<rparr>) (dispatch_wake (s_disp s p))"

definition provider_finish :: "host \<Rightarrow> provider \<Rightarrow> service \<Rightarrow> service option" where
  "provider_finish h p s =
     map_option (\<lambda>d. carry_out h (emitted d) (s\<lparr>s_store := mState d, s_disp := (s_disp s)(p := d)\<rparr>))
       (dispatch_finish (provider_handler h p) ((s_disp s p)\<lparr>mState := s_store s, emitted := []\<rparr>))"

text \<open>The static reply functions, with the answer of the service that was called.\<close>

definition call_reply ::
  "host \<Rightarrow> ls_callback \<Rightarrow> request_data \<Rightarrow> string \<Rightarrow> store \<Rightarrow> effect list \<times> store" where
  "call_reply h k rd message st =
     (case k of
        USBStorageProvider_onListStoragesMethodReply \<Rightarrow>
          (case usb_onListStoragesMethodReply (h_sys h) rd message (usb_of st) of
             (es, u) \<Rightarrow> (es, st\<lparr>st_usb := usbStorages u\<rparr>))
      | USBStorageProvider_onGetPropertiesReply \<Rightarrow>
          (fst (usb_onGetPropertiesReply (h_sys h) (usb_of st) rd message), st)
      | USBStorageProvider_onReply \<Rightarrow> (fst (usb_onReply (h_sys h) rd message), st)
      | InternalStorageProvider_onReply \<Rightarrow> (fst (internal_onReply (h_sys h) rd message), st))"

text \<open>
  The answer to the i-th call. The attached devices are subscribed to and the call is not
  cancelled, so that more answers may come; the keys they put are the keys of the first one.
\<close>

definition service_answer :: "host \<Rightarrow> nat \<Rightarrow> string \<Rightarrow> service \<Rightarrow> service option" where
  "service_answer h i message s =
     (if i < length (s_calls s)
      then (let (k, rd) = s_calls s ! i;
                (es, st) = call_reply h k rd message (s_store s)
            in Some (carry_out h es
                 (s\<lparr>s_store := st, s_calls := take i (s_calls s) @ drop (Suc i) (s_calls s),
                    s_subscribed := (if k = USBStorageProvider_onListStoragesMethodReply
                                     then s_subscribed s @ [rd] else s_subscribed s)\<rparr>)))
      else None)"

definition device_update :: "host \<Rightarrow> nat \<Rightarrow> string \<Rightarrow> service \<Rightarrow> service option" where
  "device_update h i message s =
     (if i < length (s_subscribed s)
      then (let (es, st) = call_reply h USBStorageProvider_onListStoragesMethodReply (s_subscribed s ! i) message
                             (s_store s)
            in Some (carry_out h es (s\<lparr>s_store := st\<rparr>)))
      else None)"

text \<open>A step of the program's own: a thread goes on, or a service that was called answers in JSON.\<close>

inductive own_step :: "host \<Rightarrow> service \<Rightarrow> service \<Rightarrow> bool" for h where
  wake: "provider_wake p s = Some s' \<Longrightarrow> own_step h s s'"
| finish: "provider_finish h p s = Some s' \<Longrightarrow> own_step h s s'"
| answer: "service_answer h i message s = Some s' \<Longrightarrow> dom_parse (h_sys h) message \<noteq> None \<Longrightarrow> own_step h s s'"

inductive service_step :: "host \<Rightarrow> service \<Rightarrow> service \<Rightarrow> bool" for h where
  own: "own_step h s s' \<Longrightarrow> service_step h s s'"
| client: "client_call h category method m s = Some s' \<Longrightarrow> service_step h s s'"
| garbage: "service_answer h i message s = Some s' \<Longrightarrow> dom_parse (h_sys h) message = None \<Longrightarrow> service_step h s s'"
| update: "device_update h i message s = Some s' \<Longrightarrow> service_step h s s'"

inductive service_reach :: "host \<Rightarrow> world \<Rightarrow> service \<Rightarrow> bool" for h w where
  start: "service_reach h w (service_init w)"
| step: "service_reach h w s \<Longrightarrow> service_step h s s' \<Longrightarrow> service_reach h w s'"

end
