(* ===== verification/Saf_Service_Budget.thy ===== *)
theory Saf_Service_Budget
  imports Saf_Service
begin

text \<open>
  What one handler or reply function does, seen from the program: its effects belong to the
  message of its request, the tables of other providers stay as they are, and the steps its
  effects can still cause are fewer than those the request stood for.
\<close>

section \<open>What a handler does, seen from the program\<close>

text \<open>The tables of mounted shares are written by the network provider alone.\<close>

lemma w_samba_getInternalPath [keeps_samba]: "getInternalPath pf sid w = (x, w') \<Longrightarrow> w_samba w' = w_samba w"
  by (auto simp: getInternalPath_def Let_def split: if_splits prod.splits option.splits fs_error.splits)

lemma internal_keeps_samba:
  "internal_handleRequests pf rd w = Some (es, w') \<Longrightarrow> list_all is_reply es \<and> w_samba w' = w_samba w"
  by (cases "methodType rd")
    (auto simp: internal_handleRequests_def internal_methods handler_simps dest!: keeps_samba validate_replies
      split: if_splits prod.splits)

lemma usb_keeps_samba:
  "usb_handleRequests pf rd u = Some (es, u') \<Longrightarrow> usbStorages u' = usbStorages u \<and> w_samba (u_world u') = w_samba (u_world u)"
  by (cases "methodType rd")
    (auto simp: usb_handleRequests_def usb_listStoragesMethod_def usb_getPropertiesMethod_def usb_ejectMethod_def
      usb_copyMethod_def usb_moveMethod_def usb_removeMethod_def usb_renameMethod_def
      usb_listFolderContentsMethod_def handler_simps dest!: keeps_samba split: if_splits prod.splits option.splits)

lemma answered_replies [simp]: "answers_to rd (Reply (with_response r rd) j)"
  by (simp add: with_response_def)

lemma network_effects:
  assumes "network_handleRequests env rd n = Some (es, n')"
  shows "list_all (\<lambda>e. answers_to rd e \<and> is_reply e) es"
proof -
  have v: "list_all (\<lambda>e. answers_to rd e \<and> is_reply e) out"
    if "validateInterProviderOperation env rd w = (b, out)" for w b out
    using validate_effects(3) [OF that] validate_replies [OF that] by (simp add: list_all_iff)
  show ?thesis
  proof (cases "methodType rd")
    case EXTRA_METHOD
    with assms show ?thesis
      by (auto simp: network_handleRequests_def extraMethod_def mountSambaServer_def mount_share_def
          discoverUPnPMediaServer_def Let_def split: if_splits prod.splits option.splits bool.splits)
  next
    case LIST_METHOD
    with assms show ?thesis
      by (auto simp: network_handleRequests_def network_list_def network_list_samba_def network_list_upnp_def Let_def
          split: if_splits prod.splits option.splits)
  next
    case GET_PROP_METHOD
    with assms show ?thesis
      by (auto simp: network_handleRequests_def network_getProperties_def samba_properties_def upnp_properties_def
          Let_def split: if_splits prod.splits option.splits)
  next
    case EJECT_METHOD
    with assms show ?thesis
      by (auto simp: network_handleRequests_def network_eject_def Let_def split: if_splits prod.splits option.splits)
  qed (use assms in \<open>auto simp: network_handleRequests_def network_copy_def network_move_def network_remove_def
        network_rename_def network_listStoragesMethod_def handler_simps dest: v
        split: if_splits prod.splits option.splits\<close>)
qed

text \<open>What each provider promises the program, whatever the request and however it ends.\<close>

lemma cloud_effects:
  assumes "gdrive_handleRequests env rd c = Some (es, c')" "cloud_inv c"
  shows "list_all (answers_to rd) es" "list_all is_reply es"
    "w_samba (c_world c') = w_samba (c_world c)" "cloud_inv c'"
  using assms cloud_settles [of c rd env] cloud_unsupported [of rd env c] gdrive_just_replies [of c env rd]
  by (cases "cloud_methods (methodType rd)"; auto simp: settles_def list_all_iff)+

lemma internal_effects:
  "internal_handleRequests pf rd w = Some (es, w') \<Longrightarrow> list_all (answers_to rd) es"
  using internal_supported [of rd pf w] internal_unsupported [of rd pf w]
  by (cases "storage_methods (methodType rd)") (auto simp: list_all_iff)

lemma usb_effects:
  "usb_handleRequests pf rd u = Some (es, u') \<Longrightarrow> list_all (answers_to rd) es"
  using usb_supported [of rd pf u] usb_unsupported [of rd pf u]
  by (cases "usb_methods (methodType rd)") (auto simp: list_all_iff)

lemma handler_effects:
  assumes "provider_handler h p rd st = Some (es, st')" "cloud_inv (cloud_of st)"
  shows "list_all (answers_to rd) es" "p \<noteq> USBStorageProvider \<Longrightarrow> list_all is_reply es"
proof -
  have n: "list_all (answers_to rd) es \<and> list_all is_reply es"
    if "network_handleRequests (h_net h) rd (net_of st) = Some (es, n')" for n'
    using network_effects [OF that] by (simp add: list_all_iff)
  show "list_all (answers_to rd) es" "p \<noteq> USBStorageProvider \<Longrightarrow> list_all is_reply es"
    using assms n
    by (cases p; auto simp: provider_handler_def dest: internal_effects usb_effects internal_keeps_samba cloud_effects)+
qed

lemma handler_store:
  assumes "provider_handler h p rd st = Some (es, st')"
  shows "p \<noteq> NetworkProvider \<Longrightarrow> cloud_inv (cloud_of st) \<Longrightarrow>
      w_samba (st_world st') = w_samba (st_world st) \<and> st_net st' = st_net st"
    "p = NetworkProvider \<Longrightarrow> network_handleRequests (h_net h) rd (net_of st) = Some (es, net_of st')"
    "cloud_inv (cloud_of st) \<Longrightarrow> cloud_inv (cloud_of st')"
  using assms
  by (cases p; auto simp: provider_handler_def net_of_def cloud_of_def usb_of_def
      dest: internal_keeps_samba usb_keeps_samba cloud_effects)+

section \<open>The chain over the providers\<close>

fun provider_type :: "provider \<Rightarrow> storage_type" where
  "provider_type InternalStorageProvider = INTERNAL"
| "provider_type USBStorageProvider = USB"
| "provider_type GDriveProvider = GDRIVE"
| "provider_type NetworkProvider = NETWORK"

fun next_provider :: "provider \<Rightarrow> provider option" where
  "next_provider USBStorageProvider = Some InternalStorageProvider"
| "next_provider InternalStorageProvider = Some GDriveProvider"
| "next_provider GDriveProvider = Some NetworkProvider"
| "next_provider NetworkProvider = None"

text \<open>
  The requests of the chain are those bound to onListOfStoragesReply; their parameters name the
  provider they are at.
\<close>

definition collecting :: "request_data \<Rightarrow> bool" where
  "collecting rd \<longleftrightarrow> cb rd = onListOfStoragesReply"

definition request_ok :: "provider \<Rightarrow> request_data \<Rightarrow> bool" where
  "request_ok p rd \<longleftrightarrow>
     (collecting rd \<longleftrightarrow> methodType rd = LIST_STORAGES_METHOD)
     \<and> (collecting rd \<longrightarrow> getStorageDeviceType (params rd) = provider_type p)"

fun call_ok :: "ls_callback \<times> request_data \<Rightarrow> bool" where
  "call_ok (k, rd) \<longleftrightarrow>
     (collecting rd \<longleftrightarrow> k = USBStorageProvider_onListStoragesMethodReply) \<and> (collecting rd \<longrightarrow> isObject (params rd))"

text \<open>What belongs to a message: an answer to it, a request or a call made for it.\<close>

fun event_ok :: "lsmsg \<Rightarrow> luna_event \<Rightarrow> bool" where
  "event_ok m (Responded m' j) \<longleftrightarrow> m' = m"
| "event_ok m (Queued p rd) \<longleftrightarrow> subs rd = m \<and> request_ok p rd"
| "event_ok m (NullProvider rd) \<longleftrightarrow> False"

text \<open>A callback gives one event; if it is a request, it is the next one of a chain.\<close>

fun effect_ok :: "host \<Rightarrow> lsmsg \<Rightarrow> effect \<Rightarrow> bool" where
  "effect_ok h m (Reply rd j) \<longleftrightarrow>
     (\<exists>ev. callback h rd j = [ev] \<and> event_ok m ev \<and> (case ev of Queued p rd' \<Rightarrow> collecting rd' | _ \<Rightarrow> True))"
| "effect_ok h m (LSCall u p k rd) \<longleftrightarrow> subs rd = m \<and> call_ok (k, rd)"

text \<open>
  The steps a request can still cause: the two of each thread it goes through and the answers of
  the calls it makes, one for each of its \<open>nextReq\<close>.
\<close>

definition pending_calls :: "request_data \<Rightarrow> nat" where
  "pending_calls rd = length (elements (jget (params rd) ''nextReq''))"

fun stage :: "provider \<Rightarrow> nat" where
  "stage NetworkProvider = 2"
| "stage GDriveProvider = 4"
| "stage InternalStorageProvider = 6"
| "stage USBStorageProvider = 9"

definition request_load :: "provider \<Rightarrow> request_data \<Rightarrow> nat" where
  "request_load p rd =
     (if collecting rd then stage p else if p = USBStorageProvider then 4 + pending_calls rd else 2)"

fun call_load :: "ls_callback \<times> request_data \<Rightarrow> nat" where
  "call_load (k, rd) = (if k = USBStorageProvider_onListStoragesMethodReply then 7 else 1 + pending_calls rd)"

fun event_load :: "luna_event \<Rightarrow> nat" where
  "event_load (Queued p rd) = request_load p rd"
| "event_load _ = 0"

fun effect_load :: "host \<Rightarrow> effect \<Rightarrow> nat" where
  "effect_load h (Reply rd j) = sum_list (map event_load (callback h rd j))"
| "effect_load h (LSCall u p k rd) = call_load (k, rd)"

subsection \<open>Callbacks\<close>

lemma jget_jput_other: "k \<noteq> k' \<Longrightarrow> jget (jput k v j) k' = jget j k'"
  by (cases j) (simp_all add: jput.simps jget_def map_of_members_put)

lemma type_jput_other [simp]:
  "k \<noteq> ''storageType'' \<Longrightarrow> k \<noteq> ''srcStorageType'' \<Longrightarrow> getStorageDeviceType (jput k v j) = getStorageDeviceType j"
  by (simp add: getStorageDeviceType_def jget_jput_other cong: json.case_cong)

lemma known_type_object: "getStorageDeviceType j \<noteq> INVALID \<Longrightarrow> isObject j"
  by (cases j) (auto simp: getStorageDeviceType_def jget_def)

lemma provider_type_known [simp]: "provider_type p \<noteq> INVALID"
  by (cases p) simp_all

lemma callback_relays:
  "\<not> collecting rd \<Longrightarrow> subs rd = m \<Longrightarrow> effect_ok h m (Reply rd j) \<and> effect_load h (Reply rd j) = 0"
  using luna_reply_one [of rd "h_sys h" "h_session h" "h_registry h" j]
  by (auto simp: callback_def collecting_def)

lemma callback_collects:
  assumes "all_registered (h_registry h)" "collecting rd" "getStorageDeviceType j = provider_type p" "subs rd = m"
  shows "effect_ok h m (Reply rd j) \<and> effect_load h (Reply rd j) = (case next_provider p of Some q \<Rightarrow> stage q | None \<Rightarrow> 0)"
proof -
  have o: "isObject j" using known_type_object assms(3) by simp
  have n: "\<exists>rd'. next_storage (h_sys h) (h_session h) (h_registry h) type arr j m = [Queued q rd']
      \<and> subs rd' = m \<and> collecting rd' \<and> request_ok q rd'"
    if "storage_type_of type = provider_type q" for type arr q
  proof -
    have "createDocumentProvider (h_registry h) (provider_type q) = Some q"
      using registered_provider [OF assms(1)] by (cases q) (simp_all add: createDocumentProvider_def)
    from next_registered [OF assms(1) o that provider_type_known this, of "h_sys h" "h_session h" arr m] that o
    show ?thesis by (simp add: REQUEST_BUILDER_def collecting_def request_ok_def)
  qed
  have l: "callback h rd j = luna_onListOfStoragesReply (h_sys h) (h_session h) (h_registry h) j m"
    using assms(2,4) by (simp add: callback_def luna_reply_def collecting_def)
  have e: "\<exists>rd'. next_storage (h_sys h) (h_session h) (h_registry h) type arr j m = [Queued q rd']
      \<and> subs rd' = m \<and> collecting rd' \<and> request_ok q rd'
      \<and> sum_list (map event_load (next_storage (h_sys h) (h_session h) (h_registry h) type arr j m)) = stage q"
    if "storage_type_of type = provider_type q" for type arr q
    using n [OF that, of arr] by (auto simp: request_load_def)
  show ?thesis
  proof (cases p)
    case USBStorageProvider
    with assms(3) e [of "''internal''" InternalStorageProvider] show ?thesis
      by (fastforce simp: l luna_onListOfStoragesReply_def)
  next
    case InternalStorageProvider
    with assms(3) e [of "''cloud''" GDriveProvider "collect_storage j"] show ?thesis
      by (auto simp: l luna_onListOfStoragesReply_def)
  next
    case GDriveProvider
    with assms(3) e [of "''network''" NetworkProvider "collect_storage j"] show ?thesis
      by (auto simp: l luna_onListOfStoragesReply_def)
  next
    case NetworkProvider
    with assms(3) show ?thesis by (simp add: l luna_onListOfStoragesReply_def)
  qed
qed

subsection \<open>Handlers and reply functions\<close>

text \<open>The chain's requests, at the providers that answer them at once.\<close>

lemma storages_answer:
  assumes "methodType rd = LIST_STORAGES_METHOD" "p \<noteq> USBStorageProvider"
    and "provider_handler h p rd st = Some (es, st')"
  shows "\<exists>x. es = [Reply (rd\<lparr>params := x\<rparr>) x] \<and> getStorageDeviceType x = getStorageDeviceType (params rd)"
  using assms
  by (cases p) (auto simp: provider_handler_def internal_handleRequests_def internal_listStoragesMethod_def
      with_response_def network_handleRequests_def network_listStoragesMethod_def network_response_def
      gdrive_handleRequests_def gdrive_listStoragesMethod_def Let_def split: prod.splits)

lemma usb_storages_call:
  "methodType rd = LIST_STORAGES_METHOD \<Longrightarrow> provider_handler h USBStorageProvider rd st = Some (es, st') \<Longrightarrow>
   \<exists>u pl. es = [LSCall u pl USBStorageProvider_onListStoragesMethodReply rd]"
  by (auto simp: provider_handler_def usb_handleRequests_def usb_listStoragesMethod_def)

lemma pending_calls_put:
  "pending_calls (rd\<lparr>params := jput ''nextReq'' (JArr [j]) (params rd)\<rparr>) \<le> pending_calls rd + 1"
  by (cases "isObject (params rd)") (simp_all add: pending_calls_def, cases "params rd", simp_all add: jput.simps)

lemma usb_other_effects:
  assumes "methodType rd \<noteq> LIST_STORAGES_METHOD" "usb_handleRequests pf rd u = Some (es, u')"
  shows "list_all is_reply es \<or> (\<exists>uri pl k rd'. es = [LSCall uri pl k rd']
      \<and> k \<noteq> USBStorageProvider_onListStoragesMethodReply \<and> pending_calls rd' \<le> pending_calls rd + 1)"
  using assms pending_calls_put [where rd = rd]
  by (cases "methodType rd")
    (auto simp: usb_handleRequests_def usb_getPropertiesMethod_def usb_ejectMethod_def
      usb_copyMethod_def usb_moveMethod_def usb_removeMethod_def usb_renameMethod_def
      usb_listFolderContentsMethod_def handler_simps dest!: validate_replies split: if_splits prod.splits option.splits)

lemma reply_relayed:
  "\<not> collecting rd \<Longrightarrow> answers_to rd e \<Longrightarrow> is_reply e \<Longrightarrow> effect_ok h (subs rd) e \<and> effect_load h e = 0"
  by (cases e) (simp_all add: collecting_def answers_to_def callback_relays del: effect_ok.simps effect_load.simps)

lemma relayed_effects:
  assumes "\<not> collecting rd" "list_all (answers_to rd) es" "list_all is_reply es"
  shows "list_all (effect_ok h (subs rd)) es" "sum_list (map (effect_load h) es) = 0"
proof -
  have e: "effect_ok h (subs rd) e \<and> effect_load h e = 0" if "e \<in> set es" for e
    using that assms(2,3) by (intro reply_relayed assms(1)) (simp_all add: list_all_iff)
  then show "list_all (effect_ok h (subs rd)) es" by (simp add: list_all_iff)
  from e have "map (effect_load h) es = map (\<lambda>e. 0) es" by (intro map_cong) auto
  then show "sum_list (map (effect_load h) es) = 0" by simp
qed

text \<open>A handler's effects belong to its request, and they cost less than the request did.\<close>

lemma handler_in_budget:
  assumes reg: "all_registered (h_registry h)" and ok: "request_ok p rd"
    and run: "provider_handler h p rd st = Some (es, st')" and inv: "cloud_inv (cloud_of st)"
  shows "list_all (effect_ok h (subs rd)) es" "sum_list (map (effect_load h) es) + 2 \<le> request_load p rd"
proof -
  note e = handler_effects [OF run inv]
  have "list_all (effect_ok h (subs rd)) es \<and> sum_list (map (effect_load h) es) + 2 \<le> request_load p rd"
  proof (cases "collecting rd")
    case True
    with ok have m: "methodType rd = LIST_STORAGES_METHOD" and t: "getStorageDeviceType (params rd) = provider_type p"
      by (simp_all add: request_ok_def)
    show ?thesis
    proof (cases "p = USBStorageProvider")
      case True
      with run usb_storages_call [OF m, of h st es st'] obtain u pl where
        "es = [LSCall u pl USBStorageProvider_onListStoragesMethodReply rd]" by auto
      with True \<open>collecting rd\<close> t known_type_object [of "params rd"]
      show ?thesis by (simp add: request_load_def)
    next
      case False
      from storages_answer [OF m this run] t obtain x where
        x: "es = [Reply (rd\<lparr>params := x\<rparr>) x]" "getStorageDeviceType x = provider_type p" by auto
      with callback_collects [OF reg, of "rd\<lparr>params := x\<rparr>" x p "subs rd"] True False show ?thesis
        by (cases p) (auto simp: collecting_def request_load_def)
    qed
  next
    case False
    then have m: "methodType rd \<noteq> LIST_STORAGES_METHOD" using ok by (simp add: request_ok_def)
    show ?thesis
    proof (cases "list_all is_reply es")
      case True
      note r = relayed_effects [OF False e(1) this, of h]
      show ?thesis using False r(1) by (simp add: r(2) request_load_def)
    next
      case calls: False
      with e(2) have u: "p = USBStorageProvider" by auto
      with run obtain u' where "usb_handleRequests (h_sys h) rd (usb_of st) = Some (es, u')"
        by (auto simp: provider_handler_def)
      from usb_other_effects [OF m this] calls e(1) False u show ?thesis
        by (auto simp: answers_to_def collecting_def request_load_def)
    qed
  qed
  then show "list_all (effect_ok h (subs rd)) es" "sum_list (map (effect_load h) es) + 2 \<le> request_load p rd"
    by auto
qed

lemma collect_nextReq: "jget (collect_response js p) ''nextReq'' = jget p ''nextReq''"
  by (simp add: collect_response_def Let_def jget_jput_other)

lemma next_call_in_budget:
  assumes "\<not> collecting rd" "k \<noteq> USBStorageProvider_onListStoragesMethodReply"
  shows "list_all (effect_ok h (subs rd)) (fst (next_call pf k rd))"
    "sum_list (map (effect_load h) (fst (next_call pf k rd))) + 1 \<le> 1 + pending_calls rd"
    "fst (next_call pf k rd) \<noteq> []"
proof -
  have c: "collecting (rd\<lparr>params := x\<rparr>) = collecting rd" for x by (simp add: collecting_def)
  note r = callback_relays [OF assms(1) refl, of h]
  have "isObject (params rd)" if "hasKey (params rd) ''nextReq''"
    using that by (cases "params rd") (simp_all add: hasKey_def)
  with assms r show "list_all (effect_ok h (subs rd)) (fst (next_call pf k rd))"
    "sum_list (map (effect_load h) (fst (next_call pf k rd))) + 1 \<le> 1 + pending_calls rd"
    "fst (next_call pf k rd) \<noteq> []"
    by (auto simp: next_call_def Let_def c pending_calls_def arraySize_def simp del: effect_ok.simps(1) effect_load.simps(1))
qed

text \<open>So do those of the reply functions; an answer that parses is always followed by one.\<close>

lemma call_in_budget:
  assumes reg: "all_registered (h_registry h)" and ok: "call_ok (k, rd)"
    and run: "call_reply h k rd message st = (es, st')"
  shows "list_all (effect_ok h (subs rd)) es" "sum_list (map (effect_load h) es) + 1 \<le> call_load (k, rd)"
    "dom_parse (h_sys h) message \<noteq> None \<Longrightarrow> es \<noteq> []"
proof -
  have n: "list_all (effect_ok h (subs rd)) (fst (next_call (h_sys h) k' (rd\<lparr>params := collect_response js (params rd)\<rparr>)))"
    "sum_list (map (effect_load h) (fst (next_call (h_sys h) k' (rd\<lparr>params := collect_response js (params rd)\<rparr>))))
       \<le> pending_calls rd"
    "fst (next_call (h_sys h) k' (rd\<lparr>params := collect_response js (params rd)\<rparr>)) \<noteq> []"
    if "\<not> collecting rd" "k' \<noteq> USBStorageProvider_onListStoragesMethodReply" for k' js
  proof -
    let ?rd = "rd\<lparr>params := collect_response js (params rd)\<rparr>"
    have c: "\<not> collecting ?rd" "subs ?rd = subs rd" "pending_calls ?rd = pending_calls rd"
      using that(1) by (simp_all add: collecting_def pending_calls_def collect_nextReq)
    show "list_all (effect_ok h (subs rd)) (fst (next_call (h_sys h) k' ?rd))"
      using next_call_in_budget(1) [OF c(1) that(2)] by (simp add: c(2))
    show "sum_list (map (effect_load h) (fst (next_call (h_sys h) k' ?rd))) \<le> pending_calls rd"
      using next_call_in_budget(2) [OF c(1) that(2), of h "h_sys h"] by (simp add: c(3))
    show "fst (next_call (h_sys h) k' ?rd) \<noteq> []" by (rule next_call_in_budget(3) [OF c(1) that(2)])
  qed
  have l: "effect_ok h (subs rd) (Reply (rd\<lparr>params := x\<rparr>) x)
      \<and> effect_load h (Reply (rd\<lparr>params := x\<rparr>) x) = 6"
    if "k = USBStorageProvider_onListStoragesMethodReply"
      "x = jputs [(''response'', j), (''storageType'', JStr ''usb'')] (params rd)" for x j
    using callback_collects [OF reg, of "rd\<lparr>params := x\<rparr>" x USBStorageProvider "subs rd"] that ok
    by (simp add: collecting_def)
  have "list_all (effect_ok h (subs rd)) es \<and> sum_list (map (effect_load h) es) + 1 \<le> call_load (k, rd)
      \<and> (dom_parse (h_sys h) message \<noteq> None \<longrightarrow> es \<noteq> [])"
  proof (cases k)
    case USBStorageProvider_onListStoragesMethodReply
    with run l show ?thesis
      by (auto simp: call_reply_def usb_onListStoragesMethodReply_def Let_def
          simp del: effect_ok.simps effect_load.simps split: option.splits)
  qed (use run ok n in \<open>auto simp: call_reply_def usb_onGetPropertiesReply_def usb_onReply_def
      internal_onReply_def Let_def split: option.splits\<close>)
  then show "list_all (effect_ok h (subs rd)) es" "sum_list (map (effect_load h) es) + 1 \<le> call_load (k, rd)"
    "dom_parse (h_sys h) message \<noteq> None \<Longrightarrow> es \<noteq> []"
    by auto
qed

lemma call_store:
  "call_reply h k rd message st = (es, st') \<Longrightarrow>
   st_world st' = st_world st \<and> st_net st' = st_net st \<and> st_cloud st' = st_cloud st"
  by (auto simp: call_reply_def split: ls_callback.splits prod.splits)

end
