(* ===== verification/Saf_Service_Invariant.thy ===== *)
theory Saf_Service_Invariant
  imports Saf_Service_Budget
begin

text \<open>
  The invariant of the program, kept by every step: requests, calls and answers belong to messages
  that were received, the requests of a chain are where they should be, no thread has stopped,
  and the tables of the cloud and of the Samba shares are in step.
\<close>

section \<open>The invariant of the program\<close>

definition open_requests :: "'s dispatcher \<Rightarrow> request_data list" where
  "open_requests d = in_flight d @ mQueue d"

text \<open>A queue and its thread hold good requests of messages that were received; no thread has stopped.\<close>

definition disp_ok :: "lsmsg set \<Rightarrow> provider \<Rightarrow> 's dispatcher \<Rightarrow> bool" where
  "disp_ok ms p d \<longleftrightarrow> \<not> mQuit d \<and> mThread d \<noteq> Stopped
     \<and> (\<forall>rd \<in> set (open_requests d). request_ok p rd \<and> subs rd \<in> ms)"

text \<open>
  The tables of the providers: the cloud's and, until the counter of drive ids may have wrapped, the
  network's. The network has issued no more ids than it has handled requests.
\<close>

definition tables_ok :: "service \<Rightarrow> bool" where
  "tables_ok s \<longleftrightarrow>
     (let d = s_disp s NetworkProvider; st = s_store s
      in cloud_inv (cloud_of st)
       \<and> unat (samba_id (st_net st)) + length (open_requests d) \<le> length (submitted d)
       \<and> (length (submitted d) < 2 ^ 32 \<longrightarrow> samba_inv (net_of st)))"

definition service_ok :: "service \<Rightarrow> bool" where
  "service_ok s \<longleftrightarrow>
     (let ms = set (s_received s)
      in \<not> s_null s \<and> tables_ok s \<and> (\<forall>p. disp_ok ms p (s_disp s p))
       \<and> (\<forall>c \<in> set (s_calls s). call_ok c \<and> subs (snd c) \<in> ms)
       \<and> (\<forall>rd \<in> set (s_subscribed s). call_ok (USBStorageProvider_onListStoragesMethodReply, rd) \<and> subs rd \<in> ms)
       \<and> fst ` set (s_sent s) \<subseteq> ms)"

text \<open>The messages with a request or a call under way, and those answered since the k-th answer.\<close>

definition waiting :: "service \<Rightarrow> lsmsg set" where
  "waiting s = (\<Union>p. subs ` set (open_requests (s_disp s p))) \<union> subs ` snd ` set (s_calls s)"

definition answered_from :: "nat \<Rightarrow> service \<Rightarrow> lsmsg set" where
  "answered_from k s = fst ` set (drop k (s_sent s))"

lemma answered_from_mono: "prefix (s_sent s) (s_sent s') \<Longrightarrow> answered_from k s \<subseteq> answered_from k s'"
  by (auto simp: answered_from_def prefix_def)

text \<open>The steps that are left: an upper bound.\<close>

definition disp_load :: "provider \<Rightarrow> 's dispatcher \<Rightarrow> nat" where
  "disp_load p d = sum_list (map (request_load p) (mQueue d))
     + (case mThread d of Busy rd \<Rightarrow> request_load p rd - 1 | _ \<Rightarrow> 0)"

definition service_load :: "service \<Rightarrow> nat" where
  "service_load s =
     disp_load InternalStorageProvider (s_disp s InternalStorageProvider)
     + disp_load USBStorageProvider (s_disp s USBStorageProvider)
     + disp_load GDriveProvider (s_disp s GDriveProvider)
     + disp_load NetworkProvider (s_disp s NetworkProvider) + sum_list (map call_load (s_calls s))"

subsection \<open>Carrying out effects\<close>

lemma open_addRequest [simp]: "open_requests (addRequest rd d) = open_requests d @ [rd]"
  by (simp add: open_requests_def addRequest_def in_flight_def)

lemma addRequest_simps [simp]:
  "mQuit (addRequest rd d) = mQuit d" "mThread (addRequest rd d) = mThread d"
  "submitted (addRequest rd d) = submitted d @ [rd]" "disp_load p (addRequest rd d) = disp_load p d + request_load p rd"
  by (simp_all add: addRequest_def disp_load_def)

lemma service_load_put:
  "service_load (s\<lparr>s_disp := (s_disp s)(p := d)\<rparr>) + disp_load p (s_disp s p) = service_load s + disp_load p d"
  by (cases p) (simp_all add: service_load_def)

text \<open>What carrying out the effects of a request of the message changes.\<close>

definition carried :: "lsmsg \<Rightarrow> nat \<Rightarrow> service \<Rightarrow> service \<Rightarrow> bool" where
  "carried m n s s' \<longleftrightarrow>
     (service_ok s \<longrightarrow> m \<in> set (s_received s) \<longrightarrow> service_ok s')
     \<and> service_load s' = service_load s + n \<and> s_received s' = s_received s
     \<and> waiting s \<subseteq> waiting s' \<and> prefix (s_sent s) (s_sent s')"

lemma carried_refl: "carried m 0 s s"
  by (simp add: carried_def)

lemma carried_trans: "carried m k s s1 \<Longrightarrow> carried m n s1 s2 \<Longrightarrow> carried m (k + n) s s2"
  by (auto simp: carried_def dest: prefix_order.order_trans)

lemma service_ok_queue:
  assumes "service_ok s" "subs rd \<in> set (s_received s)" "request_ok p rd"
  shows "service_ok (s\<lparr>s_disp := (s_disp s)(p := addRequest rd (s_disp s p))\<rparr>)"
  using assms by (cases p) (simp_all add: service_ok_def disp_ok_def tables_ok_def Let_def all_conj_distrib)

lemma carry_event_carried:
  assumes "event_ok m ev"
  shows "carried m (event_load ev) s (carry_event ev s)"
proof (cases ev)
  case (Queued p rd)
  with assms have rd: "subs rd = m" "request_ok p rd" by simp_all
  have "service_load (carry_event ev s) = service_load s + request_load p rd"
    using service_load_put [of s p "addRequest rd (s_disp s p)"] Queued by simp
  moreover have "waiting s \<subseteq> waiting (carry_event ev s)"
    unfolding waiting_def by (intro Un_mono UN_mono) (use Queued in auto)
  ultimately show ?thesis
    using Queued rd service_ok_queue [of s rd p] by (simp add: carried_def)
next
  case (Responded m' j)
  with assms show ?thesis
    by (auto simp: carried_def waiting_def service_ok_def service_load_def tables_ok_def Let_def)
qed (use assms in simp)

lemma carry_event_settles:
  assumes "event_ok m ev" "k \<le> length (s_sent s)"
  shows "m \<in> waiting (carry_event ev s) \<union> answered_from k (carry_event ev s)"
proof (cases ev)
  case (Queued p rd)
  with assms have "rd \<in> set (open_requests (s_disp (carry_event ev s) p))" "subs rd = m" by simp_all
  then show ?thesis unfolding waiting_def by blast
qed (use assms in \<open>auto simp: answered_from_def\<close>)

lemma carry_effect_carried:
  assumes "effect_ok h m e"
  shows "carried m (effect_load h e) s (carry_effect h e s)"
proof (cases e)
  case (Reply rd j)
  with assms obtain ev where "callback h rd j = [ev]" "event_ok m ev" by auto
  with Reply show ?thesis using carry_event_carried [of m ev s] by simp
next
  case (LSCall u p c rd)
  with assms show ?thesis
    by (auto simp: carried_def waiting_def service_ok_def service_load_def tables_ok_def Let_def)
qed

lemma carry_effect_settles:
  assumes "effect_ok h m e" "k \<le> length (s_sent s)"
  shows "m \<in> waiting (carry_effect h e s) \<union> answered_from k (carry_effect h e s)"
proof (cases e)
  case (Reply rd j)
  with assms obtain ev where "callback h rd j = [ev]" "event_ok m ev" by auto
  with Reply show ?thesis using carry_event_settles [of m ev k s] assms(2) by simp
qed (use assms in \<open>auto simp: waiting_def\<close>)

lemma carry_out_carried:
  "list_all (effect_ok h m) es \<Longrightarrow> carried m (sum_list (map (effect_load h) es)) s (carry_out h es s)"
proof (induction es arbitrary: s)
  case (Cons e es)
  then have "carried m (effect_load h e) s (carry_effect h e s)"
    "carried m (sum_list (map (effect_load h) es)) (carry_effect h e s) (carry_out h es (carry_effect h e s))"
    by (simp_all add: carry_effect_carried)
  from carried_trans [OF this] show ?case by (simp add: carry_out_def)
qed (simp add: carry_out_def carried_refl)

lemma carry_out_settles:
  assumes "list_all (effect_ok h m) es" "es \<noteq> []" "k \<le> length (s_sent s)"
  shows "m \<in> waiting (carry_out h es s) \<union> answered_from k (carry_out h es s)"
proof (cases es)
  case (Cons e es')
  with assms have "m \<in> waiting (carry_effect h e s) \<union> answered_from k (carry_effect h e s)"
    "carried m (sum_list (map (effect_load h) es')) (carry_effect h e s) (carry_out h es' (carry_effect h e s))"
    using carry_effect_settles [of h m e k s] by (simp_all add: carry_out_carried)
  with Cons answered_from_mono [of "carry_effect h e s" "carry_out h es' (carry_effect h e s)" k]
  show ?thesis by (auto simp: carried_def carry_out_def)
qed (use assms in simp)

text \<open>The requests that effects add are those of a chain.\<close>

lemma carry_out_open:
  "x \<in> set (open_requests (s_disp (carry_out h es s) q)) \<Longrightarrow> list_all (effect_ok h m) es \<Longrightarrow>
   x \<in> set (open_requests (s_disp s q)) \<or> collecting x"
proof (induction es arbitrary: s)
  case (Cons e es)
  have "x \<in> set (open_requests (s_disp s q)) \<or> collecting x" if "x \<in> set (open_requests (s_disp (carry_effect h e s) q))"
  proof (cases e)
    case (Reply rd j)
    with Cons.prems(2) obtain ev where "callback h rd j = [ev]" "case ev of Queued p rd' \<Rightarrow> collecting rd' | _ \<Rightarrow> True"
      by auto
    with that Reply show ?thesis by (cases ev) (auto split: if_splits)
  qed (use that in simp)
  with Cons show ?case by (auto simp: carry_out_def)
qed (simp add: carry_out_def)

subsection \<open>The steps\<close>

lemma request_load_pos: "2 \<le> request_load p rd"
  by (cases p) (simp_all add: request_load_def)

lemma service_okD:
  assumes "service_ok s"
  shows "disp_ok (set (s_received s)) p (s_disp s p)" "cloud_inv (cloud_of (s_store s))" "\<not> mQuit (s_disp s p)"
    "rd \<in> set (open_requests (s_disp s p)) \<Longrightarrow> request_ok p rd \<and> subs rd \<in> set (s_received s)"
    "c \<in> set (s_calls s) \<Longrightarrow> call_ok c \<and> subs (snd c) \<in> set (s_received s)"
    "x \<in> set (s_subscribed s) \<Longrightarrow>
       call_ok (USBStorageProvider_onListStoragesMethodReply, x) \<and> subs x \<in> set (s_received s)"
  using assms by (simp_all add: service_ok_def disp_ok_def tables_ok_def Let_def)

lemma wake_parts:
  assumes "dispatch_wake d = Some d'" "\<not> mQuit d"
  shows "open_requests d' = open_requests d" "disp_load p d = Suc (disp_load p d')" "submitted d' = submitted d"
    "\<not> mQuit d'" "mThread d' \<noteq> Stopped"
proof -
  from assms obtain rd q where q: "mQueue d = rd # q" "mThread d = Waiting"
    "d' = d\<lparr>mThread := Busy rd, mQueue := q\<rparr>"
    by (cases "mQueue d") (auto simp: dispatch_wake_def split: if_splits)
  then show "open_requests d' = open_requests d" "disp_load p d = Suc (disp_load p d')" "submitted d' = submitted d"
    "\<not> mQuit d'" "mThread d' \<noteq> Stopped"
    using assms(2) request_load_pos [of p rd] by (simp_all add: open_requests_def in_flight_def disp_load_def)
qed

lemma wake_step:
  assumes "provider_wake p s = Some s'" "service_ok s"
  shows "service_ok s'" "service_load s = Suc (service_load s')" "waiting s' = waiting s"
    "s_sent s' = s_sent s" "s_received s' = s_received s"
    "open_requests (s_disp s' q) = open_requests (s_disp s q)"
proof -
  from assms(1) obtain d where d: "dispatch_wake (s_disp s p) = Some d" "s' = s\<lparr>s_disp := (s_disp s)(p := d)\<rparr>"
    by (auto simp: provider_wake_def)
  note w = wake_parts [OF d(1) service_okD(3) [OF assms(2)]]
  have o: "open_requests (s_disp s' q) = open_requests (s_disp s q)" for q using w(1) d(2) by simp
  then show "open_requests (s_disp s' q) = open_requests (s_disp s q)" .
  have "submitted (s_disp s' q) = submitted (s_disp s q)" for q using w(3) d(2) by simp
  with assms(2) o w show "service_ok s'"
    by (simp add: service_ok_def disp_ok_def tables_ok_def Let_def d(2))
  show "service_load s = Suc (service_load s')" using service_load_put [of s p d] w(2) [of p] d(2) by simp
  show "waiting s' = waiting s" using o d(2) by (simp add: waiting_def)
  show "s_sent s' = s_sent s" "s_received s' = s_received s" using d(2) by simp_all
qed

lemma waiting_open: "subs ` set (open_requests (s_disp s p)) \<subseteq> waiting s"
  by (auto simp: waiting_def)

lemma waiting_below:
  "\<lbrakk>\<And>r. subs ` set (open_requests (s_disp s r)) \<subseteq> A; subs ` snd ` set (s_calls s) \<subseteq> A\<rbrakk> \<Longrightarrow> waiting s \<subseteq> A"
  unfolding waiting_def by (intro Un_least UN_least)

text \<open>The end of a request: what it was, and the state before its effects are carried out.\<close>

lemma finish_parts:
  assumes "provider_finish h p s = Some s'" "service_ok s"
  obtains rd es st d where "mThread (s_disp s p) = Busy rd" "provider_handler h p rd (s_store s) = Some (es, st)"
    "s' = carry_out h es (s\<lparr>s_store := st, s_disp := (s_disp s)(p := d)\<rparr>)"
    "open_requests d = mQueue (s_disp s p)" "submitted d = submitted (s_disp s p)" "\<not> mQuit d" "mThread d = Waiting"
proof -
  let ?d = "(s_disp s p)\<lparr>mState := s_store s, emitted := []\<rparr>"
  from assms(1) obtain d where d: "dispatch_finish (provider_handler h p) ?d = Some d"
    "s' = carry_out h (emitted d) (s\<lparr>s_store := mState d, s_disp := (s_disp s)(p := d)\<rparr>)"
    by (auto simp: provider_finish_def)
  from d(1) obtain rd es st where b: "mThread (s_disp s p) = Busy rd"
    and r: "provider_handler h p rd (s_store s) = Some (es, st)"
    and d': "d = ?d\<lparr>mThread := Waiting, mState := st, emitted := es\<rparr>"
    using service_okD(3) [OF assms(2), of p]
    by (auto simp: dispatch_finish_def split: thread.splits option.splits prod.splits)
  show ?thesis
    using d(2) d' service_okD(3) [OF assms(2), of p]
    by (intro that [OF b r, of d]) (simp_all add: open_requests_def in_flight_def)
qed

lemma tables_ok_finish:
  assumes ok: "tables_ok s" and run: "provider_handler h p rd (s_store s) = Some (es, st)"
    and q: "open_requests (s_disp s p) = rd # open_requests d" "submitted d = submitted (s_disp s p)"
  shows "tables_ok (s\<lparr>s_store := st, s_disp := (s_disp s)(p := d)\<rparr>)"
proof -
  from ok have c: "cloud_inv (cloud_of (s_store s))" by (simp add: tables_ok_def Let_def)
  note hs = handler_store [OF run]
  show ?thesis
  proof (cases "p = NetworkProvider")
    case True
    note net = hs(2) [OF True]
    have i: "unat (samba_id (st_net st)) \<le> unat (samba_id (st_net (s_store s))) + 1"
      using id_step_unat [OF id_step_handle [OF net]] by (simp add: net_of_def)
    have "samba_inv (net_of st)" if "length (submitted (s_disp s p)) < 2 ^ 32"
    proof (rule samba_tables_in_step [OF _ _ net])
      show "samba_inv (net_of (s_store s))" using ok that True by (simp add: tables_ok_def Let_def)
      show "unat (samba_id (net_of (s_store s))) < 2 ^ 32 - 1"
        using ok that True q(1) by (simp add: tables_ok_def Let_def net_of_def)
    qed
    with ok True q i hs(3) [OF c] show ?thesis by (simp add: tables_ok_def Let_def)
  next
    case False
    with hs(1) c have "w_samba (st_world st) = w_samba (st_world (s_store s))" "st_net st = st_net (s_store s)"
      by auto
    then have "samba_inv (net_of st) = samba_inv (net_of (s_store s))" by (simp add: net_of_def samba_inv_def)
    with ok False hs(1,3) c show ?thesis by (simp add: tables_ok_def Let_def)
  qed
qed

lemma finish_step:
  assumes reg: "all_registered (h_registry h)" and fin: "provider_finish h p s = Some s'" and ok: "service_ok s"
  obtains rd es st where "mThread (s_disp s p) = Busy rd" "provider_handler h p rd (s_store s) = Some (es, st)"
    "service_ok s'" "service_load s' < service_load s" "s_received s' = s_received s"
    "prefix (s_sent s) (s_sent s')" "waiting s \<subseteq> insert (subs rd) (waiting s')"
    "\<And>k. es \<noteq> [] \<Longrightarrow> k \<le> length (s_sent s) \<Longrightarrow> subs rd \<in> waiting s' \<union> answered_from k s'"
    "\<And>x q. x \<in> set (open_requests (s_disp s' q)) \<Longrightarrow> x \<in> set (open_requests (s_disp s q)) \<or> collecting x"
proof -
  from finish_parts [OF fin ok] obtain rd es st d where b: "mThread (s_disp s p) = Busy rd"
    and run: "provider_handler h p rd (s_store s) = Some (es, st)"
    and s': "s' = carry_out h es (s\<lparr>s_store := st, s_disp := (s_disp s)(p := d)\<rparr>)"
    and d: "open_requests d = mQueue (s_disp s p)" "submitted d = submitted (s_disp s p)" "\<not> mQuit d" "mThread d = Waiting" .
  let ?s1 = "s\<lparr>s_store := st, s_disp := (s_disp s)(p := d)\<rparr>"
  have o: "open_requests (s_disp s p) = rd # open_requests d" using b d(1) by (simp add: open_requests_def in_flight_def)
  have rd: "request_ok p rd" "subs rd \<in> set (s_received s)" using service_okD(4) [OF ok, of rd p] o by simp_all
  note bud = handler_in_budget [OF reg rd(1) run service_okD(2) [OF ok]]
  have q: "mQueue d = mQueue (s_disp s p)" using d(1,4) by (simp add: open_requests_def in_flight_def)
  have "disp_ok (set (s_received s)) p d"
    using service_okD(1) [OF ok, of p] d(3,4) by (auto simp: disp_ok_def o)
  with ok tables_ok_finish [OF _ run o d(2)] have ok1: "service_ok ?s1"
    by (simp add: service_ok_def Let_def)
  have w: "waiting s \<subseteq> insert (subs rd) (waiting ?s1)"
  proof (rule waiting_below)
    show "subs ` set (open_requests (s_disp s r)) \<subseteq> insert (subs rd) (waiting ?s1)" for r
      using o waiting_open [of ?s1 r] by (cases "r = p") auto
    show "subs ` snd ` set (s_calls s) \<subseteq> insert (subs rd) (waiting ?s1)" by (auto simp: waiting_def)
  qed
  have l: "service_load ?s1 + (request_load p rd - 1) = service_load s"
    using service_load_put [of ?s1 p d] service_load_put [of "s\<lparr>s_store := st\<rparr>" p d] b q d(4)
    by (simp add: disp_load_def service_load_def)
  note a = carry_out_carried [OF bud(1), of ?s1] carry_out_settles [OF bud(1), where s = ?s1]
  show ?thesis
  proof (rule that [OF b run])
    show "service_ok s'" "service_load s' < service_load s" "s_received s' = s_received s"
      "prefix (s_sent s) (s_sent s')" "waiting s \<subseteq> insert (subs rd) (waiting s')"
      using a(1) s' ok1 rd(2) w l bud(2) by (auto simp: carried_def)
    show "subs rd \<in> waiting s' \<union> answered_from k s'" if "es \<noteq> []" "k \<le> length (s_sent s)" for k
      using a(2) [OF that(1), of k] that(2) by (simp add: s')
    show "x \<in> set (open_requests (s_disp s q)) \<or> collecting x" if "x \<in> set (open_requests (s_disp s' q))" for x q
      using carry_out_open [OF that [unfolded s'] bud(1)] o by (auto split: if_splits)
  qed
qed

lemma tables_ok_store:
  "st_world st = st_world (s_store s) \<Longrightarrow> st_net st = st_net (s_store s) \<Longrightarrow> st_cloud st = st_cloud (s_store s) \<Longrightarrow>
   tables_ok (s\<lparr>s_store := st\<rparr>) = tables_ok s"
  by (simp add: tables_ok_def Let_def net_of_def cloud_of_def)

lemma answer_step:
  assumes reg: "all_registered (h_registry h)" and ans: "service_answer h i message s = Some s'" and ok: "service_ok s"
  obtains rd :: request_data where "service_ok s'" "service_load s' < service_load s" "s_received s' = s_received s"
    "prefix (s_sent s) (s_sent s')" "waiting s \<subseteq> insert (subs rd) (waiting s')"
    "\<And>k. dom_parse (h_sys h) message \<noteq> None \<Longrightarrow> k \<le> length (s_sent s) \<Longrightarrow>
       subs rd \<in> waiting s' \<union> answered_from k s'"
    "\<And>x q. x \<in> set (open_requests (s_disp s' q)) \<Longrightarrow> x \<in> set (open_requests (s_disp s q)) \<or> collecting x"
proof -
  obtain k rd where c: "s_calls s ! i = (k, rd)" by fastforce
  obtain es st where r: "call_reply h k rd message (s_store s) = (es, st)" by fastforce
  define a where "a = take i (s_calls s)"
  define b where "b = drop (Suc i) (s_calls s)"
  let ?rest = "a @ b"
  let ?s1 = "s\<lparr>s_store := st, s_calls := ?rest, s_subscribed := (if k = USBStorageProvider_onListStoragesMethodReply
               then s_subscribed s @ [rd] else s_subscribed s)\<rparr>"
  from ans c r have i: "i < length (s_calls s)" and s': "s' = carry_out h es ?s1"
    by (auto simp: service_answer_def Let_def a_def b_def split: if_splits)
  have calls: "s_calls s = a @ (k, rd) # b"
    using id_take_nth_drop [OF i] c by (simp add: a_def b_def)
  have split: "set (s_calls s) = insert (k, rd) (set ?rest)"
    "sum_list (map call_load (s_calls s)) = sum_list (map call_load ?rest) + call_load (k, rd)"
    by (simp_all add: calls)
  have o: "call_ok (k, rd)" "subs rd \<in> set (s_received s)" using service_okD(5) [OF ok, of "(k, rd)"] split(1) by auto
  note bud = call_in_budget [OF reg o(1) r]
  have t: "tables_ok (s\<lparr>s_store := st\<rparr>)" using call_store [OF r] ok by (simp add: tables_ok_store service_ok_def Let_def)
  have ok1: "service_ok ?s1"
    using ok t o split(1) by (auto simp: service_ok_def tables_ok_def Let_def)
  have w: "waiting s \<subseteq> insert (subs rd) (waiting ?s1)"
    using split(1) by (auto simp: waiting_def)
  have l: "service_load s = service_load ?s1 + call_load (k, rd)" using split(2) by (simp add: service_load_def)
  note a = carry_out_carried [OF bud(1), of ?s1] carry_out_settles [OF bud(1), where s = ?s1]
  show ?thesis
  proof (rule that [of rd])
    show "service_ok s'" "service_load s' < service_load s" "s_received s' = s_received s"
      "prefix (s_sent s) (s_sent s')" "waiting s \<subseteq> insert (subs rd) (waiting s')"
      using a(1) s' ok1 o(2) w l bud(2) by (auto simp: carried_def)
    show "subs rd \<in> waiting s' \<union> answered_from k s'"
      if "dom_parse (h_sys h) message \<noteq> None" "k \<le> length (s_sent s)" for k
      using a(2) [of k] bud(3) that by (simp add: s')
    show "x \<in> set (open_requests (s_disp s q)) \<or> collecting x" if "x \<in> set (open_requests (s_disp s' q))" for x q
      using carry_out_open [OF that [unfolded s'] bud(1)] by simp
  qed
qed

lemma update_step:
  assumes reg: "all_registered (h_registry h)" and up: "device_update h i message s = Some s'" and ok: "service_ok s"
  shows "service_ok s'" "s_received s' = s_received s"
    "dom_parse (h_sys h) message \<noteq> None \<Longrightarrow>
       subs (s_subscribed s ! i) \<in> waiting s' \<union> answered_from (length (s_sent s)) s'"
    "prefix (s_sent s) (s_sent s')"
    "x \<in> set (open_requests (s_disp s' q)) \<Longrightarrow> x \<in> set (open_requests (s_disp s q)) \<or> collecting x"
proof -
  let ?k = USBStorageProvider_onListStoragesMethodReply and ?rd = "s_subscribed s ! i"
  obtain es st where r: "call_reply h ?k ?rd message (s_store s) = (es, st)" by fastforce
  from up r have i: "i < length (s_subscribed s)" and s': "s' = carry_out h es (s\<lparr>s_store := st\<rparr>)"
    by (auto simp: device_update_def Let_def split: if_splits)
  have o: "call_ok (?k, ?rd)" "subs ?rd \<in> set (s_received s)" using service_okD(6) [OF ok, of ?rd] i by simp_all
  have "tables_ok (s\<lparr>s_store := st\<rparr>)" using call_store [OF r] ok by (simp add: tables_ok_store service_ok_def Let_def)
  with ok have "service_ok (s\<lparr>s_store := st\<rparr>)" by (simp add: service_ok_def Let_def)
  with carry_out_carried [OF call_in_budget(1) [OF reg o(1) r], of "s\<lparr>s_store := st\<rparr>"] s' o(2)
  show "service_ok s'" "s_received s' = s_received s" "prefix (s_sent s) (s_sent s')" by (auto simp: carried_def)
  show "subs ?rd \<in> waiting s' \<union> answered_from (length (s_sent s)) s'" if "dom_parse (h_sys h) message \<noteq> None"
    using carry_out_settles [OF call_in_budget(1,3) [OF reg o(1) r], of "length (s_sent s)" "s\<lparr>s_store := st\<rparr>"]
      that s' by simp
  show "x \<in> set (open_requests (s_disp s q)) \<or> collecting x" if "x \<in> set (open_requests (s_disp s' q))"
    using carry_out_open [OF that [unfolded s'] call_in_budget(1) [OF reg o(1) r]] by simp
qed

lemma storages_call_ok:
  assumes "pbn_ok pf" "all_registered fs" "luna_listStorageProviders pf sess fs m = [Queued p rd]"
  shows "request_ok p rd"
proof -
  obtain r where r: "parsePayload pf (payload m) storages_schema = Some r"
    using assms(3) by (auto simp: luna_listStorageProviders_def respondWithError_def split: option.splits)
  have o: "isObject r" by (rule parse_conforms(2) [OF assms(1) r])
  let ?rd = "REQUEST_BUILDER sess LIST_STORAGES_METHOD (jput ''storageType'' (JStr ''usb'') r) onListOfStoragesReply m"
  have "submit_request pf fs ?rd = [Queued p rd]"
    using assms(3) r registered_provider(6) [OF assms(2)] by (simp add: luna_listStorageProviders_def Let_def)
  then have "rd = ?rd \<and> p = USBStorageProvider"
    using o registered_provider(2) [OF assms(2)]
    by (simp add: submit_request_def manager_addRequest_def REQUEST_BUILDER_def createDocumentProvider_def)
  then show ?thesis using o by (simp add: request_ok_def collecting_def REQUEST_BUILDER_def)
qed

lemma call_event:
  assumes "pbn_ok pf" "all_registered fs" "registerService pf sess fs category name = Some f"
  shows "\<exists>ev. f m = [ev] \<and> event_ok m ev"
proof -
  obtain ev where ev: "f m = [ev]" "settled_event sess m ev"
    using assms(3) methods_settle [OF assms(1,2), of _ sess m]
    by (auto simp: registerService_def split: if_splits)
  have "request_ok p rd" if "ev = Queued p rd" for p rd
  proof (cases "category = ''/device''")
    case True
    with device_call_queued [of pf sess fs name f m p rd] assms(3) ev(1) that
    show ?thesis by (auto simp: device_calls_def request_ok_def collecting_def)
  next
    case False
    with assms(3) have "f = luna_listStorageProviders pf sess fs"
      by (auto simp: registerService_def split: if_splits)
    with storages_call_ok [OF assms(1,2), of sess m p rd] ev(1) that show ?thesis by simp
  qed
  with ev show ?thesis by (cases ev) simp_all
qed

lemma client_step:
  assumes "pbn_ok (h_sys h)" "all_registered (h_registry h)" "client_call h category name m s = Some s'" "service_ok s"
  shows "service_ok s'" "s_received s' = s_received s @ [m]" "m \<in> waiting s' \<union> answered_from (length (s_sent s)) s'"
    "waiting s \<subseteq> waiting s'" "prefix (s_sent s) (s_sent s')"
proof -
  let ?s1 = "s\<lparr>s_received := s_received s @ [m]\<rparr>"
  from assms(3) obtain f where f: "registerService (h_sys h) (h_session h) (h_registry h) category name = Some f"
    "s' = fold carry_event (f m) ?s1"
    by (auto simp: client_call_def)
  from call_event [OF assms(1,2) f(1), of m] f(2) obtain ev where ev: "event_ok m ev" "s' = carry_event ev ?s1" by auto
  have "service_ok ?s1"
    using assms(4) by (auto simp: service_ok_def tables_ok_def disp_ok_def Let_def)
  moreover have "waiting ?s1 = waiting s" by (simp add: waiting_def)
  ultimately show "service_ok s'" "s_received s' = s_received s @ [m]" "waiting s \<subseteq> waiting s'" "prefix (s_sent s) (s_sent s')"
    using carry_event_carried [OF ev(1), of ?s1] ev(2) by (auto simp: carried_def)
  show "m \<in> waiting s' \<union> answered_from (length (s_sent s)) s'"
    using carry_event_settles [OF ev(1), of "length (s_sent s)" ?s1] ev(2) by simp
qed

lemma service_ok_init: "w_samba w = [] \<Longrightarrow> service_ok (service_init w)"
  using samba_inv_init [of w] cloud_inv_init [of w]
  by (simp add: service_ok_def service_init_def disp_ok_def tables_ok_def dispatcher_init_def open_requests_def
      in_flight_def store_init_def net_of_def cloud_of_def net_init_def cloud_init_def Let_def)

lemma service_ok_reach:
  assumes "service_reach h w s" "w_samba w = []" "pbn_ok (h_sys h)" "all_registered (h_registry h)"
  shows "service_ok s"
  using assms(1)
proof induction
  case start
  show ?case by (rule service_ok_init [OF assms(2)])
next
  case (step s s')
  from step.hyps(2) show ?case
  proof (cases rule: service_step.cases)
    case own
    then show ?thesis
      by (cases rule: own_step.cases)
        (use wake_step(1) finish_step [OF assms(4)] answer_step [OF assms(4)] step.IH in blast)+
  qed (use step.IH client_step(1) [OF assms(3,4)] answer_step [OF assms(4)] update_step(1) [OF assms(4)] in blast)+
qed

end
