(* ===== verification/Saf_Service_Runs.thy ===== *)
theory Saf_Service_Runs
  imports Saf_Service_Invariant
begin

text \<open>
  What follows for the clients: whom the program answers, that its work ends, and that a program
  that has come to rest has answered everyone who was waiting.
\<close>

section \<open>Runs of the program's own steps\<close>

text \<open>The requests that their provider answers: the contracts of the four providers.\<close>

definition answerable :: "host \<Rightarrow> provider \<Rightarrow> request_data \<Rightarrow> bool" where
  "answerable h p rd \<longleftrightarrow>
     (case p of
        InternalStorageProvider \<Rightarrow> storage_methods (methodType rd)
      | USBStorageProvider \<Rightarrow> usb_methods (methodType rd)
      | GDriveProvider \<Rightarrow> cloud_methods (methodType rd)
      | NetworkProvider \<Rightarrow> network_methods (methodType rd) \<and> \<not> upnp_request (h_net h) rd)"

definition all_answerable :: "host \<Rightarrow> service \<Rightarrow> bool" where
  "all_answerable h s \<longleftrightarrow> (\<forall>p. \<forall>rd \<in> set (open_requests (s_disp s p)). answerable h p rd)"

lemma answerable_handled:
  assumes "answerable h p rd" "cloud_inv (cloud_of st)" "p = GDriveProvider \<Longrightarrow> reliable (h_cloud h) rank"
  shows "\<exists>es st'. provider_handler h p rd st = Some (es, st') \<and> es \<noteq> []"
proof (cases p)
  case InternalStorageProvider
  with assms(1) internal_supported [of rd "h_sys h" "st_world st"] show ?thesis
    by (auto simp: answerable_def provider_handler_def)
next
  case USBStorageProvider
  with assms(1) usb_supported [of rd "h_sys h" "usb_of st"] show ?thesis
    by (auto simp: answerable_def provider_handler_def)
next
  case GDriveProvider
  with assms(1) have m: "(\<exists>rank. reliable (h_cloud h) rank) \<and> cloud_methods (methodType rd)"
    using assms(3) [OF GDriveProvider] by (auto simp: answerable_def)
  from cloud_provider.answers [OF assms(2) m] GDriveProvider show ?thesis by (auto simp: provider_handler_def)
next
  case NetworkProvider
  with assms(1) network_supported [of rd "h_net h" "net_of st"] show ?thesis
    by (auto simp: answerable_def provider_handler_def)
qed

lemma collecting_answerable: "request_ok p rd \<Longrightarrow> collecting rd \<Longrightarrow> answerable h p rd"
  by (cases p) (simp_all add: request_ok_def answerable_def storage_methods_def usb_methods_def cloud_methods_def
      network_methods_def upnp_request_def)

lemma own_step_ok:
  assumes "own_step h s s'" "service_ok s" "all_registered (h_registry h)"
  shows "service_ok s'" "service_load s' < service_load s" "prefix (s_sent s) (s_sent s')"
    "x \<in> set (open_requests (s_disp s' q)) \<Longrightarrow> x \<in> set (open_requests (s_disp s q)) \<or> collecting x"
proof -
  have "service_ok s' \<and> service_load s' < service_load s \<and> prefix (s_sent s) (s_sent s')
      \<and> (\<forall>x q. x \<in> set (open_requests (s_disp s' q)) \<longrightarrow> x \<in> set (open_requests (s_disp s q)) \<or> collecting x)"
    using assms(1)
  proof (cases rule: own_step.cases)
    case (wake p)
    from wake_step [OF wake assms(2)] show ?thesis by simp
  next
    case (finish p)
    from finish_step [OF assms(3) finish assms(2)] show ?thesis by metis
  next
    case (answer i message)
    from answer_step [OF assms(3) answer(1) assms(2)] show ?thesis by metis
  qed
  then show "service_ok s'" "service_load s' < service_load s" "prefix (s_sent s) (s_sent s')"
    "x \<in> set (open_requests (s_disp s' q)) \<Longrightarrow> x \<in> set (open_requests (s_disp s q)) \<or> collecting x"
    by blast+
qed

lemma all_answerable_new:
  assumes "service_ok s'" "all_answerable h s"
    and "\<And>x q. x \<in> set (open_requests (s_disp s' q)) \<Longrightarrow> x \<in> set (open_requests (s_disp s q)) \<or> collecting x"
  shows "all_answerable h s'"
  unfolding all_answerable_def
proof (intro allI ballI)
  fix p rd assume rd: "rd \<in> set (open_requests (s_disp s' p))"
  from assms(3) [OF rd] show "answerable h p rd"
  proof
    assume "collecting rd"
    with service_okD(4) [OF assms(1) rd] show ?thesis by (simp add: collecting_answerable)
  qed (use assms(2) in \<open>simp add: all_answerable_def\<close>)
qed

lemma all_answerable_step:
  assumes "own_step h s s'" "service_ok s" "all_registered (h_registry h)" "all_answerable h s"
  shows "all_answerable h s'"
  using own_step_ok [OF assms(1-3)] all_answerable_new [of s' h s] assms(4) by blast

lemma own_step_keeps:
  assumes "own_step h s s'" "service_ok s" "all_registered (h_registry h)" "all_answerable h s" "reliable (h_cloud h) rank"
    and k: "k \<le> length (s_sent s)"
  shows "waiting s \<subseteq> waiting s' \<union> answered_from k s'"
  using assms(1)
proof (cases rule: own_step.cases)
  case (wake p)
  from wake_step(3) [OF wake assms(2)] show ?thesis by simp
next
  case (finish p)
  then show ?thesis
  proof (rule finish_step [OF assms(3) _ assms(2)])
    fix rd es st
    assume b: "mThread (s_disp s p) = Busy rd" and r: "provider_handler h p rd (s_store s) = Some (es, st)"
      and w: "waiting s \<subseteq> insert (subs rd) (waiting s')"
        "\<And>k. es \<noteq> [] \<Longrightarrow> k \<le> length (s_sent s) \<Longrightarrow> subs rd \<in> waiting s' \<union> answered_from k s'"
    have "answerable h p rd" using assms(4) b by (auto simp: all_answerable_def open_requests_def in_flight_def)
    from answerable_handled [OF this service_okD(2) [OF assms(2)] assms(5)] r w k show ?thesis by auto
  qed
next
  case (answer i message)
  then show ?thesis
    by (elim answer_step [OF assms(3) _ assms(2)]) (use k in blast)
qed

interpretation own: bounded_work "own_step h" "\<lambda>s. service_ok s \<and> all_registered (h_registry h)" service_load
  by unfold_locales (use own_step_ok(1,2) in blast)+

lemma own_run_keeps:
  assumes "(own_step h)\<^sup>*\<^sup>* s s'" "service_ok s" "all_registered (h_registry h)" "all_answerable h s" "reliable (h_cloud h) rank"
  shows "service_ok s' \<and> all_answerable h s' \<and> prefix (s_sent s) (s_sent s')
     \<and> waiting s \<subseteq> waiting s' \<union> answered_from (length (s_sent s)) s'"
  using assms(1)
proof induction
  case base
  then show ?case using assms(2,4) by simp
next
  case (step s1 s2)
  then have ok: "service_ok s1" "all_answerable h s1" by simp_all
  have "length (s_sent s) \<le> length (s_sent s1)" using step.IH prefix_length_le by blast
  from own_step_keeps [OF step.hyps(2) ok(1) assms(3) ok(2) assms(5) this] step.IH
    own_step_ok [OF step.hyps(2) ok(1) assms(3)] all_answerable_step [OF step.hyps(2) ok(1) assms(3) ok(2)]
    answered_from_mono [of s1 s2 "length (s_sent s)"]
  show ?case by (auto dest: prefix_order.order_trans)
qed

lemma own_step_progress:
  assumes "service_ok s" "all_answerable h s" "reliable (h_cloud h) rank" "dom_parse (h_sys h) message \<noteq> None"
    and "waiting s \<noteq> {}"
  shows "\<exists>s'. own_step h s s'"
proof (cases "s_calls s")
  case (Cons c cs)
  then have "\<exists>s'. service_answer h 0 message s = Some s'" by (simp add: service_answer_def split: prod.split)
  with assms(4) show ?thesis by (blast intro: own_step.answer)
next
  case Nil
  with assms(5) obtain p where p: "open_requests (s_disp s p) \<noteq> []" by (auto simp: waiting_def)
  have d: "\<not> mQuit (s_disp s p)" "mThread (s_disp s p) \<noteq> Stopped"
    using service_okD(1) [OF assms(1), of p] by (simp_all add: disp_ok_def)
  show ?thesis
  proof (cases "mThread (s_disp s p)")
    case Waiting
    with p d have "\<exists>s'. provider_wake p s = Some s'"
      by (auto simp: provider_wake_def dispatch_wake_def open_requests_def in_flight_def)
    then show ?thesis by (blast intro: own_step.wake)
  next
    case (Busy rd)
    then have "answerable h p rd" using assms(2) by (auto simp: all_answerable_def open_requests_def in_flight_def)
    from answerable_handled [OF this service_okD(2) [OF assms(1)] assms(3)] Busy
    have "\<exists>s'. provider_finish h p s = Some s'" by (auto simp: provider_finish_def dispatch_finish_def)
    then show ?thesis by (blast intro: own_step.finish)
  qed (use d in simp)
qed

section \<open>Properties\<close>

text \<open>What holds of the state the program starts in, and of its surroundings.\<close>

definition well_set :: "host \<Rightarrow> world \<Rightarrow> bool" where
  "well_set h w \<longleftrightarrow> pbn_ok (h_sys h) \<and> all_registered (h_registry h) \<and> w_samba w = []"

lemma well_set_reach:
  "well_set h w \<Longrightarrow> service_reach h w s \<Longrightarrow> service_ok s \<and> all_registered (h_registry h) \<and> pbn_ok (h_sys h)"
  using service_ok_reach [of h w s] by (simp add: well_set_def)

text \<open>
  C8: Under every order of client calls, thread steps, answers and updates, the program never calls a
  provider that is not there, and whatever it sends, has queued or waits for belongs to a message
  it received: no client gets an answer it did not ask for.
\<close>

theorem service_answers_received:
  assumes "well_set h w" "service_reach h w s"
  shows "\<not> s_null s \<and> answered_from 0 s \<subseteq> set (s_received s) \<and> waiting s \<subseteq> set (s_received s)"
proof -
  have ok: "service_ok s" using well_set_reach [OF assms] by simp
  have "waiting s \<subseteq> set (s_received s)"
  proof (rule waiting_below)
    show "subs ` set (open_requests (s_disp s p)) \<subseteq> set (s_received s)" for p
      using service_okD(4) [OF ok] by blast
    show "subs ` snd ` set (s_calls s) \<subseteq> set (s_received s)" using service_okD(5) [OF ok] by blast
  qed
  with ok show ?thesis by (simp add: service_ok_def answered_from_def Let_def)
qed

text \<open>
  C7: In every state the program can reach, with the four threads, the clients and the other services
  taking turns in any order, the cloud's tables are in step, and so are the Samba tables as long as
  fewer than 2^32 requests were given to the network provider: requests of the other providers, which
  share the file system and the singleton's table, do not disturb them.
\<close>

theorem service_tables_in_step:
  assumes "well_set h w" "service_reach h w s"
  shows "cloud_inv (cloud_of (s_store s))
     \<and> (length (submitted (s_disp s NetworkProvider)) < 2 ^ 32 \<longrightarrow> samba_inv (net_of (s_store s)))"
  using well_set_reach [OF assms] by (simp add: service_ok_def tables_ok_def Let_def)

text \<open>
  C6: From any reachable state the program, left alone, stops working: a run of its own steps is
  no longer than the load of the state, whatever the order of the threads and whatever the other
  services answer.
\<close>

theorem service_work_is_bounded:
  assumes "well_set h w" "service_reach h w s" "(own_step h ^^ n) s s'"
  shows "n + service_load s' \<le> service_load s"
  using own.run_bounded [OF assms(3)] well_set_reach [OF assms(1,2)] by blast

lemma rest_answers:
  assumes "service_ok s1" "all_registered (h_registry h)" "all_answerable h s1" "reliable (h_cloud h) rank"
    and "dom_parse (h_sys h) message \<noteq> None" "(own_step h)\<^sup>*\<^sup>* s1 s'" "\<not> (\<exists>s''. own_step h s' s'')"
  shows "waiting s' = {}" "waiting s1 \<subseteq> answered_from (length (s_sent s1)) s'" "prefix (s_sent s1) (s_sent s')"
proof -
  note run = own_run_keeps [OF assms(6,1-4)]
  show e: "waiting s' = {}" using own_step_progress [of s' h rank message] run assms(4,5,7) by blast
  with run show "waiting s1 \<subseteq> answered_from (length (s_sent s1)) s'" "prefix (s_sent s1) (s_sent s')" by auto
qed

lemma answered_from_le: "k \<le> n \<Longrightarrow> answered_from n s \<subseteq> answered_from k s"
  unfolding answered_from_def by (intro image_mono set_drop_subset_set_drop)

text \<open>
  A client's call is answered. Whatever the program was doing when the call came, and however
  its threads and the other services then take turns: once it has no step left, nothing is under way
  and the client has an answer sent after the call, and so has everyone who was waiting; provided
  that the open requests are ones their providers answer (none for a media server, none that is
  ignored), that the cloud's library answers, and that the other services answer in JSON.
\<close>

theorem every_call_answered:
  assumes set: "well_set h w" and reach: "service_reach h w s"
    and call: "client_call h category name m s = Some s1" and ans: "all_answerable h s1"
    and lib: "reliable (h_cloud h) rank" and json: "dom_parse (h_sys h) message \<noteq> None"
    and run: "(own_step h)\<^sup>*\<^sup>* s1 s'" and rest: "\<not> (\<exists>s''. own_step h s' s'')"
  shows "waiting s' = {} \<and> m \<in> answered_from (length (s_sent s)) s'
     \<and> waiting s \<subseteq> answered_from (length (s_sent s)) s'"
proof -
  have ok: "service_ok s" "all_registered (h_registry h)" "pbn_ok (h_sys h)"
    using well_set_reach [OF set reach] by simp_all
  note c = client_step [OF ok(3,2) call ok(1)]
  note r = rest_answers [OF c(1) ok(2) ans lib json run rest]
  have "answered_from (length (s_sent s1)) s' \<subseteq> answered_from (length (s_sent s)) s'"
    using prefix_length_le [OF c(5)] by (rule answered_from_le)
  with r c(3,4) answered_from_mono [OF r(3), of "length (s_sent s)"] show ?thesis by blast
qed

text \<open>A program at rest whose client asks for the storages.\<close>

definition calm_host :: host where
  "calm_host = \<lparr>h_sys = parsing jobject, h_net = calm_env, h_cloud = calm_cloud, h_session = (\<lambda>m. ''root''),
     h_registry = register_all registrations\<rparr>"

lemma calm_set: "well_set calm_host empty_world"
  by (simp add: well_set_def calm_host_def all_registered_start empty_world_def)

lemma calm_reliable: "reliable (h_cloud calm_host) (\<lambda>i. 0)"
  by (simp add: calm_host_def calm_cloud_reliable)

lemma calm_parse: "dom_parse (h_sys calm_host) message \<noteq> None"
  by (simp add: calm_host_def)

definition storages_rd :: "lsmsg \<Rightarrow> request_data" where
  "storages_rd m = REQUEST_BUILDER (\<lambda>m. ''root'') LIST_STORAGES_METHOD (jput ''storageType'' (JStr ''usb'') jobject)
     onListOfStoragesReply m"

lemma calm_call:
  obtains s1 where "client_call calm_host ''/'' ''listStorageProviders'' m (service_init empty_world) = Some s1"
    "service_reach calm_host empty_world s1" "all_answerable calm_host s1" "m \<in> waiting s1" "s_sent s1 = []"
    "length (submitted (s_disp s1 NetworkProvider)) = 0"
    "\<And>p x. x \<in> set (open_requests (s_disp s1 p)) \<Longrightarrow> collecting x"
proof -
  let ?s0 = "service_init empty_world"
  let ?s1 = "carry_event (Queued USBStorageProvider (storages_rd m)) (?s0\<lparr>s_received := [m]\<rparr>)"
  have "parsePayload (parsing jobject) (payload m) storages_schema = Some jobject"
    by (simp add: parsePayload_def conforms_def storages_schema_def)
  moreover have "submit_request (parsing jobject) (register_all registrations) (storages_rd m)
      = [Queued USBStorageProvider (storages_rd m)]"
    using registered_provider(2) [OF all_registered_start]
    by (simp add: submit_request_def manager_addRequest_def storages_rd_def REQUEST_BUILDER_def createDocumentProvider_def)
  ultimately have c: "client_call calm_host ''/'' ''listStorageProviders'' m ?s0 = Some ?s1"
    using registered_provider(6) [OF all_registered_start]
    by (simp add: client_call_def registerService_def calm_host_def luna_listStorageProviders_def storages_rd_def
        service_init_def)
  show ?thesis
  proof (rule that [OF c])
    show "service_reach calm_host empty_world ?s1"
      by (rule service_reach.step [OF service_reach.start service_step.client [OF c]])
    have o: "open_requests (s_disp ?s1 p) = (if p = USBStorageProvider then [storages_rd m] else [])" for p
      by (simp add: service_init_def open_requests_def in_flight_def dispatcher_init_def addRequest_def)
    then show "all_answerable calm_host ?s1"
      by (simp add: all_answerable_def answerable_def storages_rd_def REQUEST_BUILDER_def usb_methods_def)
    have "storages_rd m \<in> set (open_requests (s_disp ?s1 USBStorageProvider))" by (simp add: o)
    with waiting_open [of ?s1 USBStorageProvider] show "m \<in> waiting ?s1"
      by (force simp: storages_rd_def REQUEST_BUILDER_def)
    show "collecting x" if "x \<in> set (open_requests (s_disp ?s1 p))" for p x
      using that unfolding o by (simp add: storages_rd_def REQUEST_BUILDER_def collecting_def split: if_splits)
  qed (simp_all add: service_init_def dispatcher_init_def)
qed

theorem service_answers_received_witness:
  "\<exists>s. service_reach calm_host empty_world s \<and> waiting s \<noteq> {} \<and> waiting s \<subseteq> set (s_received s)"
proof (rule calm_call)
  fix m s1
  assume "service_reach calm_host empty_world s1" "m \<in> waiting s1"
  with service_answers_received [OF calm_set, of s1] show ?thesis by blast
qed

theorem service_tables_in_step_witness:
  "\<exists>s. waiting s \<noteq> {} \<and> cloud_inv (cloud_of (s_store s)) \<and> samba_inv (net_of (s_store s))"
proof (rule calm_call)
  fix m s1
  assume "service_reach calm_host empty_world s1" "m \<in> waiting s1" "length (submitted (s_disp s1 NetworkProvider)) = 0"
  with service_tables_in_step [OF calm_set, of s1] show ?thesis by (intro exI [of _ s1]) auto
qed

theorem service_work_is_bounded_witness:
  "\<exists>s s'. own_step calm_host s s' \<and> service_load s' < service_load s"
proof (rule calm_call)
  fix m s1
  assume s1: "service_reach calm_host empty_world s1" "all_answerable calm_host s1" "m \<in> waiting s1"
  have ok: "service_ok s1" using well_set_reach [OF calm_set s1(1)] by simp
  obtain s' where "own_step calm_host s1 s'"
    using own_step_progress [OF ok s1(2) calm_reliable calm_parse] s1(3) by blast
  moreover from this have "(own_step calm_host ^^ 1) s1 s'" by (simp add: eq_OO)
  ultimately show ?thesis using service_work_is_bounded [OF calm_set s1(1), of 1 s']
    by (intro exI [of _ s1] exI [of _ s']) simp
qed

theorem every_call_answered_witness:
  "\<exists>s'. waiting s' = {} \<and> \<lparr>payload = [], token = 7\<rparr> \<in> answered_from 0 s'"
proof (rule calm_call [of "\<lparr>payload = [], token = 7\<rparr>"])
  let ?m = "\<lparr>payload = [], token = 7\<rparr>"
  fix s1
  assume c: "client_call calm_host ''/'' ''listStorageProviders'' ?m (service_init empty_world) = Some s1"
    and s1: "service_reach calm_host empty_world s1" "all_answerable calm_host s1"
  have "service_ok s1 \<and> all_registered (h_registry calm_host)" using well_set_reach [OF calm_set s1(1)] by simp
  from own.rest_reached [OF this] obtain s' where r: "(own_step calm_host)\<^sup>*\<^sup>* s1 s'" "\<not> (\<exists>s''. own_step calm_host s' s'')"
    by blast
  from every_call_answered [OF calm_set service_reach.start c s1(2) calm_reliable calm_parse r]
  show ?thesis by (auto simp: service_init_def)
qed

text \<open>The message of that client.\<close>

definition calm_message :: lsmsg where
  "calm_message = \<lparr>payload = [], token = 7\<rparr>"

end
