(* ===== verification/Saf_Service_Once.thy ===== *)
theory Saf_Service_Once
  imports Saf_Service_Runs "HOL-Library.Multiset"
begin

text \<open>
  How often the program answers: the messages with an answer, a request or a call under way, as a
  multiset. A step of the program's own keeps it or takes one away; a transfer to a media server,
  which is refused twice, and a further answer of the device manager add one.
\<close>

section \<open>One effect for one request\<close>

text \<open>
  The requests whose check refuses twice: a copy or move whose destination is a media server, as
  the provider's own platform reads the parameters.
\<close>

definition to_media_server :: "'a platform_scheme \<Rightarrow> request_data \<Rightarrow> bool" where
  "to_media_server pf rd \<longleftrightarrow>
     (methodType rd = COPY_METHOD \<or> methodType rd = MOVE_METHOD)
     \<and> asString pf (jget (params rd) ''destStorageType'') = ''network''
     \<and> str_contains ''UPNP'' (asString pf (jget (params rd) ''destDriveId''))"

text \<open>The handlers have at most one effect.\<close>

lemma validate_one:
  "validateInterProviderOperation pf rd w = (b, out) \<Longrightarrow>
   methodType rd = COPY_METHOD \<or> methodType rd = MOVE_METHOD \<Longrightarrow> \<not> to_media_server pf rd \<Longrightarrow>
   length out = (if b then 0 else 1)"
  by (auto simp: validateInterProviderOperation_def to_media_server_def Let_def split: if_splits)

lemma internal_one:
  "internal_handleRequests pf rd w = Some (es, w') \<Longrightarrow> \<not> to_media_server pf rd \<Longrightarrow> length es \<le> 1"
  by (cases "methodType rd")
    (auto simp: internal_handleRequests_def internal_methods handler_simps dest!: validate_one
      split: if_splits prod.splits)

lemma usb_one:
  "usb_handleRequests pf rd u = Some (es, u') \<Longrightarrow> \<not> to_media_server pf rd \<Longrightarrow> length es \<le> 1"
  by (cases "methodType rd")
    (auto simp: usb_handleRequests_def usb_listStoragesMethod_def usb_getPropertiesMethod_def usb_ejectMethod_def
      usb_copyMethod_def usb_moveMethod_def usb_removeMethod_def usb_renameMethod_def
      usb_listFolderContentsMethod_def handler_simps dest!: validate_one split: if_splits prod.splits option.splits)

lemma network_one:
  assumes "network_handleRequests env rd n = Some (es, n')" "\<not> to_media_server env rd"
  shows "length es \<le> 1"
proof (cases "methodType rd")
    case EXTRA_METHOD
    with assms show ?thesis
      by (auto simp: network_handleRequests_def extraMethod_def mountSambaServer_def mount_share_def
          discoverUPnPMediaServer_def Let_def split: if_splits prod.splits option.splits bool.splits)
  next
    case LIST_METHOD
    with assms show ?thesis
      by (auto simp: network_handleRequests_def network_list_def network_list_samba_def network_list_upnp_def Let_def
          split: if_splits prod.splits option.splits)
  next
    case GET_PROP_METHOD
    with assms show ?thesis
      by (auto simp: network_handleRequests_def network_getProperties_def samba_properties_def upnp_properties_def
          Let_def split: if_splits prod.splits option.splits)
  next
    case EJECT_METHOD
    with assms show ?thesis
      by (auto simp: network_handleRequests_def network_eject_def Let_def split: if_splits prod.splits option.splits)
qed (use assms in \<open>auto simp: network_handleRequests_def network_copy_def network_move_def network_remove_def
        network_rename_def network_listStoragesMethod_def handler_simps dest!: validate_one
        split: if_splits prod.splits option.splits\<close>)

definition at_most_one :: "cloud_result \<Rightarrow> bool" where
  "at_most_one res \<longleftrightarrow> (case res of None \<Rightarrow> True | Some (es, s) \<Rightarrow> length es \<le> 1)"

lemma at_most_one_simps [simp]:
  "at_most_one None" "at_most_one (Some (es, s)) \<longleftrightarrow> length es \<le> 1"
  by (simp_all add: at_most_one_def)

lemma at_most_one_attempt: "(\<And>x s. at_most_one (k x s)) \<Longrightarrow> at_most_one (attempt r k)"
  by (cases r; cases "fst r") (auto simp: attempt_def)

lemma at_most_one_load: "at_most_one (answer_and_load env d rd j s)"
  by (cases "loadFileIds env d s") (auto simp: answer_and_load_def)

lemmas one_intros = at_most_one_attempt at_most_one_load

lemma cloud_ways_one:
  "at_most_one (cloud_to_cloud env keep d rd i j s)"
  "at_most_one (file_to_cloud env keep d rd path j s)"
  "at_most_one (cloud_to_file env keep d rd path i dest s)"
  unfolding cloud_to_cloud_def file_to_cloud_def cloud_to_file_def Let_def
  by (auto intro!: one_intros split: prod.splits bool.splits option.splits)

lemma cloud_transfer_one:
  assumes "methodType rd = COPY_METHOD \<or> methodType rd = MOVE_METHOD" "\<not> to_media_server env rd"
  shows "at_most_one (cloud_transfer env keep rd s)"
proof -
  obtain valid out where v: "validateInterProviderOperation env rd (c_world s) = (valid, out)" by fastforce
  show ?thesis
    using validate_one [OF v assms]
    by (simp add: cloud_transfer_def v Let_def cloud_ways_one split: prod.split option.split)
qed

lemma cloud_extra_one: "at_most_one (gdrive_extraMethod env rd s)"
  by (auto simp: gdrive_extraMethod_def attachCloud_def authenticateCloud_def tokenCloud_def Let_def
      intro!: one_intros split: option.splits prod.splits)

lemma cloud_rest_one:
  "at_most_one (gdrive_list env rd s)"
  "at_most_one (gdrive_getProperties env rd s)"
  "at_most_one (change_file env req status rd s)"
  unfolding gdrive_list_def gdrive_getProperties_def change_file_def Let_def
  by (auto intro!: one_intros split: option.splits prod.splits bool.splits)

lemma cloud_one:
  "\<not> to_media_server env rd \<Longrightarrow> at_most_one (gdrive_handleRequests env rd s)"
  by (cases "methodType rd") (simp_all add: gdrive_handleRequests_def cloud_extra_one cloud_rest_one
      cloud_transfer_one gdrive_copy_def gdrive_move_def
      gdrive_remove_def gdrive_rename_def gdrive_listStoragesMethod_def gdrive_eject_def Let_def)

definition media_transfer :: "host \<Rightarrow> provider \<Rightarrow> request_data \<Rightarrow> bool" where
  "media_transfer h p rd \<longleftrightarrow>
     (case p of
        InternalStorageProvider \<Rightarrow> to_media_server (h_sys h) rd
      | USBStorageProvider \<Rightarrow> to_media_server (h_sys h) rd
      | GDriveProvider \<Rightarrow> to_media_server (h_cloud h) rd
      | NetworkProvider \<Rightarrow> to_media_server (h_net h) rd)"

lemma handler_one:
  assumes "provider_handler h p rd st = Some (es, st')" "\<not> media_transfer h p rd"
  shows "length es \<le> 1"
  using assms cloud_one [of "h_cloud h" rd "cloud_of st"]
  by (cases p) (auto simp: provider_handler_def media_transfer_def simp flip: One_nat_def dest: internal_one usb_one network_one)

lemma call_one: "call_reply h k rd message st = (es, st') \<Longrightarrow> length es \<le> 1"
  by (cases k) (auto simp: call_reply_def usb_onListStoragesMethodReply_def usb_onGetPropertiesReply_def usb_onReply_def
      internal_onReply_def next_call_def Let_def split: option.splits prod.splits if_splits)


section \<open>Counting\<close>

text \<open>What is under way and what was sent, a message as often as it is there.\<close>

definition dispatched :: "'s dispatcher \<Rightarrow> lsmsg multiset" where
  "dispatched d = mset (map subs (open_requests d))"

definition under_way :: "service \<Rightarrow> lsmsg multiset" where
  "under_way s =
     dispatched (s_disp s InternalStorageProvider) + dispatched (s_disp s USBStorageProvider)
     + dispatched (s_disp s GDriveProvider) + dispatched (s_disp s NetworkProvider)
     + mset (map (subs \<circ> snd) (s_calls s))"

definition answers :: "service \<Rightarrow> lsmsg multiset" where
  "answers s = mset (map fst (s_sent s))"

definition owed :: "service \<Rightarrow> lsmsg multiset" where
  "owed s = answers s + under_way s"

lemma under_way_put:
  "under_way (s\<lparr>s_disp := (s_disp s)(p := d)\<rparr>) + dispatched (s_disp s p) = under_way s + dispatched d"
  by (cases p) (simp_all add: under_way_def)

lemma under_way_keeps [simp]:
  "under_way (s\<lparr>s_store := st\<rparr>) = under_way s" "under_way (s\<lparr>s_received := ms\<rparr>) = under_way s"
  "under_way (s\<lparr>s_sent := js\<rparr>) = under_way s" "under_way (s\<lparr>s_subscribed := ss\<rparr>) = under_way s"
  "answers (s\<lparr>s_store := st\<rparr>) = answers s" "answers (s\<lparr>s_received := ms\<rparr>) = answers s"
  "answers (s\<lparr>s_calls := cs\<rparr>) = answers s" "answers (s\<lparr>s_subscribed := ss\<rparr>) = answers s"
  "answers (s\<lparr>s_disp := ds\<rparr>) = answers s"
  by (simp_all add: under_way_def answers_def)

lemma provider_UNIV: "UNIV = {InternalStorageProvider, USBStorageProvider, GDriveProvider, NetworkProvider}"
proof -
  have "p \<in> {InternalStorageProvider, USBStorageProvider, GDriveProvider, NetworkProvider}" for p
    by (cases p) simp_all
  then show ?thesis by blast
qed

lemma set_under_way: "set_mset (under_way s) = waiting s"
  by (simp add: under_way_def waiting_def dispatched_def provider_UNIV image_comp Un_assoc)

lemma owed_event: "event_ok m ev \<Longrightarrow> owed (carry_event ev s) = add_mset m (owed s)"
proof (cases ev)
  case (Queued p rd)
  assume "event_ok m ev"
  with Queued under_way_put [of s p "addRequest rd (s_disp s p)"] show ?thesis
    by (simp add: owed_def dispatched_def)
qed (simp_all add: owed_def answers_def)

lemma owed_effect: "effect_ok h m e \<Longrightarrow> owed (carry_effect h e s) = add_mset m (owed s)"
  by (cases e) (auto simp: owed_event, simp_all add: owed_def under_way_def)

lemma owed_effects:
  "list_all (effect_ok h m) es \<Longrightarrow> owed (carry_out h es s) = owed s + replicate_mset (length es) m"
  by (induction es arbitrary: s) (simp_all add: carry_out_def owed_effect)

lemma owed_wake:
  assumes "provider_wake p s = Some s'" "service_ok s"
  shows "owed s' = owed s"
proof -
  note w = wake_step [OF assms]
  have "s_calls s' = s_calls s" using assms(1) by (auto simp: provider_wake_def)
  with w(4,6) show ?thesis by (simp add: owed_def under_way_def answers_def dispatched_def)
qed

lemma owed_finish:
  assumes "all_registered (h_registry h)" "provider_finish h p s = Some s'" "service_ok s"
  obtains rd es where "rd \<in> set (open_requests (s_disp s p))" "\<exists>st st'. cloud_inv (cloud_of st) \<and> provider_handler h p rd st = Some (es, st')"
    "owed s' + {#subs rd#} = owed s + replicate_mset (length es) (subs rd)"
proof -
  from finish_parts [OF assms(2,3)] obtain rd es st d where b: "mThread (s_disp s p) = Busy rd"
    and run: "provider_handler h p rd (s_store s) = Some (es, st)"
    and s': "s' = carry_out h es (s\<lparr>s_store := st, s_disp := (s_disp s)(p := d)\<rparr>)"
    and d: "open_requests d = mQueue (s_disp s p)" .
  have o: "open_requests (s_disp s p) = rd # open_requests d" using b d by (simp add: open_requests_def in_flight_def)
  have "request_ok p rd" using service_okD(4) [OF assms(3), of rd p] o by simp
  note bud = handler_in_budget(1) [OF assms(1) this run service_okD(2) [OF assms(3)]]
  have "under_way (s\<lparr>s_store := st, s_disp := (s_disp s)(p := d)\<rparr>) + {#subs rd#} = under_way s"
    using under_way_put [of "s\<lparr>s_store := st\<rparr>" p d] by (simp add: dispatched_def o)
  with owed_effects [OF bud] have "owed s' + {#subs rd#} = owed s + replicate_mset (length es) (subs rd)"
    by (simp add: s' owed_def)
  with that [of rd es] run o service_okD(2) [OF assms(3)] show ?thesis by auto
qed

lemma owed_answer:
  assumes "all_registered (h_registry h)" "service_answer h i message s = Some s'" "service_ok s"
  obtains rd :: request_data and es :: "effect list" where "length es \<le> 1" "dom_parse (h_sys h) message \<noteq> None \<Longrightarrow> es \<noteq> []"
    "owed s' + {#subs rd#} = owed s + replicate_mset (length es) (subs rd)"
proof -
  obtain k rd where c: "s_calls s ! i = (k, rd)" by fastforce
  obtain es st where r: "call_reply h k rd message (s_store s) = (es, st)" by fastforce
  define a where "a = take i (s_calls s)"
  define b where "b = drop (Suc i) (s_calls s)"
  let ?s1 = "s\<lparr>s_store := st, s_calls := a @ b, s_subscribed := (if k = USBStorageProvider_onListStoragesMethodReply
               then s_subscribed s @ [rd] else s_subscribed s)\<rparr>"
  from assms(2) c r have i: "i < length (s_calls s)" and s': "s' = carry_out h es ?s1"
    by (auto simp: service_answer_def Let_def a_def b_def split: if_splits)
  have calls: "s_calls s = a @ (k, rd) # b"
    using id_take_nth_drop [OF i] c by (simp add: a_def b_def)
  have "call_ok (k, rd)" using service_okD(5) [OF assms(3), of "(k, rd)"] calls by simp
  note bud = call_in_budget [OF assms(1) this r]
  have "under_way ?s1 + {#subs rd#} = under_way s" by (simp add: under_way_def calls)
  with owed_effects [OF bud(1)] have "owed s' + {#subs rd#} = owed s + replicate_mset (length es) (subs rd)"
    by (simp add: s' owed_def)
  with that [of es rd] call_one [OF r] bud(3) show ?thesis by simp
qed

lemma owed_update:
  assumes "all_registered (h_registry h)" "device_update h i message s = Some s'" "service_ok s"
    "dom_parse (h_sys h) message \<noteq> None"
  shows "owed s' = add_mset (subs (s_subscribed s ! i)) (owed s)"
proof -
  let ?k = USBStorageProvider_onListStoragesMethodReply and ?rd = "s_subscribed s ! i"
  obtain es st where r: "call_reply h ?k ?rd message (s_store s) = (es, st)" by fastforce
  from assms(2) r have i: "i < length (s_subscribed s)" and s': "s' = carry_out h es (s\<lparr>s_store := st\<rparr>)"
    by (auto simp: device_update_def Let_def split: if_splits)
  have o: "call_ok (?k, ?rd)" using service_okD(6) [OF assms(3), of ?rd] i by simp
  note bud = call_in_budget [OF assms(1) o r]
  have "length es = 1" using call_one [OF r] bud(3) [OF assms(4)] by (cases es) auto
  with owed_effects [OF bud(1), of "s\<lparr>s_store := st\<rparr>"] show ?thesis by (simp add: s' owed_def)
qed

lemma owed_call:
  assumes "pbn_ok (h_sys h)" "all_registered (h_registry h)" "client_call h category name m s = Some s'"
  shows "owed s' = add_mset m (owed s)"
proof -
  from assms(3) obtain f where f: "registerService (h_sys h) (h_session h) (h_registry h) category name = Some f"
    "s' = fold carry_event (f m) (s\<lparr>s_received := s_received s @ [m]\<rparr>)"
    by (auto simp: client_call_def)
  from call_event [OF assms(1,2) f(1), of m] f(2) show ?thesis
    by (auto simp: owed_event) (simp add: owed_def)
qed


section \<open>Steps and what is owed\<close>

definition no_media :: "host \<Rightarrow> service \<Rightarrow> bool" where
  "no_media h s \<longleftrightarrow> (\<forall>p. \<forall>rd \<in> set (open_requests (s_disp s p)). \<not> media_transfer h p rd)"

lemma collecting_no_media: "request_ok p rd \<Longrightarrow> collecting rd \<Longrightarrow> \<not> media_transfer h p rd"
  by (cases p) (simp_all add: media_transfer_def to_media_server_def request_ok_def)

lemma no_media_new:
  assumes "service_ok s'" "no_media h s"
    and "\<And>x q. x \<in> set (open_requests (s_disp s' q)) \<Longrightarrow> x \<in> set (open_requests (s_disp s q)) \<or> collecting x"
  shows "no_media h s'"
  unfolding no_media_def
proof (intro allI ballI)
  fix p rd assume rd: "rd \<in> set (open_requests (s_disp s' p))"
  from assms(3) [OF rd] show "\<not> media_transfer h p rd"
  proof
    assume "collecting rd"
    with service_okD(4) [OF assms(1) rd] show ?thesis by (simp add: collecting_no_media)
  qed (use assms(2) in \<open>simp add: no_media_def\<close>)
qed

lemma owed_at_most:
  assumes "owed s' + {#m#} = owed s + replicate_mset n m" "n \<le> 1"
  shows "owed s' \<subseteq># owed s"
proof -
  from assms(2) consider "n = 0" | "n = 1" by linarith
  then show ?thesis
  proof cases
    case 1
    with assms(1) have "owed s = add_mset m (owed s')" by simp
    then show ?thesis by simp
  qed (use assms(1) in simp)
qed

lemma finish_one:
  assumes "all_registered (h_registry h)" "provider_finish h p s = Some s'" "service_ok s" "no_media h s"
  shows "owed s' \<subseteq># owed s"
proof (rule owed_finish [OF assms(1-3)])
  fix rd es
  assume rd: "rd \<in> set (open_requests (s_disp s p))" "\<exists>st st'. cloud_inv (cloud_of st) \<and> provider_handler h p rd st = Some (es, st')"
    and o: "owed s' + {#subs rd#} = owed s + replicate_mset (length es) (subs rd)"
  from rd assms(4) have "length es \<le> 1" by (auto simp: no_media_def dest: handler_one)
  with o show ?thesis by (rule owed_at_most)
qed

lemma finish_exact:
  assumes "all_registered (h_registry h)" "provider_finish h p s = Some s'" "service_ok s" "no_media h s"
    and "all_answerable h s" "reliable (h_cloud h) rank"
  shows "owed s' = owed s"
proof (rule owed_finish [OF assms(1-3)])
  fix rd es
  assume rd: "rd \<in> set (open_requests (s_disp s p))" "\<exists>st st'. cloud_inv (cloud_of st) \<and> provider_handler h p rd st = Some (es, st')"
    and o: "owed s' + {#subs rd#} = owed s + replicate_mset (length es) (subs rd)"
  from rd(2) obtain st st' where st: "cloud_inv (cloud_of st)" "provider_handler h p rd st = Some (es, st')" by blast
  have "length es \<le> 1" using handler_one [OF st(2)] assms(4) rd(1) by (simp add: no_media_def)
  moreover have "es \<noteq> []"
    using answerable_handled [OF _ st(1) assms(6), of p rd] assms(5) rd(1) st(2) by (auto simp: all_answerable_def)
  ultimately have "length es = 1" by (cases es) auto
  with o show ?thesis by simp
qed

lemma answer_one:
  assumes "all_registered (h_registry h)" "service_answer h i message s = Some s'" "service_ok s"
  shows "owed s' \<subseteq># owed s" "dom_parse (h_sys h) message \<noteq> None \<Longrightarrow> owed s' = owed s"
proof -
  have "owed s' \<subseteq># owed s \<and> (dom_parse (h_sys h) message \<noteq> None \<longrightarrow> owed s' = owed s)"
  proof (rule owed_answer [OF assms])
    fix rd :: request_data and es :: "effect list"
    assume es: "length es \<le> 1" "dom_parse (h_sys h) message \<noteq> None \<Longrightarrow> es \<noteq> []"
      and o: "owed s' + {#subs rd#} = owed s + replicate_mset (length es) (subs rd)"
    have "owed s' = owed s" if "dom_parse (h_sys h) message \<noteq> None"
    proof -
      from es that have "length es = 1" by (cases es) auto
      with o show ?thesis by simp
    qed
    with owed_at_most [OF o es(1)] show ?thesis by blast
  qed
  then show "owed s' \<subseteq># owed s" "dom_parse (h_sys h) message \<noteq> None \<Longrightarrow> owed s' = owed s" by simp_all
qed

lemma own_step_received:
  assumes "own_step h s s'" "service_ok s" "all_registered (h_registry h)"
  shows "s_received s' = s_received s"
  using assms(1)
proof (cases rule: own_step.cases)
  case (wake p)
  from wake_step(5) [OF wake assms(2)] show ?thesis .
next
  case (finish p)
  from finish_step [OF assms(3) finish assms(2)] show ?thesis by metis
next
  case (answer i message)
  from answer_step [OF assms(3) answer(1) assms(2)] show ?thesis by metis
qed

lemma own_step_owed:
  assumes "own_step h s s'" "service_ok s" "all_registered (h_registry h)" "no_media h s"
  shows "owed s' \<subseteq># owed s" "all_answerable h s \<Longrightarrow> reliable (h_cloud h) rank \<Longrightarrow> owed s' = owed s" "no_media h s'"
proof -
  have "owed s' \<subseteq># owed s \<and> (all_answerable h s \<longrightarrow> reliable (h_cloud h) rank \<longrightarrow> owed s' = owed s)"
    using assms(1)
  proof (cases rule: own_step.cases)
    case (wake p)
    from owed_wake [OF wake assms(2)] show ?thesis by simp
  next
    case (finish p)
    from finish_one [OF assms(3) finish assms(2,4)] finish_exact [OF assms(3) finish assms(2,4)] show ?thesis by blast
  next
    case (answer i message)
    from answer_one [OF assms(3) answer(1) assms(2)] answer(2) show ?thesis by blast
  qed
  then show "owed s' \<subseteq># owed s" "all_answerable h s \<Longrightarrow> reliable (h_cloud h) rank \<Longrightarrow> owed s' = owed s" by blast+
  from own_step_ok [OF assms(1-3)] assms(4) show "no_media h s'" by (blast intro: no_media_new)
qed

section \<open>Properties\<close>

text \<open>
  Runs in which clients call, the threads go on and the called services answer, in JSON or not; no
  transfer to a media server is accepted and the device manager sends nothing unasked.
\<close>

inductive call_reach :: "host \<Rightarrow> world \<Rightarrow> service \<Rightarrow> bool" for h w where
  start: "call_reach h w (service_init w)"
| own: "call_reach h w s \<Longrightarrow> own_step h s s' \<Longrightarrow> call_reach h w s'"
| client: "call_reach h w s \<Longrightarrow> client_call h category method m s = Some s' \<Longrightarrow> no_media h s' \<Longrightarrow> call_reach h w s'"
| garbage: "call_reach h w s \<Longrightarrow> service_answer h i message s = Some s' \<Longrightarrow> dom_parse (h_sys h) message = None \<Longrightarrow>
    call_reach h w s'"

lemma call_reach_service: "call_reach h w s \<Longrightarrow> service_reach h w s"
  by (induction rule: call_reach.induct) (blast intro: service_reach.intros service_step.intros)+

text \<open>
  C5: No call is answered twice. In every such run the answers sent and the requests and calls under
  way, counted together, are for each message no more than the calls received with it, whichever
  methods were called, with whatever parameters, and whatever the other services answered.
\<close>

theorem no_call_answered_twice:
  assumes "well_set h w" "call_reach h w s"
  shows "answers s + under_way s \<subseteq># mset (s_received s)"
proof -
  note surr = well_set_reach [OF assms(1) call_reach_service]
  have "owed s \<subseteq># mset (s_received s) \<and> no_media h s"
    using assms(2)
  proof induction
    case start
    then show ?case
      by (simp add: owed_def answers_def under_way_def service_init_def dispatched_def dispatcher_init_def open_requests_def
          in_flight_def no_media_def)
  next
    case (own s s')
    from surr [OF own.hyps(1)] have ok: "service_ok s" "all_registered (h_registry h)" by simp_all
    from own_step_owed [OF own.hyps(2) ok] own.IH own_step_received [OF own.hyps(2) ok]
    show ?case by (auto dest: subset_mset.order_trans)
  next
    case (client s category name m s')
    from surr [OF client.hyps(1)] have ok: "service_ok s" "all_registered (h_registry h)" "pbn_ok (h_sys h)" by simp_all
    from owed_call [OF ok(3,2) client.hyps(2)] client_step(2) [OF ok(3,2) client.hyps(2) ok(1)] client.IH client.hyps(3)
    show ?case by simp
  next
    case (garbage s i message s')
    from surr [OF garbage.hyps(1)] have ok: "service_ok s" "all_registered (h_registry h)" by simp_all
    obtain rd :: request_data where "service_ok s'" "s_received s' = s_received s"
      "\<And>x q. x \<in> set (open_requests (s_disp s' q)) \<Longrightarrow> x \<in> set (open_requests (s_disp s q)) \<or> collecting x"
      using answer_step [OF ok(2) garbage.hyps(2) ok(1)] by metis
    with answer_one(1) [OF ok(2) garbage.hyps(2) ok(1)] garbage.IH show ?case
      by (auto dest: subset_mset.order_trans intro: no_media_new)
  qed
  then show ?thesis by (simp add: owed_def)
qed

lemma own_run_owed:
  assumes "(own_step h)\<^sup>*\<^sup>* s s'" "service_ok s" "all_registered (h_registry h)" "no_media h s"
    "all_answerable h s" "reliable (h_cloud h) rank"
  shows "owed s' = owed s"
proof -
  have "owed s' = owed s \<and> no_media h s'"
    using assms(1)
  proof induction
    case (step s1 s2)
    note run = own_run_keeps [OF step.hyps(1) assms(2,3,5,6)]
    from own_step_owed [OF step.hyps(2) _ assms(3)] run step.IH assms(6) show ?case by auto
  qed (use assms(4) in simp)
  then show ?thesis by simp
qed

text \<open>
  C4: A client's call is answered exactly once, in the runs in which the service can answer at all.
  When the call comes, the requests under way, the new one included, must be ones that their providers
  answer: not an extra command to the internal storage or a USB drive (they drop it), not a request for
  a media server and no copy or move to one (it can hang, throw, or be refused twice); the library of the cloud must answer
  (reliable); the called services answer in JSON; and the device manager does not answer a
  subscription again. Then, whatever the program was doing and in whatever order the threads and the
  other services take turns, by the time no step is left it has sent one answer to this call and one
  for each request and call that was under way, and no more.
\<close>

theorem every_call_answered_once:
  assumes set: "well_set h w" and reach: "service_reach h w s"
    and call: "client_call h category name m s = Some s1" and ans: "all_answerable h s1" "no_media h s1"
    and lib: "reliable (h_cloud h) rank" and json: "dom_parse (h_sys h) message \<noteq> None"
    and run: "(own_step h)\<^sup>*\<^sup>* s1 s'" and rest: "\<not> (\<exists>s''. own_step h s' s'')"
  shows "\<exists>new. s_sent s' = s_sent s @ new \<and> mset (map fst new) = add_mset m (under_way s)"
proof -
  have ok: "service_ok s" "all_registered (h_registry h)" "pbn_ok (h_sys h)"
    using well_set_reach [OF set reach] by simp_all
  note c = client_step [OF ok(3,2) call ok(1)]
  note r = rest_answers [OF c(1) ok(2) ans(1) lib json run rest]
  from prefix_order.order_trans [OF c(5) r(3)] obtain new where new: "s_sent s' = s_sent s @ new" by (auto simp: prefix_def)
  have "owed s' = add_mset m (owed s)"
    using own_run_owed [OF run c(1) ok(2) ans(2,1) lib] owed_call [OF ok(3,2) call] by simp
  moreover have "under_way s' = {#}" using set_under_way [of s'] r(1) by simp
  ultimately have "mset (map fst new) = add_mset m (under_way s)" by (simp add: owed_def answers_def new)
  with new show ?thesis by blast
qed

text \<open>One client's call for the storages, left to run to the end.\<close>

lemma calm_owed:
  obtains s1 where "client_call calm_host ''/'' ''listStorageProviders'' m (service_init empty_world) = Some s1"
    "service_reach calm_host empty_world s1" "call_reach calm_host empty_world s1" "all_answerable calm_host s1"
    "no_media calm_host s1" "s_received s1 = [m]" "m \<in> waiting s1"
proof (rule calm_call [of m])
  fix s1
  assume c: "client_call calm_host ''/'' ''listStorageProviders'' m (service_init empty_world) = Some s1"
    and s1: "service_reach calm_host empty_world s1" "all_answerable calm_host s1" "m \<in> waiting s1"
    and o: "\<And>p x. x \<in> set (open_requests (s_disp s1 p)) \<Longrightarrow> collecting x"
  have ok: "service_ok (service_init empty_world)" "all_registered (h_registry calm_host)" "pbn_ok (h_sys calm_host)"
    using well_set_reach [OF calm_set service_reach.start] by simp_all
  note st = client_step [OF ok(3,2) c ok(1)]
  have n: "no_media calm_host s1"
    using service_okD(4) [OF st(1)] o collecting_no_media unfolding no_media_def by blast
  show ?thesis
    by (rule that [OF c s1(1) call_reach.client [OF call_reach.start c n] s1(2) n _ s1(3)])
      (use st(2) in \<open>simp add: service_init_def\<close>)
qed

theorem no_call_answered_twice_witness:
  "\<exists>s. call_reach calm_host empty_world s \<and> calm_message \<in># under_way s \<and> count (answers s + under_way s) calm_message = 1"
proof (rule calm_owed [of calm_message])
  fix s1
  assume s1: "call_reach calm_host empty_world s1" "s_received s1 = [calm_message]" "calm_message \<in> waiting s1"
  have "answers s1 + under_way s1 \<subseteq># {#calm_message#}" using no_call_answered_twice [OF calm_set s1(1)] s1(2) by simp
  then have "count (answers s1 + under_way s1) calm_message \<le> 1"
    using mset_subset_eq_count [of "answers s1 + under_way s1" "{#calm_message#}" calm_message] by simp
  moreover have i: "calm_message \<in># under_way s1" using s1(3) by (simp add: set_under_way)
  moreover from i have "0 < count (under_way s1) calm_message" by simp
  ultimately have "count (answers s1 + under_way s1) calm_message = 1" unfolding count_union by linarith
  with s1(1) i show ?thesis by blast
qed

theorem every_call_answered_once_witness:
  "\<exists>s'. call_reach calm_host empty_world s' \<and> (\<exists>j. s_sent s' = [(calm_message, j)])"
proof (rule calm_owed [of calm_message])
  fix s1
  assume c: "client_call calm_host ''/'' ''listStorageProviders'' calm_message (service_init empty_world) = Some s1"
    and s1: "service_reach calm_host empty_world s1" "call_reach calm_host empty_world s1" "all_answerable calm_host s1"
      "no_media calm_host s1"
  have "service_ok s1 \<and> all_registered (h_registry calm_host)" using well_set_reach [OF calm_set s1(1)] by simp
  from own.rest_reached [OF this] obtain s' where r: "(own_step calm_host)\<^sup>*\<^sup>* s1 s'" "\<not> (\<exists>s''. own_step calm_host s' s'')"
    by blast
  have "call_reach calm_host empty_world s'" using r(1) s1(2)
    by (induction rule: rtranclp_induct) (blast intro: call_reach.own)+
  moreover from every_call_answered_once [OF calm_set service_reach.start c s1(3,4) calm_reliable calm_parse r]
  have "map fst (s_sent s') = [calm_message]"
    by (auto simp: service_init_def under_way_def dispatched_def dispatcher_init_def open_requests_def in_flight_def
        simp flip: mset_map)
  then have "\<exists>j. s_sent s' = [(calm_message, j)]" by auto
  ultimately show ?thesis by blast
qed

end
