(* ===== verification/Saf_Service_Chain.thy ===== *)
theory Saf_Service_Chain
  imports Saf_Service_Once
begin

text \<open>
  What a further answer of the device manager to the subscription of listStoragesMethod makes the
  program send: the part of the state that concerns one client, which the steps made for others leave
  alone, and the chain over the providers as it goes through it.
\<close>

section \<open>What concerns one client\<close>












section \<open>The chain\<close>















section \<open>Property\<close>











end
