(* ===== verification/Saf_Startup.thy ===== *)
theory Saf_Startup
  imports Saf_Luna
begin

text \<open>
  Start and end of the process: main with its signal handler, SAFManager, and the constructor and
  destructor of SAFLunaService, statement by statement, with signals arriving between them.
\<close>

section \<open>The process\<close>

datatype thrown = LS_Error | length_error

text \<open>
  What the library calls do: whether g_main_loop_new gives a loop, what LS::registerService,
  registerCategory, setCategoryData and attachToLoop throw, and whether a loop told to quit
  before it runs remembers it.
\<close>

record surroundings =
  g_main_loop_new :: bool
  LS_registerService :: "thrown option"
  registerCategory :: "string \<Rightarrow> thrown option"
  setCategoryData :: "string \<Rightarrow> thrown option"
  attachToLoop :: "thrown option"
  quit_kept :: bool

datatype counter =
  Install_handlers | New_loop | Construct | Init_service | Attach | Enter_loop | Run_loop | Unref | Destroy | Returned int

datatype loop_state = No_loop | Live | Freed

text \<open>
  The variable mainLoop, whether its loop was told to quit, the handle on the bus with its method
  tables and the object behind each, the static lsHandle, the member mDocumentProviderManager
  and the observers of StatusHandler.
\<close>

record process =
  p_at :: counter
  p_handlers :: bool
  mainLoop :: loop_state
  p_quit :: bool
  p_on_bus :: bool
  p_attached :: bool
  p_tables :: "string list"
  p_objects :: "string list"
  lsHandle :: bool
  mDocumentProviderManager :: bool
  p_observing :: observers

definition process_init :: process where
  "process_init = \<lparr>p_at = Install_handlers, p_handlers = False, mainLoop = No_loop, p_quit = False, p_on_bus = False,
     p_attached = False, p_tables = [], p_objects = [], lsHandle = False, mDocumentProviderManager = False, p_observing = []\<rparr>"

section \<open>SAFLunaService\<close>

text \<open>One try block of registerService: an LS::Error is logged, what else is thrown goes on.\<close>

definition register_category :: "surroundings \<Rightarrow> string \<Rightarrow> process \<Rightarrow> thrown option \<times> process" where
  "register_category env category p =
     (case registerCategory env category of
        Some LS_Error \<Rightarrow> (None, p)
      | Some e \<Rightarrow> (Some e, p)
      | None \<Rightarrow>
          (let p1 = p\<lparr>p_tables := p_tables p @ [category]\<rparr>
           in case setCategoryData env category of
                Some LS_Error \<Rightarrow> (None, p1)
              | Some e \<Rightarrow> (Some e, p1)
              | None \<Rightarrow> (None, p1\<lparr>p_objects := p_objects p1 @ [category]\<rparr>)))"

text \<open>The address of the service object, as StatusHandler keeps it.\<close>

definition service_self :: nat where
  "service_self = 1"

text \<open>The base LS::Handle is destroyed: the service leaves the bus with its tables.\<close>

definition leave_bus :: "process \<Rightarrow> process" where
  "leave_bus p = p\<lparr>p_on_bus := False, p_attached := False, p_tables := [], p_objects := []\<rparr>"

text \<open>The constructor; nothing assigns mDocumentProviderManager, which stays an empty pointer.\<close>

definition construct_service :: "surroundings \<Rightarrow> process \<Rightarrow> thrown option \<times> process" where
  "construct_service env p =
     (case LS_registerService env of
        Some e \<Rightarrow> (Some e, p)
      | None \<Rightarrow>
          (case register_category env ''/'' (p\<lparr>p_on_bus := True, mDocumentProviderManager := False\<rparr>) of
             (Some e, p1) \<Rightarrow> (Some e, leave_bus p1)
           | (None, p1) \<Rightarrow>
               (case register_category env ''/device'' p1 of
                  (Some e, p2) \<Rightarrow> (Some e, leave_bus p2)
                | (None, p2) \<Rightarrow> (None, p2\<lparr>p_observing := observer_Register service_self (p_observing p2)\<rparr>))))"

definition destroy_service :: "process \<Rightarrow> process" where
  "destroy_service p = leave_bus (p\<lparr>p_observing := observer_Unregister service_self (p_observing p)\<rparr>)"

section \<open>main\<close>

text \<open>The two statements of SAFManager::init: mLunaService.init and mLunaService.attachToLoop.\<close>

definition manager_init :: "surroundings \<Rightarrow> process \<Rightarrow> process" where
  "manager_init env p =
     (if p_at p = Init_service then p\<lparr>lsHandle := p_on_bus p, p_at := Attach\<rparr>
      else case attachToLoop env of
             Some e \<Rightarrow> p\<lparr>p_at := Destroy\<rparr>
           | None \<Rightarrow> p\<lparr>p_attached := True, p_at := Enter_loop\<rparr>)"

text \<open>
  One statement of main. SAFManager::init is the statements Init and Attach and gives true, so the
  branch of main for false is never taken; leaving the try block destroys the manager and with
  it the service; a caught exception ends in return 0.
\<close>

definition main_step :: "surroundings \<Rightarrow> process \<Rightarrow> process option" where
  "main_step env p =
     (case p_at p of
        Install_handlers \<Rightarrow> Some (p\<lparr>p_handlers := True, p_at := New_loop\<rparr>)
      | New_loop \<Rightarrow> Some (if g_main_loop_new env then p\<lparr>mainLoop := Live, p_at := Construct\<rparr> else p\<lparr>p_at := Returned 1\<rparr>)
      | Construct \<Rightarrow>
          (case construct_service env p of
             (Some e, p1) \<Rightarrow> Some (p1\<lparr>p_at := Returned 0\<rparr>)
           | (None, p1) \<Rightarrow> Some (p1\<lparr>p_at := Init_service\<rparr>))
      | Init_service \<Rightarrow> Some (manager_init env p)
      | Attach \<Rightarrow> Some (manager_init env p)
      | Enter_loop \<Rightarrow> Some (p\<lparr>p_quit := p_quit p \<and> quit_kept env, p_at := Run_loop\<rparr>)
      | Run_loop \<Rightarrow> (if p_quit p then Some (p\<lparr>p_at := Unref\<rparr>) else None)
      | Unref \<Rightarrow> Some (p\<lparr>mainLoop := Freed, p_at := Destroy\<rparr>)
      | Destroy \<Rightarrow> Some ((destroy_service p)\<lparr>p_at := Returned 0\<rparr>)
      | Returned c \<Rightarrow> None)"

datatype signal = SIGTERM | SIGABRT | other_signal

definition signal_name :: "signal \<Rightarrow> string" where
  "signal_name s = (case s of SIGTERM \<Rightarrow> ''SIGTERM'' | SIGABRT \<Rightarrow> ''SIGABRT'' | other_signal \<Rightarrow> ''Unknown'')"

text \<open>
  term_handler: what it logs, and g_main_loop_quit, which rejects a null pointer. None is the call with
  the pointer of a loop that was freed.
\<close>

definition term_handler :: "signal \<Rightarrow> process \<Rightarrow> (string \<times> process) option" where
  "term_handler s p =
     (case mainLoop p of
        No_loop \<Rightarrow> Some (signal_name s, p)
      | Live \<Rightarrow> Some (signal_name s, p\<lparr>p_quit := True\<rparr>)
      | Freed \<Rightarrow> None)"

inductive process_step :: "surroundings \<Rightarrow> process \<Rightarrow> process \<Rightarrow> bool" for env where
  main: "main_step env p = Some p' \<Longrightarrow> process_step env p p'"
| signal: "p_handlers p \<Longrightarrow> term_handler s p = Some (msg, p') \<Longrightarrow> process_step env p p'"

inductive process_reach :: "surroundings \<Rightarrow> process \<Rightarrow> bool" for env where
  start: "process_reach env process_init"
| step: "process_reach env p \<Longrightarrow> process_step env p p' \<Longrightarrow> process_reach env p'"

text \<open>The methods a caller finds on the bus.\<close>

definition bus_method ::
  "'a pbn_scheme \<Rightarrow> (lsmsg \<Rightarrow> string) \<Rightarrow> factories \<Rightarrow> process \<Rightarrow> string \<Rightarrow> string \<Rightarrow> (lsmsg \<Rightarrow> luna_event list) option" where
  "bus_method pf sess fs p category method =
     (if p_on_bus p \<and> p_attached p \<and> category \<in> set (p_tables p) then registerService pf sess fs category method else None)"

section \<open>The invariant\<close>

text \<open>The categories on offer, those with an object behind them, and when the constructor returns.\<close>

definition offered_categories :: "surroundings \<Rightarrow> string list" where
  "offered_categories env = filter (\<lambda>c. registerCategory env c = None) [''/'', ''/device'']"

definition backed_categories :: "surroundings \<Rightarrow> string list" where
  "backed_categories env = filter (\<lambda>c. setCategoryData env c = None) (offered_categories env)"

definition category_throws :: "surroundings \<Rightarrow> string \<Rightarrow> bool" where
  "category_throws env c \<longleftrightarrow> registerCategory env c = Some length_error
     \<or> registerCategory env c = None \<and> setCategoryData env c = Some length_error"

definition constructs :: "surroundings \<Rightarrow> bool" where
  "constructs env \<longleftrightarrow> LS_registerService env = None \<and> \<not> category_throws env ''/'' \<and> \<not> category_throws env ''/device''"

lemma register_category_throws:
  "category_throws env c \<Longrightarrow> \<exists>p'. register_category env c p = (Some length_error, p')"
  by (auto simp: register_category_def category_throws_def Let_def)

lemma register_category_returns:
  "\<not> category_throws env c \<Longrightarrow> register_category env c p =
     (None, p\<lparr>p_tables := p_tables p @ filter (\<lambda>c. registerCategory env c = None) [c],
              p_objects := p_objects p @ filter (\<lambda>c. registerCategory env c = None \<and> setCategoryData env c = None) [c]\<rparr>)"
  by (auto simp: register_category_def category_throws_def Let_def split: option.splits thrown.splits)

lemma register_category_keeps:
  "register_category env c p = (r, p') \<Longrightarrow> p_observing p' = p_observing p \<and> lsHandle p' = lsHandle p \<and> mainLoop p' = mainLoop p
     \<and> p_handlers p' = p_handlers p \<and> mDocumentProviderManager p' = mDocumentProviderManager p"
  by (auto simp: register_category_def Let_def split: option.splits thrown.splits)

text \<open>Before the service is there or after it was destroyed, and while it is there.\<close>

definition no_service :: "process \<Rightarrow> bool" where
  "no_service p \<longleftrightarrow> \<not> p_on_bus p \<and> \<not> p_attached p \<and> p_tables p = [] \<and> p_objects p = [] \<and> p_observing p = []"

definition with_service :: "surroundings \<Rightarrow> process \<Rightarrow> bool" where
  "with_service env p \<longleftrightarrow> constructs env \<and> p_on_bus p \<and> p_tables p = offered_categories env \<and> p_objects p = backed_categories env \<and> p_observing p = [service_self]"

lemma construct_service_cases:
  assumes "no_service p" "\<not> mDocumentProviderManager p"
  obtains e p' where "\<not> constructs env" "construct_service env p = (Some e, p')" "no_service p'" "mainLoop p' = mainLoop p"
      "p_handlers p' = p_handlers p" "\<not> mDocumentProviderManager p'"
  | p' where "construct_service env p = (None, p')" "with_service env p'" "mainLoop p' = mainLoop p" "p_attached p' = p_attached p"
      "p_handlers p' = p_handlers p" "\<not> mDocumentProviderManager p'"
proof (cases "LS_registerService env")
  case None
  let ?p = "p\<lparr>p_on_bus := True, mDocumentProviderManager := False\<rparr>"
  show ?thesis
  proof (cases "category_throws env ''/''")
    case True
    obtain p1 where p1: "register_category env ''/'' ?p = (Some length_error, p1)" using register_category_throws [OF True] by blast
    show ?thesis
      by (rule that(1) [of length_error "leave_bus p1"])
        (use None True assms p1 register_category_keeps [OF p1] in
          \<open>simp_all add: constructs_def construct_service_def leave_bus_def no_service_def\<close>)
  next
    case no_throw: False
    note e1 = register_category_returns [OF no_throw]
    then obtain p1 where p1: "register_category env ''/'' ?p = (None, p1)" by blast
    show ?thesis
    proof (cases "category_throws env ''/device''")
      case True
      obtain p2 where p2: "register_category env ''/device'' p1 = (Some length_error, p2)" using register_category_throws [OF True] by blast
      show ?thesis
        by (rule that(1) [of length_error "leave_bus p2"])
          (use None True assms p1 p2 register_category_keeps [OF p1] register_category_keeps [OF p2] in
            \<open>simp_all add: constructs_def construct_service_def leave_bus_def no_service_def\<close>)
    next
      case False
      note e2 = register_category_returns [OF False]
      show ?thesis
        by (rule that(2) [of "snd (construct_service env p)"])
          (use None False no_throw assms e1 e2 in \<open>simp_all add: constructs_def construct_service_def no_service_def
            with_service_def offered_categories_def backed_categories_def observer_Register_def service_self_def\<close>)
    qed
  qed
next
  case (Some e)
  show ?thesis
    by (rule that(1) [of e p]) (use Some assms in \<open>simp_all add: constructs_def construct_service_def\<close>)
qed

text \<open>What holds at each statement of main.\<close>

definition process_ok :: "surroundings \<Rightarrow> process \<Rightarrow> bool" where
  "process_ok env p \<longleftrightarrow> \<not> mDocumentProviderManager p
     \<and> (case p_at p of
          Install_handlers \<Rightarrow> no_service p \<and> mainLoop p = No_loop \<and> \<not> lsHandle p
        | New_loop \<Rightarrow> no_service p \<and> mainLoop p = No_loop \<and> \<not> lsHandle p
        | Construct \<Rightarrow> no_service p \<and> mainLoop p = Live \<and> \<not> lsHandle p \<and> g_main_loop_new env
        | Init_service \<Rightarrow> with_service env p \<and> mainLoop p = Live \<and> \<not> p_attached p \<and> \<not> lsHandle p \<and> g_main_loop_new env
        | Attach \<Rightarrow> with_service env p \<and> mainLoop p = Live \<and> \<not> p_attached p \<and> lsHandle p \<and> g_main_loop_new env
        | Destroy \<Rightarrow> with_service env p \<and> lsHandle p \<and> g_main_loop_new env
            \<and> mainLoop p = (if attachToLoop env = None then Freed else Live)
        | Returned c \<Rightarrow> no_service p \<and> c = (if g_main_loop_new env then 0 else 1) \<and> (lsHandle p \<longleftrightarrow> constructs env \<and> g_main_loop_new env)
            \<and> mainLoop p = (if \<not> g_main_loop_new env then No_loop
                            else if constructs env \<and> attachToLoop env = None then Freed else Live)
        | _ \<Rightarrow> with_service env p \<and> mainLoop p = Live \<and> p_attached p \<and> lsHandle p \<and> g_main_loop_new env \<and> attachToLoop env = None)"

lemma no_service_update [simp]:
  "no_service (p\<lparr>p_at := c\<rparr>) = no_service p" "no_service (p\<lparr>p_handlers := b\<rparr>) = no_service p" "no_service (p\<lparr>mainLoop := l\<rparr>) = no_service p"
  "no_service (p\<lparr>p_quit := b\<rparr>) = no_service p" "no_service (p\<lparr>lsHandle := b\<rparr>) = no_service p"
  "with_service env (p\<lparr>p_at := c\<rparr>) = with_service env p" "with_service env (p\<lparr>p_handlers := b\<rparr>) = with_service env p"
  "with_service env (p\<lparr>mainLoop := l\<rparr>) = with_service env p" "with_service env (p\<lparr>p_quit := b\<rparr>) = with_service env p"
  "with_service env (p\<lparr>lsHandle := b\<rparr>) = with_service env p" "with_service env (p\<lparr>p_attached := b\<rparr>) = with_service env p"
  by (simp_all add: no_service_def with_service_def)

lemma destroy_no_service: "with_service env p \<Longrightarrow> no_service (destroy_service p)"
  by (simp add: with_service_def destroy_service_def leave_bus_def no_service_def observer_Unregister_def service_self_def)

lemma destroy_keeps [simp]:
  "mainLoop (destroy_service p) = mainLoop p" "lsHandle (destroy_service p) = lsHandle p"
  "mDocumentProviderManager (destroy_service p) = mDocumentProviderManager p"
  by (simp_all add: destroy_service_def leave_bus_def)

lemma process_ok_main:
  assumes "process_ok env p" "main_step env p = Some p'"
  shows "process_ok env p'"
proof (cases "p_at p")
  case Construct
  with assms(1) have f: "no_service p" "\<not> mDocumentProviderManager p" "mainLoop p = Live" "\<not> lsHandle p" "g_main_loop_new env"
    by (simp_all add: process_ok_def)
  have l: "lsHandle (snd (construct_service env p)) = lsHandle p"
    by (auto simp: construct_service_def leave_bus_def dest!: register_category_keeps split: option.splits prod.splits)
  show ?thesis
  proof (rule construct_service_cases [OF f(1,2), of env])
    fix e p1
    assume "\<not> constructs env" "construct_service env p = (Some e, p1)" "no_service p1" "mainLoop p1 = mainLoop p"
      "\<not> mDocumentProviderManager p1"
    with assms(2) Construct f l show ?thesis by (auto simp: process_ok_def main_step_def manager_init_def)
  next
    fix p1
    assume "construct_service env p = (None, p1)" "with_service env p1" "mainLoop p1 = mainLoop p" "p_attached p1 = p_attached p"
      "\<not> mDocumentProviderManager p1"
    with assms(2) Construct f l show ?thesis by (auto simp: process_ok_def main_step_def manager_init_def no_service_def)
  qed
next
  case Destroy
  with assms show ?thesis by (auto simp: process_ok_def main_step_def manager_init_def destroy_no_service with_service_def)
qed (use assms in \<open>auto simp: process_ok_def main_step_def manager_init_def with_service_def split: option.splits if_splits\<close>)

lemma process_ok_signal:
  assumes "process_ok env p" "term_handler s p = Some (msg, p')"
  shows "process_ok env p'"
proof (cases "mainLoop p")
  case Live
  with assms(2) have "p' = p\<lparr>p_quit := True\<rparr>" by (simp add: term_handler_def)
  with assms(1) show ?thesis by (cases "p_at p") (simp_all add: process_ok_def)
qed (use assms in \<open>simp_all add: term_handler_def\<close>)

lemma process_ok_reach: "process_reach env p \<Longrightarrow> process_ok env p"
proof (induction rule: process_reach.induct)
  case start
  show ?case by (simp add: process_ok_def process_init_def no_service_def)
next
  case (step p p')
  from step.hyps(2) step.IH show ?case
    by (cases rule: process_step.cases) (blast dest: process_ok_main process_ok_signal)+
qed

section \<open>Properties\<close>

text \<open>
  C31: While the main loop runs, the service is set up: the handle of its calls is set, it observes,
  the loop is alive, and a caller finds exactly the methods of the categories that were registered.
  A category whose registration failed is only logged and missing, one whose data could not be
  set has no object behind its methods, and the pointer to the request manager is never set.
\<close>

theorem running_service_is_set_up:
  assumes "process_reach env p" "p_at p = Run_loop"
  shows "lsHandle p \<and> p_observing p = [service_self] \<and> mainLoop p = Live
     \<and> bus_method pf sess fs p category name =
         (if registerCategory env category = None then registerService pf sess fs category name else None)
     \<and> set (p_objects p) = {c \<in> set (p_tables p). setCategoryData env c = None}
     \<and> \<not> mDocumentProviderManager p"
proof -
  from process_ok_reach [OF assms(1)] assms(2) have p: "with_service env p" "mainLoop p = Live" "p_attached p" "lsHandle p"
    "\<not> mDocumentProviderManager p"
    by (simp_all add: process_ok_def)
  have "registerService pf sess fs category name = None" if "category \<notin> {''/'', ''/device''}"
    using that by (simp add: registerService_def)
  moreover have "category \<in> set (p_tables p) \<longleftrightarrow> category \<in> {''/'', ''/device''} \<and> registerCategory env category = None"
    using p(1) by (auto simp: with_service_def offered_categories_def)
  moreover have "set (p_objects p) = {c \<in> set (p_tables p). setCategoryData env c = None}"
    using p(1) by (auto simp: with_service_def backed_categories_def)
  ultimately show ?thesis
    using p by (cases "category \<in> {''/'', ''/device''}") (simp_all add: bus_method_def with_service_def del: insert_iff)
qed

text \<open>
  C32: However the process comes to its end, with signals at any time, the service has left the bus and
  observes no more; the exit status is 1 if and only if no loop could be made, so that a service that was
  refused by the bus or could not be attached ends with 0; and the loop is released exactly when nothing
  was thrown.
\<close>

theorem process_exit:
  assumes "process_reach env p" "p_at p = Returned c"
  shows "c = (if g_main_loop_new env then 0 else 1) \<and> \<not> p_on_bus p \<and> p_observing p = []
     \<and> (mainLoop p = Freed \<longleftrightarrow> g_main_loop_new env \<and> constructs env \<and> attachToLoop env = None)"
  using process_ok_reach [OF assms(1)] assms(2) by (simp add: process_ok_def no_service_def)

text \<open>A signal to the running process ends it in three steps.\<close>

lemma term_ends_process:
  assumes "process_reach env p" "p_at p = Run_loop" "term_handler s p = Some (msg, p1)"
  shows "\<exists>p'. (process_step env ^^ 3) p1 p' \<and> p_at p' = Returned 0 \<and> mainLoop p' = Freed"
proof -
  from process_ok_reach [OF assms(1)] assms(2) have l: "mainLoop p = Live" by (simp add: process_ok_def)
  with assms(3) have p1: "p1 = p\<lparr>p_quit := True\<rparr>" by (simp add: term_handler_def)
  let ?p2 = "p1\<lparr>p_at := Unref\<rparr>" and ?p3 = "p1\<lparr>mainLoop := Freed, p_at := Destroy\<rparr>"
  have "process_step env p1 ?p2" "process_step env ?p2 ?p3" "process_step env ?p3 ((destroy_service ?p3)\<lparr>p_at := Returned 0\<rparr>)"
    by (rule process_step.main, simp add: p1 assms(2) main_step_def manager_init_def)+
  then have "(process_step env ^^ 3) p1 ((destroy_service ?p3)\<lparr>p_at := Returned 0\<rparr>)"
    by (auto simp: numeral_3_eq_3)
  then show ?thesis by (intro exI [of _ "(destroy_service ?p3)\<lparr>p_at := Returned 0\<rparr>"]) simp
qed

text \<open>Runs of main without a signal, and with one before the loop is entered.\<close>

definition calm_surroundings :: surroundings where
  "calm_surroundings = \<lparr>g_main_loop_new = True, LS_registerService = None, registerCategory = (\<lambda>c. None),
     setCategoryData = (\<lambda>c. None), attachToLoop = None, quit_kept = True\<rparr>"

definition main_run :: "surroundings \<Rightarrow> nat \<Rightarrow> process \<Rightarrow> process option" where
  "main_run env n p = ((\<lambda>q. Option.bind q (main_step env)) ^^ n) (Some p)"

lemma main_run_reach: "main_run env n p = Some p' \<Longrightarrow> process_reach env p \<Longrightarrow> process_reach env p'"
  by (induction n arbitrary: p') (auto simp: main_run_def bind_eq_Some_conv intro: process_reach.step process_step.main)

definition signalled :: process where
  "signalled = the (map_option (\<lambda>p. p\<lparr>p_quit := True\<rparr>) (main_run calm_surroundings 2 process_init))"

lemma signalled_reach: "process_reach calm_surroundings signalled"
proof -
  obtain p where p: "main_run calm_surroundings 2 process_init = Some p" "p_handlers p" "mainLoop p = Live"
    by (auto simp: main_run_def process_init_def calm_surroundings_def main_step_def manager_init_def numeral_2_eq_2)
  then have "process_step calm_surroundings p signalled"
    by (intro process_step.signal [where s = SIGTERM and msg = "''SIGTERM''"])
      (simp_all add: signalled_def term_handler_def signal_name_def)
  with main_run_reach [OF p(1) process_reach.start] show ?thesis by (rule process_reach.step)
qed

lemma calm_runs:
  "map_option p_at (main_run calm_surroundings 6 process_init) = Some Run_loop"
  "map_option p_at (main_run calm_surroundings 7 signalled) = Some (Returned 0)"
  "map_option (\<lambda>p. (p_handlers p, p_at p, mainLoop p)) (main_run calm_surroundings 6 signalled) = Some (True, Destroy, Freed)"
  by code_simp+

theorem running_service_is_set_up_witness:
  "\<exists>p. p_at p = Run_loop \<and> p_observing p = [service_self]
     \<and> bus_method (parsing jobject) (\<lambda>m. ''root'') (register_all registrations) p ''/device'' ''list'' \<noteq> None"
proof -
  obtain p where p: "main_run calm_surroundings 6 process_init = Some p" "p_at p = Run_loop" using calm_runs(1) by auto
  from running_service_is_set_up [OF main_run_reach [OF p(1) process_reach.start] p(2), of "parsing jobject"]
  show ?thesis using p(2) by (intro exI [of _ p]) (simp add: calm_surroundings_def registerService_def)
qed

theorem process_exit_witness:
  "\<exists>p. process_reach calm_surroundings p \<and> p_at p = Returned 0 \<and> mainLoop p = Freed \<and> p_observing p = []"
proof -
  obtain p where p: "main_run calm_surroundings 7 signalled = Some p" "p_at p = Returned 0" using calm_runs(2) by auto
  note r = main_run_reach [OF p(1) signalled_reach]
  from process_exit [OF r p(2)] r p(2) show ?thesis
    by (intro exI [of _ p]) (simp add: calm_surroundings_def constructs_def category_throws_def)
qed

text \<open>A signal between the release of the loop and the end of main uses a loop that was freed.\<close>

lemma late_signal_uses_freed_loop:
  "\<exists>p. process_reach calm_surroundings p \<and> p_handlers p \<and> p_at p = Destroy \<and> term_handler SIGTERM p = None"
proof -
  obtain p where p: "main_run calm_surroundings 6 signalled = Some p" "p_handlers p" "p_at p = Destroy" "mainLoop p = Freed"
    using calm_runs(3) by auto
  with main_run_reach [OF p(1) signalled_reach] show ?thesis by (intro exI [of _ p]) (simp add: term_handler_def)
qed

end
