(* ===== verification/Saf_Utf8.thy ===== *)
theory Saf_Utf8
  imports "HOL-Library.Word"
begin

text \<open>
  The character codec of the JSON part of the Google Drive library (jconer/util.hpp): UTF8::encode,
  UTF8::decode over C strings whose end must not be passed, and HexCode::decode for the four
  digits of an escape.
\<close>

section \<open>Bytes and C strings\<close>

unbundle bit_operations_syntax

type_synonym byte = "8 word"

text \<open>The cast of an int to char.\<close>

definition to_char :: "int \<Rightarrow> byte" where
  "to_char x = word_of_int x"

section \<open>UTF8\<close>

text \<open>UTF8::encode into a buffer of n bytes: the bytes written, or None for -1.\<close>

definition utf8_encode :: "int \<Rightarrow> int \<Rightarrow> byte list option" where
  "utf8_encode v n =
     (if v < 0 \<or> n \<le> 0 then None
      else if v < 0x80 then Some [to_char v]
      else if v < 0x800 then
        (if n < 2 then None
         else Some [to_char (0xC0 + drop_bit 6 (v AND 0x7C0)), to_char (0x80 + (v AND 0x03F))])
      else if v < 0x10000 then
        (if n < 3 then None
         else Some [to_char (0xE0 + drop_bit 12 (v AND 0xF000)), to_char (0x80 + drop_bit 6 (v AND 0x0FC0)),
                    to_char (0x80 + (v AND 0x003F))])
      else if v \<le> 0x10FFFF then
        (if n < 4 then None
         else Some [to_char (0xF0 + drop_bit 18 (v AND 0x1C0000)), to_char (0x80 + drop_bit 12 (v AND 0x03F000)),
                    to_char (0x80 + drop_bit 6 (v AND 0x000FC0)), to_char (0x80 + (v AND 0x00003F))])
      else None)"

text \<open>The byte at an index of a C string: its terminator is 0, what is behind it must not be read.\<close>

definition c_byte :: "byte list \<Rightarrow> nat \<Rightarrow> int option" where
  "c_byte xs i = (if i < length xs then Some (uint (xs ! i)) else if i = length xs then Some 0 else None)"

definition getUTF8Length :: "int \<Rightarrow> nat" where
  "getUTF8Length byte =
     (if byte < 0x80 then 1
      else if 0x80 \<le> byte \<and> byte \<le> 0xBF then 0
      else if byte = 0xC0 \<or> byte = 0xC1 then 0
      else if 0xC2 \<le> byte \<and> byte \<le> 0xDF then 2
      else if 0xE0 \<le> byte \<and> byte \<le> 0xEF then 3
      else if 0xF0 \<le> byte \<and> byte \<le> 0xF4 then 4
      else 0)"

datatype 'a read = Read 'a | Rejected | Out_of_string

text \<open>The loop over the continuation bytes.\<close>

fun decode_rest :: "byte list \<Rightarrow> nat \<Rightarrow> nat \<Rightarrow> int \<Rightarrow> int read" where
  "decode_rest xs i 0 value = Read value"
| "decode_rest xs i (Suc n) value =
     (case c_byte xs i of
        None \<Rightarrow> Out_of_string
      | Some u \<Rightarrow> if u < 0x80 \<or> 0xBF < u then Rejected
                  else decode_rest xs (Suc i) n (push_bit 6 value + (u AND 0x3F)))"

text \<open>What is checked of the value that was put together.\<close>

definition utf8_accept :: "nat \<Rightarrow> int read \<Rightarrow> (nat \<times> int) read" where
  "utf8_accept count r =
     (case r of
        Read value \<Rightarrow>
          (if 0x10FFFF < value then Rejected
           else if 0xD800 \<le> value \<and> value \<le> 0xDFFF then Rejected
           else if count = 2 \<and> value < 0x80 \<or> count = 3 \<and> value < 0x800 \<or> count = 4 \<and> value < 0x10000
           then Rejected
           else Read (count, value))
      | Rejected \<Rightarrow> Rejected
      | Out_of_string \<Rightarrow> Out_of_string)"

definition utf8_decode :: "byte list \<Rightarrow> (nat \<times> int) read" where
  "utf8_decode xs =
     (case c_byte xs 0 of
        None \<Rightarrow> Out_of_string
      | Some u \<Rightarrow>
          (let count = getUTF8Length u
           in if count = 0 then Rejected
              else if count = 1 then Read (1, u)
              else utf8_accept count (decode_rest xs 1 (count - 1)
                     (u AND (if count = 2 then 0x1F else if count = 3 then 0xF else 0x7)))))"

section \<open>HexCode\<close>

definition hex_value :: "int \<Rightarrow> int option" where
  "hex_value c =
     (if 0x30 \<le> c \<and> c \<le> 0x39 then Some (c - 0x30)
      else if 0x41 \<le> c \<and> c \<le> 0x46 then Some (c - 0x41 + 10)
      else if 0x61 \<le> c \<and> c \<le> 0x66 then Some (c - 0x61 + 10)
      else None)"

fun hex_rest :: "byte list \<Rightarrow> nat \<Rightarrow> nat \<Rightarrow> int \<Rightarrow> int read" where
  "hex_rest xs i 0 value = Read value"
| "hex_rest xs i (Suc n) value =
     (case c_byte xs i of
        None \<Rightarrow> Out_of_string
      | Some c \<Rightarrow> (case hex_value c of
                     None \<Rightarrow> Rejected
                   | Some d \<Rightarrow> hex_rest xs (Suc i) n (push_bit 4 value + d)))"

definition hex_decode :: "byte list \<Rightarrow> int read" where
  "hex_decode xs = hex_rest xs 0 4 0"

section \<open>Facts\<close>

lemma accept_Read: "utf8_accept count r = Read x \<Longrightarrow> \<exists>w. r = Read w"
  by (cases r) (simp_all add: utf8_accept_def)

lemma accept_outside [simp]: "utf8_accept count r = Out_of_string \<longleftrightarrow> r = Out_of_string"
  by (simp add: utf8_accept_def split: read.split)

text \<open>Masks as quotients and remainders.\<close>

lemma and_shifted_mask: "m = push_bit k (mask n) \<Longrightarrow> drop_bit k (v AND m) = v div 2 ^ k mod (2 :: int) ^ n"
proof -
  have "drop_bit k (push_bit k (mask n)) = (mask n :: int)" by (simp add: drop_bit_eq_div push_bit_eq_mult)
  then have "drop_bit k (v AND push_bit k (mask n)) = take_bit n (drop_bit k v)" by (simp add: take_bit_eq_mask)
  then show "m = push_bit k (mask n) \<Longrightarrow> ?thesis" by (simp add: take_bit_eq_mod drop_bit_eq_div)
qed

lemma and_low_mask: "m = mask n \<Longrightarrow> v AND m = v mod (2 :: int) ^ n"
  using take_bit_eq_mask [of n v] by (simp add: take_bit_eq_mod)

lemma and_masks [simp]:
  "v AND 0x3F = v mod 64" "v AND 0x1F = v mod 32" "v AND 0xF = v mod 16" "v AND 0x7 = v mod (8 :: int)"
  using and_low_mask [of "0x3F" 6 v] and_low_mask [of "0x1F" 5 v] and_low_mask [of "0xF" 4 v] and_low_mask [of "0x7" 3 v]
  by (simp_all add: mask_eq_exp_minus_1)

lemma shifted_masks [simp]:
  "drop_bit 6 (v AND 0x7C0) = v div 64 mod 32" "drop_bit 12 (v AND 0xF000) = v div 4096 mod 16"
  "drop_bit 6 (v AND 0xFC0) = v div 64 mod 64" "drop_bit 18 (v AND 0x1C0000) = v div 262144 mod 8"
  "drop_bit 12 (v AND 0x3F000) = v div 4096 mod (64 :: int)"
proof -
  have m: "0x7C0 = push_bit 6 (mask 5 :: int)" "0xF000 = push_bit 12 (mask 4 :: int)" "0xFC0 = push_bit 6 (mask 6 :: int)"
    "0x1C0000 = push_bit 18 (mask 3 :: int)" "0x3F000 = push_bit 12 (mask 6 :: int)"
    by (simp_all add: mask_eq_exp_minus_1 push_bit_eq_mult)
  show "drop_bit 6 (v AND 0x7C0) = v div 64 mod 32" by (subst and_shifted_mask [OF m(1)]) simp
  show "drop_bit 12 (v AND 0xF000) = v div 4096 mod 16" by (subst and_shifted_mask [OF m(2)]) simp
  show "drop_bit 6 (v AND 0xFC0) = v div 64 mod 64" by (subst and_shifted_mask [OF m(3)]) simp
  show "drop_bit 18 (v AND 0x1C0000) = v div 262144 mod 8" by (subst and_shifted_mask [OF m(4)]) simp
  show "drop_bit 12 (v AND 0x3F000) = v div 4096 mod 64" by (subst and_shifted_mask [OF m(5)]) simp
qed

lemma uint_to_char: "0 \<le> x \<Longrightarrow> x < 256 \<Longrightarrow> uint (to_char x) = x"
  by (simp add: to_char_def uint_word_of_int)

lemma to_char_uint: "to_char (uint b) = b"
  by (simp add: to_char_def)

lemma c_byte_Cons [simp]:
  "c_byte (x # xs) 0 = Some (uint x)" "c_byte (x # xs) (Suc i) = c_byte xs i" "c_byte [] 0 = Some 0"
  by (simp_all add: c_byte_def)

lemma decode_rest_Cons [simp]:
  "decode_rest (x # xs) (Suc i) n w = decode_rest xs i n w"
  by (induction n arbitrary: i w) (simp_all split: option.split)

text \<open>The continuation bytes after the first.\<close>

definition cont_byte :: "int \<Rightarrow> byte" where
  "cont_byte r = to_char (0x80 + r)"

lemma decode_rest_cont:
  assumes "0 \<le> r" "r < 64"
  shows "decode_rest (cont_byte r # xs) 0 (Suc n) w = decode_rest xs 0 n (64 * w + r)"
proof -
  have "(128 + r) mod 64 = (r + 2 * 64) mod 64" by (simp add: add.commute)
  also have "\<dots> = r mod 64" by (rule mod_mult_self1)
  also have "\<dots> = r" using assms by simp
  finally have "(128 + r) mod 64 = r" .
  with assms show ?thesis by (simp add: cont_byte_def uint_to_char push_bit_eq_mult mult.commute)
qed

lemma decode_rest_Read:
  assumes "decode_rest xs 0 (Suc n) w = Read v"
  obtains r ys where "0 \<le> r" "r < 64" "xs = cont_byte r # ys" "decode_rest ys 0 n (64 * w + r) = Read v"
proof (cases xs)
  case (Cons b ys)
  with assms have b: "0x80 \<le> uint b" "uint b \<le> 0xBF" by (auto split: if_splits)
  have c: "xs = cont_byte (uint b - 0x80) # ys" using Cons by (simp add: cont_byte_def to_char_uint)
  show ?thesis
    by (rule that [OF _ _ c]) (use b assms decode_rest_cont [of "uint b - 0x80" ys n w] c in simp_all)
qed (use assms in simp)

text \<open>The encodings of two, three and four bytes.\<close>

lemma decode_2:
  assumes "2 \<le> q" "q < 32" "0 \<le> r" "r < 64"
  shows "utf8_decode (to_char (0xC0 + q) # cont_byte r # rest) = Read (2, 64 * q + r)"
proof -
  have "(192 + q) mod 32 = q" using assms by presburger
  then show ?thesis
    using assms decode_rest_cont [of r rest 0 q]
    by (simp add: utf8_decode_def uint_to_char getUTF8Length_def utf8_accept_def eval_nat_numeral del: decode_rest.simps(2))
qed

lemma decode_3:
  assumes "0 \<le> q" "q < 16" "0 \<le> r" "r < 64" "0 \<le> t" "t < 64"
  shows "utf8_decode (to_char (0xE0 + q) # cont_byte r # cont_byte t # rest) =
    (let v = 4096 * q + 64 * r + t in if 0xD800 \<le> v \<and> v \<le> 0xDFFF \<or> v < 0x800 then Rejected else Read (3, v))"
proof -
  have "(224 + q) mod 16 = q" using assms by presburger
  then show ?thesis
    using assms decode_rest_cont [of r "cont_byte t # rest" 1 q] decode_rest_cont [of t rest 0 "64 * q + r"]
    by (simp add: utf8_decode_def uint_to_char getUTF8Length_def utf8_accept_def eval_nat_numeral Let_def del: decode_rest.simps(2))
qed

lemma decode_4:
  assumes "0 \<le> q" "q < 5" "0 \<le> r" "r < 64" "0 \<le> t" "t < 64" "0 \<le> u" "u < 64"
  shows "utf8_decode (to_char (0xF0 + q) # cont_byte r # cont_byte t # cont_byte u # rest) =
    (let v = 262144 * q + 4096 * r + 64 * t + u in if 0x10FFFF < v \<or> v < 0x10000 then Rejected else Read (4, v))"
proof -
  have "(240 + q) mod 8 = q" using assms by presburger
  then show ?thesis
    using assms decode_rest_cont [of r "cont_byte t # cont_byte u # rest" 2 q] decode_rest_cont [of t "cont_byte u # rest" 1 "64 * q + r"]
      decode_rest_cont [of u rest 0 "64 * (64 * q + r) + t"]
    by (simp add: utf8_decode_def uint_to_char getUTF8Length_def utf8_accept_def eval_nat_numeral Let_def del: decode_rest.simps(2))
qed


lemma digit_64: "0 \<le> (r :: int) \<Longrightarrow> r < 64 \<Longrightarrow> (64 * a + r) div 64 = a" "0 \<le> r \<Longrightarrow> r < 64 \<Longrightarrow> (64 * a + r) mod 64 = r"
  by simp_all

lemma div_64: "v div 4096 = v div 64 div (64 :: int)" "v div 262144 = v div 64 div 64 div (64 :: int)"
  by (simp_all add: zdiv_zmult2_eq [symmetric])

text \<open>A value in digits of six bits.\<close>

lemma digits_64:
  obtains a r where "(v :: int) = 64 * a + r" "0 \<le> r" "r < 64"
  by (rule that [of "v div 64" "v mod 64"]) simp_all

lemma encode_1: "0 \<le> v \<Longrightarrow> v < 128 \<Longrightarrow> 0 < n \<Longrightarrow> utf8_encode v n = Some [to_char v]"
  by (simp add: utf8_encode_def)

lemma encode_2:
  assumes "v = 64 * q + r" "2 \<le> q" "q < 32" "0 \<le> r" "r < 64" "2 \<le> n"
  shows "utf8_encode v n = Some [to_char (0xC0 + q), cont_byte r]"
proof -
  have "v div 64 = q" "v mod 64 = r" "128 \<le> v" "v < 2048" using assms digit_64 [of r q] by simp_all
  with assms(2,3,6) show ?thesis by (simp add: utf8_encode_def cont_byte_def del: drop_bit_and)
qed

lemma encode_3:
  assumes "v = 4096 * q + 64 * r + t" "0 \<le> q" "q < 16" "0 \<le> r" "r < 64" "0 \<le> t" "t < 64" "2048 \<le> v" "3 \<le> n"
  shows "utf8_encode v n = Some [to_char (0xE0 + q), cont_byte r, cont_byte t]"
proof -
  have v: "v = 64 * (64 * q + r) + t" using assms(1) by simp
  have "v div 64 = 64 * q + r" "v mod 64 = t" using digit_64 [OF assms(6,7), of "64 * q + r"] by (simp_all only: v)
  moreover have "v div 4096 = q" "v div 64 mod 64 = r" using digit_64 [OF assms(4,5), of q] by (simp_all only: div_64 calculation)
  moreover have "v < 65536" using assms by linarith
  ultimately show ?thesis using assms(2,3,8,9) by (simp add: utf8_encode_def cont_byte_def del: drop_bit_and)
qed

lemma encode_4:
  assumes "v = 262144 * q + 4096 * r + 64 * t + u" "0 \<le> q" "q < 5" "0 \<le> r" "r < 64" "0 \<le> t" "t < 64" "0 \<le> u" "u < 64"
    "65536 \<le> v" "v \<le> 0x10FFFF" "4 \<le> n"
  shows "utf8_encode v n = Some [to_char (0xF0 + q), cont_byte r, cont_byte t, cont_byte u]"
proof -
  have v: "v = 64 * (64 * (64 * q + r) + t) + u" using assms(1) by simp
  have a: "v div 64 = 64 * (64 * q + r) + t" "v mod 64 = u" using digit_64 [OF assms(8,9), of "64 * (64 * q + r) + t"] by (simp_all only: v)
  have b: "v div 4096 = 64 * q + r" "v div 64 mod 64 = t" using digit_64 [OF assms(6,7), of "64 * q + r"] by (simp_all only: div_64 a)
  have c: "v div 262144 = q" "v div 4096 mod 64 = r" using digit_64 [OF assms(4,5), of q] by (simp_all only: div_64 b(1) [unfolded div_64])
  have d: "q mod 8 = q" using assms(2,3) by simp
  have "\<not> (v < 0 \<or> n \<le> 0)" "\<not> v < 0x80" "\<not> v < 0x800" "\<not> v < 0x10000" "v \<le> 0x10FFFF" "\<not> n < 4"
    using assms(10-12) by linarith+
  then show ?thesis
    by (simp only: utf8_encode_def if_True if_False shifted_masks and_masks a b c d digit_64(2) [OF assms(4,5)] digit_64(2) [OF assms(6,7)] cont_byte_def)
qed

lemma utf8_roundtrip:
  assumes "0 \<le> v" "v \<le> 0x10FFFF" "\<not> (0xD800 \<le> v \<and> v \<le> 0xDFFF)" "4 \<le> n"
  shows "\<exists>bs. utf8_encode v n = Some bs \<and> utf8_decode (bs @ rest) = Read (length bs, v)"
proof -
  consider "v < 128" | "128 \<le> v" "v < 2048" | "2048 \<le> v" "v < 65536" | "65536 \<le> v" by linarith
  then show ?thesis
  proof cases
    case 1
    with assms encode_1 [of v n] show ?thesis
      by (simp add: utf8_decode_def uint_to_char getUTF8Length_def)
  next
    case 2
    obtain q r where v: "v = 64 * q + r" "0 \<le> r" "r < 64" by (rule digits_64)
    with 2 have d: "v = 64 * q + r" "2 \<le> q" "q < 32" "0 \<le> r" "r < 64" by linarith+
    with assms(4) encode_2 [OF d, of n] decode_2 [OF d(2-5)] show ?thesis by simp
  next
    case 3
    obtain a t where v: "v = 64 * a + t" "0 \<le> t" "t < 64" by (rule digits_64)
    obtain q r where a: "a = 64 * q + r" "0 \<le> r" "r < 64" by (rule digits_64)
    from v a 3 have d: "v = 4096 * q + 64 * r + t" "0 \<le> q" "q < 16" "0 \<le> r" "r < 64" "0 \<le> t" "t < 64" by linarith+
    with assms(3,4) 3 encode_3 [OF d 3(1), of n] decode_3 [OF d(2-7)] show ?thesis by (auto simp: Let_def)
  next
    case 4
    obtain a u where v: "v = 64 * a + u" "0 \<le> u" "u < 64" by (rule digits_64)
    obtain b t where a: "a = 64 * b + t" "0 \<le> t" "t < 64" by (rule digits_64)
    obtain q r where b: "b = 64 * q + r" "0 \<le> r" "r < 64" by (rule digits_64)
    from v a b 4 assms(2) have d: "v = 262144 * q + 4096 * r + 64 * t + u" "0 \<le> q" "q < 5" "0 \<le> r" "r < 64" "0 \<le> t" "t < 64"
      "0 \<le> u" "u < 64" by linarith+
    with assms 4 encode_4 [OF d 4 assms(2,4)] decode_4 [OF d(2-9)] show ?thesis by (auto simp: Let_def)
  qed
qed

lemma utf8_decode_canonical:
  assumes "utf8_decode xs = Read (k, v)" "xs \<noteq> []"
  shows "0 < k \<and> k \<le> length xs \<and> utf8_encode v 4 = Some (take k xs)"
proof -
  from assms(2) obtain b ys where xs: "xs = b # ys" by (cases xs) auto
  let ?u = "uint b"
  have b: "to_char ?u = b" "0 \<le> ?u" by (simp_all add: to_char_uint)
  from assms(1) xs have "getUTF8Length ?u \<noteq> 0" by (intro notI) (simp add: utf8_decode_def Let_def)
  then consider "?u < 128" | "0xC2 \<le> ?u" "?u \<le> 0xDF" | "0xE0 \<le> ?u" "?u \<le> 0xEF" | "0xF0 \<le> ?u" "?u \<le> 0xF4"
    by (fastforce simp: getUTF8Length_def split: if_splits)
  then show ?thesis
  proof cases
    case 1
    with assms(1) xs b show ?thesis by (auto simp: utf8_decode_def getUTF8Length_def encode_1)
  next
    case 2
    then have "getUTF8Length ?u = 2" by (simp add: getUTF8Length_def)
    with assms(1) xs obtain w where "decode_rest ys 0 (Suc 0) (?u AND 0x1F) = Read w"
      by (auto simp: utf8_decode_def eval_nat_numeral simp del: decode_rest.simps(2) dest!: accept_Read)
    then obtain r zs where r: "0 \<le> r" "r < 64" "ys = cont_byte r # zs" by (rule decode_rest_Read)
    define q where "q = ?u - 0xC0"
    with 2 b have q: "2 \<le> q" "q < 32" "b = to_char (0xC0 + q)" by simp_all
    from decode_2 [OF q(1,2) r(1,2), of zs] assms(1) encode_2 [OF refl q(1,2) r(1,2), of 4]
    show ?thesis by (auto simp: xs r(3) q(3))
  next
    case 3
    then have "getUTF8Length ?u = 3" by (simp add: getUTF8Length_def)
    with assms(1) xs obtain w where "decode_rest ys 0 (Suc (Suc 0)) (?u AND 0xF) = Read w"
      by (auto simp: utf8_decode_def eval_nat_numeral simp del: decode_rest.simps(2) dest!: accept_Read)
    then obtain r zs w1 where r: "0 \<le> r" "r < 64" "ys = cont_byte r # zs" "decode_rest zs 0 (Suc 0) w1 = Read w"
      by (rule decode_rest_Read)
    from r(4) obtain t rest where t: "0 \<le> t" "t < 64" "zs = cont_byte t # rest" by (rule decode_rest_Read)
    define q where "q = ?u - 0xE0"
    with 3 b have q: "0 \<le> q" "q < 16" "b = to_char (0xE0 + q)" by simp_all
    from decode_3 [OF q(1,2) r(1,2) t(1,2), of rest] assms(1) encode_3 [OF refl q(1,2) r(1,2) t(1,2), of 4]
    show ?thesis by (auto simp: xs r(3) q(3) t(3) Let_def split: if_splits)
  next
    case 4
    then have "getUTF8Length ?u = 4" by (simp add: getUTF8Length_def)
    with assms(1) xs obtain w where "decode_rest ys 0 (Suc (Suc (Suc 0))) (?u AND 0x7) = Read w"
      by (auto simp: utf8_decode_def eval_nat_numeral simp del: decode_rest.simps(2) dest!: accept_Read)
    then obtain r zs w1 where r: "0 \<le> r" "r < 64" "ys = cont_byte r # zs" "decode_rest zs 0 (Suc (Suc 0)) w1 = Read w"
      by (rule decode_rest_Read)
    from r(4) obtain t zs' w2 where t: "0 \<le> t" "t < 64" "zs = cont_byte t # zs'" "decode_rest zs' 0 (Suc 0) w2 = Read w"
      by (rule decode_rest_Read)
    from t(4) obtain s rest where s: "0 \<le> s" "s < 64" "zs' = cont_byte s # rest" by (rule decode_rest_Read)
    define q where "q = ?u - 0xF0"
    with 4 b have q: "0 \<le> q" "q < 5" "b = to_char (0xF0 + q)" by simp_all
    from decode_4 [OF q(1,2) r(1,2) t(1,2) s(1,2), of rest] assms(1) encode_4 [OF refl q(1,2) r(1,2) t(1,2) s(1,2), of 4]
    show ?thesis by (auto simp: xs r(3) q(3) t(3) s(3) Let_def split: if_splits)
  qed
qed

lemma decode_rest_in_string: "i \<le> length xs \<Longrightarrow> decode_rest xs i n w \<noteq> Out_of_string"
  by (induction xs i n w rule: decode_rest.induct) (auto simp: c_byte_def split: if_splits)

lemma utf8_decode_in_string: "utf8_decode xs \<noteq> Out_of_string"
proof (cases xs)
  case (Cons b ys)
  then have r: "decode_rest xs 1 n w \<noteq> Out_of_string" for n w by (intro decode_rest_in_string) simp
  then show ?thesis by (simp add: utf8_decode_def Let_def Cons del: decode_rest_Cons)
qed (simp add: utf8_decode_def getUTF8Length_def)

text \<open>The Unicode scalar values: what a well-formed encoding stands for.\<close>

definition scalar_value :: "int \<Rightarrow> bool" where
  "scalar_value v \<longleftrightarrow> 0 \<le> v \<and> v \<le> 0x10FFFF \<and> \<not> (0xD800 \<le> v \<and> v \<le> 0xDFFF)"

lemma utf8_decode_scalar:
  assumes "utf8_decode xs = Read (k, v)" "utf8_encode v 4 = Some bs"
  shows "scalar_value v"
proof -
  have "0 \<le> v" "v \<le> 0x10FFFF" using assms(2) by (auto simp: utf8_encode_def split: if_splits)
  moreover have "\<not> (0xD800 \<le> v \<and> v \<le> 0xDFFF)"
    using assms(1)
    by (cases "c_byte xs 0") (auto simp: utf8_decode_def utf8_accept_def getUTF8Length_def Let_def split: if_splits read.splits)
  ultimately show ?thesis by (simp add: scalar_value_def)
qed

text \<open>Four digits, in either case, of a number below 65536.\<close>

definition hex_char :: "bool \<Rightarrow> int \<Rightarrow> byte" where
  "hex_char upper d = to_char (if d < 10 then 0x30 + d else if upper then 0x37 + d else 0x57 + d)"

lemma hex_rest_digit:
  assumes "0 \<le> d" "d < 16"
  shows "hex_rest (hex_char u d # xs) 0 (Suc n) w = hex_rest xs 0 n (16 * w + d)"
proof -
  have "hex_rest (x # xs) (Suc i) n w = hex_rest xs i n w" for x i n w
    by (induction n arbitrary: i w) (simp_all split: option.split)
  with assms show ?thesis
    by (simp add: hex_char_def uint_to_char hex_value_def push_bit_eq_mult mult.commute)
qed

lemma hex_roundtrip:
  assumes "0 \<le> a" "a < 16" "0 \<le> b" "b < 16" "0 \<le> c" "c < 16" "0 \<le> d" "d < 16"
  shows "hex_decode (hex_char u1 a # hex_char u2 b # hex_char u3 c # hex_char u4 d # rest)
     = Read (4096 * a + 256 * b + 16 * c + d)"
  using assms by (simp add: hex_decode_def eval_nat_numeral hex_rest_digit del: hex_rest.simps(2))

section \<open>Properties\<close>

text \<open>
  C37: The decoder is the inverse of the encoder and accepts nothing else: on a string that is not empty it
  gives a count and a value if and only if the string starts with the bytes the encoder writes for
  that value, the count is their number, and the value is a Unicode scalar value. So overlong
  forms, surrogates and truncated sequences are rejected, and it never reads behind the
  terminator.
\<close>

theorem utf8_decode_inverts_encode:
  assumes "xs \<noteq> []"
  shows "(utf8_decode xs = Read (k, v) \<longleftrightarrow>
            scalar_value v \<and> (\<exists>bs rest. utf8_encode v 4 = Some bs \<and> length bs = k \<and> xs = bs @ rest))
     \<and> utf8_decode xs \<noteq> Out_of_string"
proof -
  have "scalar_value v \<and> (\<exists>bs rest. utf8_encode v 4 = Some bs \<and> length bs = k \<and> xs = bs @ rest)"
    if d: "utf8_decode xs = Read (k, v)"
  proof -
    note c = utf8_decode_canonical [OF d assms]
    have "scalar_value v" by (rule utf8_decode_scalar [OF d]) (use c in blast)
    moreover have "length (take k xs) = k" "xs = take k xs @ drop k xs" using c by simp_all
    ultimately show ?thesis using c by blast
  qed
  moreover have "utf8_decode xs = Read (k, v)"
    if "scalar_value v" "utf8_encode v 4 = Some bs" "length bs = k" "xs = bs @ rest" for bs rest
    using utf8_roundtrip [of v 4 rest] that by (auto simp: scalar_value_def)
  ultimately show ?thesis using utf8_decode_in_string by blast
qed

theorem utf8_decode_inverts_encode_witness:
  "utf8_decode [to_char 0xE2, to_char 0x82, to_char 0xAC, to_char 0x41] = Read (3, 0x20AC)"
proof -
  have "utf8_encode 0x20AC 4 = Some [to_char 0xE2, to_char 0x82, to_char 0xAC]" by code_simp
  with utf8_decode_inverts_encode [of "[to_char 0xE2, to_char 0x82, to_char 0xAC, to_char 0x41]" 3 "0x20AC"]
  show ?thesis by (simp add: scalar_value_def)
qed

text \<open>
  The escape of a surrogate is encoded like any other number: the three bytes are no UTF-8, and the
  decoder does not take them back.
\<close>

lemma surrogate_not_decoded:
  "hex_decode (map to_char [0x44, 0x38, 0x33, 0x44]) = Read 0xD83D"
  "utf8_encode 0xD83D 4 = Some [to_char 0xED, to_char 0xA0, to_char 0xBD]"
  "utf8_decode [to_char 0xED, to_char 0xA0, to_char 0xBD] = Rejected"
  by code_simp+

end
