(* ===== verification/Saf_Serializer.thy ===== *)
theory Saf_Serializer
  imports "HOL-Library.Word"
begin

text \<open>
  The serializer of the JSON part of the Google Drive library (jconer/serializer.hpp): C++ values
  are written into nested JSON arrays and read back by position. The overloads of append and the
  getters are code of the library; what they are relied on for is \<open>jconer_ok\<close>.
\<close>

section \<open>JSON values\<close>

datatype (dead 'r) jvalue =
    VT_OBJECT "(string \<times> 'r jvalue) list"
  | VT_ARRAY "'r jvalue list"
  | VT_INTEGER "64 word"
  | VT_STRING string
  | VT_REAL 'r
  | VT_TRUE
  | VT_FALSE
  | VT_NULL

definition isTrue :: "'r jvalue \<Rightarrow> bool" where
  "isTrue v = (case v of VT_TRUE \<Rightarrow> True | _ \<Rightarrow> False)"

definition jv_isArray :: "'r jvalue \<Rightarrow> bool" where
  "jv_isArray v = (case v of VT_ARRAY xs \<Rightarrow> True | _ \<Rightarrow> False)"

definition jv_isString :: "'r jvalue \<Rightarrow> bool" where
  "jv_isString v = (case v of VT_STRING s \<Rightarrow> True | _ \<Rightarrow> False)"

definition jv_isInteger :: "'r jvalue \<Rightarrow> bool" where
  "jv_isInteger v = (case v of VT_INTEGER n \<Rightarrow> True | _ \<Rightarrow> False)"

definition jv_isReal :: "'r jvalue \<Rightarrow> bool" where
  "jv_isReal v = (case v of VT_REAL r \<Rightarrow> True | _ \<Rightarrow> False)"

definition jv_isFalse :: "'r jvalue \<Rightarrow> bool" where
  "jv_isFalse v = (case v of VT_FALSE \<Rightarrow> True | _ \<Rightarrow> False)"

definition jv_isNull :: "'r jvalue \<Rightarrow> bool" where
  "jv_isNull v = (case v of VT_NULL \<Rightarrow> True | _ \<Rightarrow> False)"

definition jv_isObject :: "'r jvalue \<Rightarrow> bool" where
  "jv_isObject v = (case v of VT_OBJECT es \<Rightarrow> True | _ \<Rightarrow> False)"

text \<open>A value is of exactly one type.\<close>

lemma one_type:
  "length (filter (\<lambda>p. p v) [jv_isString, jv_isInteger, jv_isReal, isTrue, jv_isFalse, jv_isNull, jv_isObject, jv_isArray]) = 1"
  by (cases v) (simp_all add: jv_isString_def jv_isInteger_def jv_isReal_def isTrue_def jv_isFalse_def jv_isNull_def jv_isObject_def
      jv_isArray_def)

definition JTrue_getValue :: bool where
  "JTrue_getValue = True"

definition JFalse_getValue :: bool where
  "JFalse_getValue = True"

definition JObject_get :: "(string \<times> 'r jvalue) list \<Rightarrow> string \<Rightarrow> 'r jvalue option" where
  "JObject_get es key = (case find (\<lambda>e. fst e = key) es of Some e \<Rightarrow> Some (snd e) | None \<Rightarrow> None)"

text \<open>The value of the false object is true. JObject::get is the look-up of the map.\<close>

lemma JFalse_is_true: "JFalse_getValue = JTrue_getValue"
  by (simp add: JTrue_getValue_def JFalse_getValue_def)

lemma JObject_get_map: "JObject_get es key = map_of es key"
  by (induction es) (auto simp: JObject_get_def)

text \<open>What the overloads of append add, and the getters give, are code of the library.\<close>

record 'r jconer =
  append_int :: "32 word \<Rightarrow> 'r jvalue"
  append_long :: "64 word \<Rightarrow> 'r jvalue"
  append_string :: "string \<Rightarrow> 'r jvalue"
  append_bool :: "bool \<Rightarrow> 'r jvalue"
  append_double :: "'r \<Rightarrow> 'r jvalue"
  getInteger :: "'r jvalue \<Rightarrow> 64 word"
  getString :: "'r jvalue \<Rightarrow> string"
  getReal :: "'r jvalue \<Rightarrow> 'r"

definition jconer_ok :: "'r jconer \<Rightarrow> bool" where
  "jconer_ok lib \<longleftrightarrow>
     (\<forall>i. getInteger lib (append_int lib i) = scast i) \<and> (\<forall>l. getInteger lib (append_long lib l) = l)
     \<and> (\<forall>s. getString lib (append_string lib s) = s) \<and> (\<forall>b. isTrue (append_bool lib b) = b)
     \<and> (\<forall>d. getReal lib (append_double lib d) = d)"

text \<open>JArray::get is a null pointer beyond the end.\<close>

definition array_get :: "'r jvalue list \<Rightarrow> nat \<Rightarrow> 'r jvalue option" where
  "array_get xs i = (if i < length xs then Some (xs ! i) else None)"

section \<open>What is serialized\<close>

text \<open>
  A C++ value by its shape: a container is the list of its elements, a std::map the list of its
  entries in the order of its keys, an object the members its serialize() lists.
\<close>

datatype (dead 'r) cvalue =
    Integer "32 word"
  | Long "64 word"
  | Str string
  | Bool bool
  | Double 'r
  | Container "'r cvalue list"
  | Std_pair "'r cvalue" "'r cvalue"
  | Std_map "('r cvalue \<times> 'r cvalue) list"
  | Object "'r cvalue list"

datatype ctype =
    int_type | long_type | string_type | bool_type | double_type
  | Container_of ctype
  | Pair_of ctype ctype
  | Map_of ctype ctype
  | Object_of "ctype list"

text \<open>map::insert keeps an entry with the same key.\<close>

fun map_insert :: "('k \<Rightarrow> 'k \<Rightarrow> bool) \<Rightarrow> 'k \<times> 'v \<Rightarrow> ('k \<times> 'v) list \<Rightarrow> ('k \<times> 'v) list" where
  "map_insert before e [] = [e]"
| "map_insert before e (x # xs) =
     (if before (fst e) (fst x) then e # x # xs
      else if before (fst x) (fst e) then x # map_insert before e xs else x # xs)"

text \<open>The values of a type; the entries of a map are in the order of its keys.\<close>

primrec has_type :: "('r cvalue \<Rightarrow> 'r cvalue \<Rightarrow> bool) \<Rightarrow> ctype \<Rightarrow> 'r cvalue \<Rightarrow> bool" where
  "has_type before int_type v = (\<exists>i. v = Integer i)"
| "has_type before long_type v = (\<exists>l. v = Long l)"
| "has_type before string_type v = (\<exists>s. v = Str s)"
| "has_type before bool_type v = (\<exists>b. v = Bool b)"
| "has_type before double_type v = (\<exists>d. v = Double d)"
| "has_type before (Container_of t) v = (\<exists>vs. v = Container vs \<and> list_all (has_type before t) vs)"
| "has_type before (Pair_of t u) v = (\<exists>a b. v = Std_pair a b \<and> has_type before t a \<and> has_type before u b)"
| "has_type before (Map_of t u) v =
     (\<exists>es. v = Std_map es \<and> list_all (\<lambda>e. has_type before t (fst e) \<and> has_type before u (snd e)) es
         \<and> sorted_wrt (\<lambda>x y. before (fst x) (fst y) \<and> \<not> before (fst y) (fst x)) es)"
| "has_type before (Object_of ts) v = (\<exists>vs. v = Object vs \<and> list_all2 (\<lambda>p w. p w) (map (has_type before) ts) vs)"

section \<open>OutSerializer\<close>

text \<open>
  The operator appends to the array \<open>_curr\<close>; a composite value appends an array of its own,
  fills it as \<open>_curr\<close>, and returns to the old one.
\<close>

primrec out_val :: "'r jconer \<Rightarrow> 'r cvalue \<Rightarrow> 'r jvalue list \<Rightarrow> 'r jvalue list" where
  "out_val lib (Integer i) arr = arr @ [append_int lib i]"
| "out_val lib (Long l) arr = arr @ [append_long lib l]"
| "out_val lib (Str s) arr = arr @ [append_string lib s]"
| "out_val lib (Bool b) arr = arr @ [append_bool lib b]"
| "out_val lib (Double d) arr = arr @ [append_double lib d]"
| "out_val lib (Container vs) arr = arr @ [VT_ARRAY (foldl (\<lambda>a f. f a) [] (map (out_val lib) vs))]"
| "out_val lib (Std_pair a b) arr = arr @ [VT_ARRAY (out_val lib b (out_val lib a []))]"
| "out_val lib (Std_map es) arr =
     arr @ [VT_ARRAY (foldl (\<lambda>a e. a @ [VT_ARRAY (snd e (fst e []))]) [] (map (map_prod (out_val lib) (out_val lib)) es))]"
| "out_val lib (Object vs) arr = arr @ [VT_ARRAY (foldl (\<lambda>a f. f a) [] (map (out_val lib) vs))]"

section \<open>InSerializer\<close>

text \<open>
  The state is the array \<open>_curr\<close> and \<open>_index\<close>. An element beyond the end throws; an element that is
  taken for an array and is none is a cast to the wrong class.
\<close>

datatype in_error = SerializeFailException | Wrong_class

type_synonym 'a reader = "nat \<Rightarrow> in_error + 'a \<times> nat"

text \<open>Reading a number of elements, and the members of an object one after the other.\<close>

primrec read_times :: "nat \<Rightarrow> 'a reader \<Rightarrow> 'a list reader" where
  "read_times 0 f i = Inr ([], i)"
| "read_times (Suc n) f i =
     (case f i of
        Inl e \<Rightarrow> Inl e
      | Inr (x, i1) \<Rightarrow> (case read_times n f i1 of Inl e \<Rightarrow> Inl e | Inr (xs, i2) \<Rightarrow> Inr (x # xs, i2)))"

primrec read_each :: "'a reader list \<Rightarrow> 'a list reader" where
  "read_each [] i = Inr ([], i)"
| "read_each (f # fs) i =
     (case f i of
        Inl e \<Rightarrow> Inl e
      | Inr (x, i1) \<Rightarrow> (case read_each fs i1 of Inl e \<Rightarrow> Inl e | Inr (xs, i2) \<Rightarrow> Inr (x # xs, i2)))"

text \<open>Entering the array at the index, and coming back to the element after it.\<close>

definition read_inside :: "'r jvalue list \<Rightarrow> ('r jvalue list \<Rightarrow> 'a reader) \<Rightarrow> 'a reader" where
  "read_inside arr body i =
     (case array_get arr i of
        None \<Rightarrow> Inl SerializeFailException
      | Some (VT_ARRAY xs) \<Rightarrow> (case body xs 0 of Inl e \<Rightarrow> Inl e | Inr (x, j) \<Rightarrow> Inr (x, Suc i))
      | Some v \<Rightarrow> Inl Wrong_class)"

text \<open>An overload for a plain value, and for a std::pair.\<close>

definition read_leaf :: "'r jvalue list \<Rightarrow> ('r jvalue \<Rightarrow> 'a) \<Rightarrow> 'a reader" where
  "read_leaf arr get i = (case array_get arr i of None \<Rightarrow> Inl SerializeFailException | Some v \<Rightarrow> Inr (get v, Suc i))"

definition map_reader :: "('a \<Rightarrow> 'b) \<Rightarrow> 'a reader \<Rightarrow> 'b reader" where
  "map_reader g f i = (case f i of Inl e \<Rightarrow> Inl e | Inr (x, j) \<Rightarrow> Inr (g x, j))"

definition pair_reader :: "('r jvalue list \<Rightarrow> 'a reader) \<Rightarrow> ('r jvalue list \<Rightarrow> 'b reader) \<Rightarrow> 'r jvalue list \<Rightarrow> ('a \<times> 'b) reader" where
  "pair_reader f g arr =
     read_inside arr (\<lambda>xs i. case f xs i of
        Inl e \<Rightarrow> Inl e
      | Inr (a, j) \<Rightarrow> (case g xs j of Inl e \<Rightarrow> Inl e | Inr (b, k) \<Rightarrow> Inr ((a, b), k)))"

primrec in_val :: "'r jconer \<Rightarrow> ('r cvalue \<Rightarrow> 'r cvalue \<Rightarrow> bool) \<Rightarrow> ctype \<Rightarrow> 'r jvalue list \<Rightarrow> 'r cvalue reader" where
  "in_val lib before int_type arr = read_leaf arr (\<lambda>v. Integer (ucast (getInteger lib v)))"
| "in_val lib before long_type arr = read_leaf arr (\<lambda>v. Long (getInteger lib v))"
| "in_val lib before string_type arr = read_leaf arr (\<lambda>v. Str (getString lib v))"
| "in_val lib before bool_type arr = read_leaf arr (\<lambda>v. Bool (isTrue v))"
| "in_val lib before double_type arr = read_leaf arr (\<lambda>v. Double (getReal lib v))"
| "in_val lib before (Container_of t) arr =
     map_reader Container (read_inside arr (\<lambda>xs. read_times (length xs) (in_val lib before t xs)))"
| "in_val lib before (Pair_of t u) arr =
     map_reader (\<lambda>(a, b). Std_pair a b) (pair_reader (in_val lib before t) (in_val lib before u) arr)"
| "in_val lib before (Map_of t u) arr =
     map_reader (\<lambda>es. Std_map (fold (map_insert before) es []))
       (read_inside arr (\<lambda>xs. read_times (length xs) (pair_reader (in_val lib before t) (in_val lib before u) xs)))"
| "in_val lib before (Object_of ts) arr =
     map_reader Object (read_inside arr (\<lambda>xs. read_each (map (\<lambda>f. f xs) (map (in_val lib before) ts))))"


section \<open>Facts\<close>

text \<open>The one element a value becomes.\<close>

definition item_of :: "'r jconer \<Rightarrow> 'r cvalue \<Rightarrow> 'r jvalue" where
  "item_of lib v = hd (out_val lib v [])"

lemma out_item: "out_val lib v arr = arr @ [item_of lib v]"
  by (cases v) (simp_all add: item_of_def)

lemma out_all: "foldl (\<lambda>a f. f a) arr (map (out_val lib) vs) = arr @ map (item_of lib) vs"
  by (induction vs arbitrary: arr) (simp_all add: out_item)

lemma out_pairs:
  "foldl (\<lambda>a e. a @ [VT_ARRAY (snd e (fst e []))]) arr (map (map_prod (out_val lib) (out_val lib)) es)
     = arr @ map (\<lambda>e. VT_ARRAY [item_of lib (fst e), item_of lib (snd e)]) es"
  by (induction es arbitrary: arr) (simp_all add: out_item)

lemma item_of_simps [simp]:
  "item_of lib (Integer i) = append_int lib i" "item_of lib (Long l) = append_long lib l" "item_of lib (Str s) = append_string lib s"
  "item_of lib (Bool b) = append_bool lib b" "item_of lib (Double d) = append_double lib d"
  by (simp_all add: item_of_def)

lemma item_of_composite [simp]:
  "item_of lib (Container vs) = VT_ARRAY (map (item_of lib) vs)" "item_of lib (Std_pair v w) = VT_ARRAY [item_of lib v, item_of lib w]"
  "item_of lib (Std_map es) = VT_ARRAY (map (\<lambda>e. VT_ARRAY [item_of lib (fst e), item_of lib (snd e)]) es)"
  "item_of lib (Object vs) = VT_ARRAY (map (item_of lib) vs)"
  unfolding item_of_def [of lib "Container vs"] item_of_def [of lib "Std_pair v w"] item_of_def [of lib "Std_map es"]
    item_of_def [of lib "Object vs"] out_val.simps out_all out_pairs
  unfolding out_item by simp_all

lemma array_get_nth: "i < length xs \<Longrightarrow> array_get xs i = Some (xs ! i)"
  by (simp add: array_get_def)

text \<open>Readers that find the values they should, one after the other.\<close>

lemma read_times_items:
  "(\<And>k. k < length vs \<Longrightarrow> f (i + k) = Inr (vs ! k, Suc (i + k))) \<Longrightarrow>
   read_times (length vs) f i = Inr (vs, i + length vs)"
proof (induction vs arbitrary: i)
  case (Cons v vs)
  from Cons.prems [of 0] have "f i = Inr (v, Suc i)" by simp
  moreover have "read_times (length vs) f (Suc i) = Inr (vs, Suc i + length vs)"
    by (rule Cons.IH) (use Cons.prems [of "Suc _"] in simp)
  ultimately show ?case by simp
qed simp

lemma read_each_items:
  "length fs = length vs \<Longrightarrow> (\<And>k. k < length vs \<Longrightarrow> (fs ! k) (i + k) = Inr (vs ! k, Suc (i + k))) \<Longrightarrow>
   read_each fs i = Inr (vs, i + length vs)"
proof (induction vs arbitrary: fs i)
  case (Cons v vs)
  then obtain f fs' where fs: "fs = f # fs'" by (cases fs) auto
  from Cons.prems(2) [of 0] have "f i = Inr (v, Suc i)" by (simp add: fs)
  moreover have "read_each fs' (Suc i) = Inr (vs, Suc i + length vs)"
    by (rule Cons.IH) (use Cons.prems(1) Cons.prems(2) [of "Suc _"] in \<open>simp_all add: fs\<close>)
  ultimately show ?case by (simp add: fs)
qed simp

lemma insert_sorted:
  "sorted_wrt (\<lambda>x y. before (fst x) (fst y) \<and> \<not> before (fst y) (fst x)) (xs @ [e]) \<Longrightarrow>
   map_insert before e xs = xs @ [e]"
  by (induction xs) (auto simp: sorted_wrt_append)

lemma fold_insert_sorted:
  "sorted_wrt (\<lambda>x y. before (fst x) (fst y) \<and> \<not> before (fst y) (fst x)) (xs @ es) \<Longrightarrow>
   fold (map_insert before) es xs = xs @ es"
proof (induction es arbitrary: xs)
  case (Cons e es)
  then have "sorted_wrt (\<lambda>x y. before (fst x) (fst y) \<and> \<not> before (fst y) (fst x)) (xs @ [e])"
    by (simp add: sorted_wrt_append)
  with Cons.IH [of "xs @ [e]"] Cons.prems show ?case by (simp add: insert_sorted)
qed simp

lemma ucast_scast [simp]: "ucast (scast (i :: 32 word) :: 64 word) = i"
proof (rule bit_word_eqI)
  fix n assume "n < LENGTH(32)"
  then consider "n = 31" | "n < 31" by fastforce
  then show "bit (ucast (scast i :: 64 word) :: 32 word) n \<longleftrightarrow> bit i n"
    by cases (simp_all add: bit_unsigned_iff bit_signed_iff)
qed

lemma jconer_okD:
  assumes "jconer_ok lib"
  shows "getInteger lib (append_int lib i) = scast i" "getInteger lib (append_long lib l) = l"
    "getString lib (append_string lib s) = s" "isTrue (append_bool lib b) = b" "getReal lib (append_double lib d) = d"
  using assms by (simp_all add: jconer_ok_def)

lemma in_out:
  assumes "jconer_ok lib"
  shows "has_type before t v \<Longrightarrow> array_get arr i = Some (item_of lib v) \<Longrightarrow> in_val lib before t arr i = Inr (v, Suc i)"
proof (induction t arbitrary: v arr i)
  case (Container_of t)
  then obtain vs where v: "v = Container vs" "list_all (has_type before t) vs" by auto
  have "read_times (length vs) (in_val lib before t (map (item_of lib) vs)) 0 = Inr (vs, 0 + length vs)"
    by (rule read_times_items) (use v(2) in \<open>simp add: Container_of.IH array_get_nth list_all_length\<close>)
  with Container_of.prems(2) v(1) show ?case by (simp add: map_reader_def read_inside_def)
next
  case (Pair_of t u)
  then obtain a b where v: "v = Std_pair a b" "has_type before t a" "has_type before u b" by auto
  with Pair_of.prems(2) Pair_of.IH(1) [of a "[item_of lib a, item_of lib b]" 0] Pair_of.IH(2) [of b "[item_of lib a, item_of lib b]" 1]
  show ?case by (simp add: map_reader_def pair_reader_def read_inside_def array_get_def)
next
  case (Map_of t u)
  let ?p = "\<lambda>e. VT_ARRAY [item_of lib (fst e), item_of lib (snd e)]"
  from Map_of.prems(1) obtain es where v: "v = Std_map es" "list_all (\<lambda>e. has_type before t (fst e) \<and> has_type before u (snd e)) es"
    "sorted_wrt (\<lambda>x y. before (fst x) (fst y) \<and> \<not> before (fst y) (fst x)) es" by auto
  have "pair_reader (in_val lib before t) (in_val lib before u) (map ?p es) k = Inr (es ! k, Suc k)" if "k < length es" for k
    using that v(2) Map_of.IH(1) [of "fst (es ! k)" "[item_of lib (fst (es ! k)), item_of lib (snd (es ! k))]" 0]
      Map_of.IH(2) [of "snd (es ! k)" "[item_of lib (fst (es ! k)), item_of lib (snd (es ! k))]" 1]
    by (simp add: pair_reader_def read_inside_def array_get_def list_all_length)
  then have "read_times (length es) (pair_reader (in_val lib before t) (in_val lib before u) (map ?p es)) 0 = Inr (es, 0 + length es)"
    by (intro read_times_items) simp
  with Map_of.prems(2) v(1) fold_insert_sorted [of before "[]" es] v(3) show ?case by (simp add: map_reader_def read_inside_def)
next
  case (Object_of ts)
  then obtain vs where v: "v = Object vs" "list_all2 (\<lambda>p w. p w) (map (has_type before) ts) vs" by auto
  have "read_each (map (\<lambda>f. f (map (item_of lib) vs)) (map (in_val lib before) ts)) 0 = Inr (vs, 0 + length vs)"
    by (rule read_each_items) (use v(2) in \<open>simp_all add: Object_of.IH array_get_nth list_all2_conv_all_nth\<close>)
  with Object_of.prems(2) v(1) show ?case by (simp add: map_reader_def read_inside_def)
qed (auto simp: read_leaf_def jconer_okD [OF assms])


section \<open>Properties\<close>

text \<open>The content after a sequence of values was written, as getContent gives it.\<close>

definition written_values :: "'r jconer \<Rightarrow> 'r cvalue list \<Rightarrow> 'r jvalue list" where
  "written_values lib vs = foldl (\<lambda>a f. f a) [] (map (out_val lib) vs)"

text \<open>
  C36: What was written is read back: values of any shape (numbers at their width, strings, booleans,
  containers, pairs, maps and objects, nested) that are written one after the other and read in
  the same order with their types come back as they were, nothing is thrown, and one read
  more throws SerializeFailException.
\<close>

theorem serializer_roundtrip:
  assumes "jconer_ok lib" "list_all2 (has_type before) ts vs"
  shows "read_each (map (\<lambda>t. in_val lib before t (written_values lib vs)) ts) 0 = Inr (vs, length vs)
     \<and> in_val lib before t (written_values lib vs) (length vs) = Inl SerializeFailException"
proof
  have w: "written_values lib vs = map (item_of lib) vs" by (simp add: written_values_def out_all)
  have "read_each (map (\<lambda>t. in_val lib before t (map (item_of lib) vs)) ts) 0 = Inr (vs, 0 + length vs)"
    by (rule read_each_items)
      (use assms(2) in \<open>simp_all add: list_all2_conv_all_nth array_get_nth in_out [OF assms(1)]\<close>)
  then show "read_each (map (\<lambda>t. in_val lib before t (written_values lib vs)) ts) 0 = Inr (vs, length vs)" by (simp add: w)
  show "in_val lib before t (written_values lib vs) (length vs) = Inl SerializeFailException"
    by (cases t) (simp_all add: w read_leaf_def map_reader_def pair_reader_def read_inside_def array_get_def)
qed

text \<open>A library whose append and getters are the ones the class declarations suggest.\<close>

definition plain_jconer :: "int jconer" where
  "plain_jconer = \<lparr>append_int = (\<lambda>i. VT_INTEGER (scast i)), append_long = VT_INTEGER, append_string = VT_STRING,
     append_bool = (\<lambda>b. if b then VT_TRUE else VT_FALSE), append_double = VT_REAL,
     getInteger = (\<lambda>v. case v of VT_INTEGER l \<Rightarrow> l | _ \<Rightarrow> 0), getString = (\<lambda>v. case v of VT_STRING s \<Rightarrow> s | _ \<Rightarrow> []),
     getReal = (\<lambda>v. case v of VT_REAL d \<Rightarrow> d | _ \<Rightarrow> 0)\<rparr>"

lemma plain_jconer_ok: "jconer_ok plain_jconer"
  by (simp add: jconer_ok_def plain_jconer_def isTrue_def)

text \<open>Keys that are integers, in their order.\<close>

definition int_before :: "'r cvalue \<Rightarrow> 'r cvalue \<Rightarrow> bool" where
  "int_before v w = (case (v, w) of (Integer i, Integer j) \<Rightarrow> sint i < sint j | _ \<Rightarrow> False)"

definition sample_types :: "ctype list" where
  "sample_types = [Map_of int_type (Container_of string_type), Object_of [bool_type, Pair_of long_type int_type]]"

definition sample_values :: "int cvalue list" where
  "sample_values =
     [Std_map [(Integer 1, Container [Str ''a'']), (Integer 2, Container [])],
      Object [Bool True, Std_pair (Long 3) (Integer (- 1))]]"

theorem serializer_roundtrip_witness:
  "read_each (map (\<lambda>t. in_val plain_jconer int_before t (written_values plain_jconer sample_values)) sample_types) 0
     = Inr (sample_values, 2)"
proof -
  have "list_all2 (has_type int_before) sample_types sample_values"
    by (simp add: sample_types_def sample_values_def int_before_def) blast
  from serializer_roundtrip [OF plain_jconer_ok this, of bool_type] show ?thesis
    by (simp add: sample_values_def [THEN arg_cong, of length])
qed

text \<open>
  An element of another class is not checked for: it is taken for an array.
\<close>

lemma wrong_class_read:
  "in_val plain_jconer int_before (Container_of int_type) [VT_STRING ''a''] 0 = Inl Wrong_class"
  by (simp add: map_reader_def read_inside_def array_get_def)

end
