(* ===== verification/Saf_Queue.thy ===== *)
theory Saf_Queue
  imports Saf_Prelude "HOL-Library.Multiset"
begin

text \<open>
  The bounded queue and the thread pool of the Google Drive library (common/queue.hpp,
  common/threadpool.hpp). What is done between lock and unlock is one step; a wait is left by a
  notify, which wakes one of those that wait, or by a spurious wake-up of the condition variable.
\<close>

section \<open>The queue\<close>

text \<open>
  The deque and the capacity, 0 for none; the items of producers that wait in push and of those
  that were woken, and the consumers that wait in pop and were woken. \<open>entered\<close> and \<open>taken\<close> keep the
  history of the deque.
\<close>

record 'a queue =
  queued :: "'a list"
  queue_size :: nat
  full_waiting :: "'a list"
  full_woken :: "'a list"
  empty_waiting :: nat
  empty_woken :: nat
  entered :: "'a list"
  taken :: "'a list"

definition queue_init :: "nat \<Rightarrow> 'a queue" where
  "queue_init n = \<lparr>queued = [], queue_size = n, full_waiting = [], full_woken = [], empty_waiting = 0, empty_woken = 0,
     entered = [], taken = []\<rparr>"

definition queue_enter :: "'a \<Rightarrow> 'a queue \<Rightarrow> 'a queue" where
  "queue_enter x q = q\<lparr>queued := queued q @ [x], entered := entered q @ [x]\<rparr>"

text \<open>Condition::notify of the two conditions; the first argument picks who is woken.\<close>

definition notify_full :: "nat \<Rightarrow> 'a queue \<Rightarrow> 'a queue" where
  "notify_full w q =
     (if w < length (full_waiting q)
      then q\<lparr>full_waiting := take w (full_waiting q) @ drop (Suc w) (full_waiting q),
             full_woken := full_woken q @ [full_waiting q ! w]\<rparr>
      else q)"

definition notify_empty :: "'a queue \<Rightarrow> 'a queue" where
  "notify_empty q =
     (if 0 < empty_waiting q then q\<lparr>empty_waiting := empty_waiting q - 1, empty_woken := empty_woken q + 1\<rparr> else q)"

definition queue_push :: "'a \<Rightarrow> 'a queue \<Rightarrow> 'a queue" where
  "queue_push x q =
     (if queue_size q \<noteq> 0 \<and> length (queued q) = queue_size q then q\<lparr>full_waiting := full_waiting q @ [x]\<rparr>
      else notify_empty (queue_enter x q))"

text \<open>A producer that was woken goes on behind its wait: it does not look at the size again.\<close>

definition queue_push_woken :: "nat \<Rightarrow> 'a queue \<Rightarrow> 'a queue" where
  "queue_push_woken i q =
     (if i < length (full_woken q)
      then queue_enter (full_woken q ! i) (q\<lparr>full_woken := take i (full_woken q) @ drop (Suc i) (full_woken q)\<rparr>)
      else q)"

text \<open>The comparisons with \<open>_size - 1\<close> are on size_t: without a capacity they never hold.\<close>

definition below_full :: "'a queue \<Rightarrow> nat" where
  "below_full q = (if queue_size q = 0 then 2 ^ 64 - 1 else queue_size q - 1)"

definition queue_leave :: "'a queue \<Rightarrow> 'a queue" where
  "queue_leave q = q\<lparr>queued := tl (queued q), taken := taken q @ [hd (queued q)]\<rparr>"

definition queue_try_pop :: "nat \<Rightarrow> 'a queue \<Rightarrow> 'a option \<times> 'a queue" where
  "queue_try_pop w q =
     (if queued q = [] then (None, q)
      else (Some (hd (queued q)),
            (if length (queued q) = below_full q then notify_full w (queue_leave q) else queue_leave q)))"

text \<open>pop, from its call or from its wait: None is a consumer that waits.\<close>

definition queue_pop :: "nat \<Rightarrow> 'a queue \<Rightarrow> 'a option \<times> 'a queue" where
  "queue_pop w q =
     (if queued q = [] then (None, q\<lparr>empty_waiting := empty_waiting q + 1\<rparr>)
      else (let q1 = queue_leave q
            in (Some (hd (queued q)), if length (queued q1) = below_full q1 then notify_full w q1 else q1)))"

definition queue_pop_woken :: "nat \<Rightarrow> 'a queue \<Rightarrow> 'a option \<times> 'a queue" where
  "queue_pop_woken w q = (if 0 < empty_woken q then queue_pop w (q\<lparr>empty_woken := empty_woken q - 1\<rparr>) else (None, q))"

definition queue_clear :: "'a queue \<Rightarrow> 'a queue" where
  "queue_clear q = q\<lparr>queued := []\<rparr>"

inductive queue_step :: "'a queue \<Rightarrow> 'a queue \<Rightarrow> bool" where
  push: "queue_step q (queue_push x q)"
| resume: "queue_step q (queue_push_woken i q)"
| try_pop: "queue_step q (snd (queue_try_pop w q))"
| pop: "queue_step q (snd (queue_pop w q))"
| pop_resume: "queue_step q (snd (queue_pop_woken w q))"
| spurious_full: "queue_step q (notify_full w q)"
| spurious_empty: "queue_step q (notify_empty q)"

text \<open>Steps in which no producer calls push and no wake-up is spurious.\<close>

inductive quiet_step :: "'a queue \<Rightarrow> 'a queue \<Rightarrow> bool" where
  resume: "quiet_step q (queue_push_woken i q)"
| try_pop: "quiet_step q (snd (queue_try_pop w q))"

section \<open>The thread pool\<close>

datatype 'j worker = Checking | Popping | Running 'j | Gone

text \<open>\<open>shutdown\<close> is -1, TP_IMMEDIATE_SHUTDOWN or TP_POSTPONED_SHUTDOWN; the last three keep the history.\<close>

record 'j pool =
  task_queue :: "'j queue"
  workers :: "'j worker list"
  shutdown :: int
  destroying :: bool
  pool_stop :: bool
  jobs_added :: "'j list"
  jobs_finished :: "'j list"
  jobs_dropped :: "'j list"

definition TP_IMMEDIATE_SHUTDOWN :: int where
  "TP_IMMEDIATE_SHUTDOWN = 0"

definition TP_POSTPONED_SHUTDOWN :: int where
  "TP_POSTPONED_SHUTDOWN = 1"

text \<open>destroy up to its joins, and behind them: the jobs left in the queue are forgotten.\<close>

definition destroy_begin :: "int \<Rightarrow> 'j pool \<Rightarrow> 'j pool" where
  "destroy_begin how p =
     p\<lparr>shutdown := (if how \<noteq> TP_IMMEDIATE_SHUTDOWN \<and> how \<noteq> TP_POSTPONED_SHUTDOWN then TP_IMMEDIATE_SHUTDOWN else how),
       destroying := True\<rparr>"

definition destroy_end :: "'j pool \<Rightarrow> 'j pool option" where
  "destroy_end p =
     (if destroying p \<and> \<not> pool_stop p \<and> (\<forall>w \<in> set (workers p). w = Gone)
      then Some (p\<lparr>task_queue := queue_clear (task_queue p), jobs_dropped := jobs_dropped p @ queued (task_queue p), pool_stop := True\<rparr>)
      else None)"

text \<open>The constructor, when the system gives \<open>created\<close> of the threads it asks for.\<close>

definition pool_init :: "nat \<Rightarrow> nat \<Rightarrow> nat \<Rightarrow> 'j pool" where
  "pool_init pool_size created queued_max =
     (let p = \<lparr>task_queue = queue_init queued_max, workers = replicate (min created pool_size) Checking, shutdown = -1,
               destroying = False, pool_stop = False, jobs_added = [], jobs_finished = [], jobs_dropped = []\<rparr>
      in if created < pool_size then destroy_begin TP_IMMEDIATE_SHUTDOWN p else p)"

definition pool_add :: "'j \<Rightarrow> 'j pool \<Rightarrow> 'j pool" where
  "pool_add j p = p\<lparr>task_queue := queue_push j (task_queue p), jobs_added := jobs_added p @ [j]\<rparr>"

definition pool_add_woken :: "nat \<Rightarrow> 'j pool \<Rightarrow> 'j pool" where
  "pool_add_woken i p = p\<lparr>task_queue := queue_push_woken i (task_queue p)\<rparr>"

text \<open>One part of the loop of \<open>_run_thread\<close>: the checks, the try_pop with the sleep, the job.\<close>

definition worker_step :: "nat \<Rightarrow> nat \<Rightarrow> 'j pool \<Rightarrow> 'j pool option" where
  "worker_step i w p =
     (if i < length (workers p)
      then (case workers p ! i of
              Checking \<Rightarrow>
                Some (p\<lparr>workers := (workers p)[i :=
                  (if shutdown p = TP_IMMEDIATE_SHUTDOWN then Gone
                   else if shutdown p = TP_POSTPONED_SHUTDOWN \<and> queued (task_queue p) = [] then Gone else Popping)]\<rparr>)
            | Popping \<Rightarrow>
                (case queue_try_pop w (task_queue p) of
                   (None, q) \<Rightarrow> Some (p\<lparr>workers := (workers p)[i := Checking]\<rparr>)
                 | (Some j, q) \<Rightarrow> Some (p\<lparr>task_queue := q, workers := (workers p)[i := Running j]\<rparr>))
            | Running j \<Rightarrow> Some (p\<lparr>workers := (workers p)[i := Checking], jobs_finished := jobs_finished p @ [j]\<rparr>)
            | Gone \<Rightarrow> None)
      else None)"

text \<open>Steps of the pool itself, and those of its clients.\<close>

inductive pool_own :: "'j pool \<Rightarrow> 'j pool \<Rightarrow> bool" where
  work: "worker_step i w p = Some p' \<Longrightarrow> pool_own p p'"
| woken: "i < length (full_woken (task_queue p)) \<Longrightarrow> pool_own p (pool_add_woken i p)"
| ended: "destroy_end p = Some p' \<Longrightarrow> pool_own p p'"

inductive pool_step :: "'j pool \<Rightarrow> 'j pool \<Rightarrow> bool" where
  own: "pool_own p p' \<Longrightarrow> pool_step p p'"
| add: "pool_step p (pool_add j p)"
| destroy: "\<not> destroying p \<Longrightarrow> pool_step p (destroy_begin how p)"
| spurious: "pool_step p (p\<lparr>task_queue := notify_full w (task_queue p)\<rparr>)"

inductive pool_reach :: "nat \<Rightarrow> nat \<Rightarrow> nat \<Rightarrow> 'j pool \<Rightarrow> bool" for n c k where
  start: "pool_reach n c k (pool_init n c k)"
| step: "pool_reach n c k p \<Longrightarrow> pool_step p p' \<Longrightarrow> pool_reach n c k p'"


section \<open>Nothing is lost or doubled\<close>

text \<open>What is in the queue or held by its producers.\<close>

definition queue_stock :: "'a queue \<Rightarrow> 'a multiset" where
  "queue_stock q = mset (queued q) + mset (full_waiting q) + mset (full_woken q)"

lemma mset_take_out: "i < length xs \<Longrightarrow> add_mset (xs ! i) (mset (take i xs @ drop (Suc i) xs)) = mset xs"
  by (metis Cons_nth_drop_Suc append_take_drop_id mset.simps(2) mset_append union_mset_add_mset_right)

lemma stock_notify [simp]: "queue_stock (notify_full w q) = queue_stock q" "queue_stock (notify_empty q) = queue_stock q"
proof -
  show "queue_stock (notify_full w q) = queue_stock q"
  proof (cases "w < length (full_waiting q)")
    case True
    from mset_take_out [OF this] show ?thesis using True by (simp add: notify_full_def queue_stock_def)
  qed (simp add: notify_full_def)
qed (simp add: notify_empty_def queue_stock_def)

lemma items_notify [simp]: "queued (notify_full w q) = queued q" "queued (notify_empty q) = queued q"
  by (simp_all add: notify_full_def notify_empty_def)

lemma history_notify [simp]:
  "entered (notify_full w q) = entered q" "taken (notify_full w q) = taken q"
  "entered (notify_empty q) = entered q" "taken (notify_empty q) = taken q"
  by (simp_all add: notify_full_def notify_empty_def)

lemma stock_push: "queue_stock (queue_push x q) = add_mset x (queue_stock q)"
  by (simp add: queue_push_def queue_enter_def) (simp add: queue_stock_def)

lemma stock_push_woken: "queue_stock (queue_push_woken i q) = queue_stock q"
proof (cases "i < length (full_woken q)")
  case True
  from mset_take_out [OF this] show ?thesis using True by (simp add: queue_push_woken_def queue_enter_def queue_stock_def)
qed (simp add: queue_push_woken_def)

lemma stock_try_pop:
  "queue_try_pop w q = (Some j, q') \<Longrightarrow> queue_stock q = add_mset j (queue_stock q')"
  "queue_try_pop w q = (None, q') \<Longrightarrow> q' = q \<and> queued q = []"
proof -
  assume t: "queue_try_pop w q = (Some j, q')"
  then obtain xs where "queued q = j # xs" by (cases "queued q") (auto simp: queue_try_pop_def)
  moreover from t have "queue_stock q' = queue_stock (queue_leave q)" by (auto simp: queue_try_pop_def split: if_splits)
  ultimately show "queue_stock q = add_mset j (queue_stock q')" by (simp add: queue_stock_def queue_leave_def)
qed (auto simp: queue_try_pop_def split: if_splits)

text \<open>The job a thread runs.\<close>

definition job_of :: "'j worker \<Rightarrow> 'j multiset" where
  "job_of w = (case w of Running j \<Rightarrow> {#j#} | _ \<Rightarrow> {#})"

lemma sum_list_put:
  "i < length xs \<Longrightarrow> sum_list (map f (xs[i := x])) + f (xs ! i) = sum_list (map f xs) + (f x :: 'b :: comm_monoid_add)"
  by (induction xs arbitrary: i) (auto simp: ac_simps split: nat.split)

definition pool_count :: "'j pool \<Rightarrow> 'j multiset" where
  "pool_count p = mset (jobs_finished p) + sum_list (map job_of (workers p)) + queue_stock (task_queue p) + mset (jobs_dropped p)"

lemma pool_count_own: "pool_own p p' \<Longrightarrow> pool_count p' = pool_count p \<and> jobs_added p' = jobs_added p"
proof (induction rule: pool_own.induct)
  case (work i w p p')
  then have i: "i < length (workers p)" by (auto simp: worker_step_def split: if_splits)
  note put = sum_list_put [OF i, of job_of]
  show ?case
  proof (cases "workers p ! i")
    case Checking
    with work i put show ?thesis
      by (auto simp: worker_step_def pool_count_def job_of_def split: if_splits)
  next
    case Popping
    obtain r q where t: "queue_try_pop w (task_queue p) = (r, q)" by fastforce
    show ?thesis
    proof (cases r)
      case None
      with work i put [of Checking] Popping t show ?thesis by (auto simp: worker_step_def pool_count_def job_of_def)
    next
      case (Some j)
      with work i put [of "Running j"] Popping t stock_try_pop(1) [of w "task_queue p" j q] show ?thesis
        by (auto simp: worker_step_def pool_count_def job_of_def)
    qed
  next
    case (Running j)
    with work i put [of Checking] show ?thesis by (auto simp: worker_step_def pool_count_def job_of_def)
  qed (use work in \<open>simp add: worker_step_def split: if_splits\<close>)
next
  case (woken i p)
  then show ?case by (simp add: pool_add_woken_def pool_count_def stock_push_woken)
next
  case (ended p p')
  then show ?case by (auto simp: destroy_end_def pool_count_def queue_stock_def queue_clear_def split: if_splits)
qed

lemma pool_count_step: "pool_step p p' \<Longrightarrow> pool_count p = mset (jobs_added p) \<Longrightarrow> pool_count p' = mset (jobs_added p')"
proof (induction rule: pool_step.induct)
  case (own p p')
  then show ?case by (simp add: pool_count_own)
next
  case (add p j)
  then show ?case by (simp add: pool_add_def pool_count_def stock_push)
qed (simp_all add: destroy_begin_def pool_count_def)

lemma sum_replicate_empty [simp]: "sum_list (replicate m {#}) = {#}"
  by (induction m) simp_all

lemma pool_count_init: "pool_count (pool_init n c k) = {#} \<and> jobs_added (pool_init n c k) = []"
  by (simp add: pool_init_def destroy_begin_def pool_count_def queue_stock_def queue_init_def job_of_def Let_def)

text \<open>
  C39: No job is lost or run twice. In every reachable state of the pool, with its threads and the clients
  taking turns in any order, the jobs that were added are exactly those that are finished, running,
  queued, held by a producer that waits for room, or dropped by destroy.
\<close>

theorem pool_runs_no_job_twice:
  assumes "pool_reach n c k p"
  shows "mset (jobs_added p) = mset (jobs_finished p) + sum_list (map job_of (workers p)) + mset (queued (task_queue p))
     + mset (full_waiting (task_queue p)) + mset (full_woken (task_queue p)) + mset (jobs_dropped p)"
proof -
  from assms have "pool_count p = mset (jobs_added p)"
    by induction (simp_all add: pool_count_init pool_count_step)
  then show ?thesis by (simp add: pool_count_def queue_stock_def ac_simps)
qed


section \<open>First in, first out\<close>

inductive queue_reach :: "nat \<Rightarrow> 'a queue \<Rightarrow> bool" for n where
  start: "queue_reach n (queue_init n)"
| step: "queue_reach n q \<Longrightarrow> queue_step q q' \<Longrightarrow> queue_reach n q'"

text \<open>The items come out as they came in.\<close>

definition in_order :: "'a queue \<Rightarrow> bool" where
  "in_order q \<longleftrightarrow> entered q = taken q @ queued q"

lemma in_order_leave: "in_order q \<Longrightarrow> queued q \<noteq> [] \<Longrightarrow> in_order (queue_leave q)"
  by (simp add: in_order_def queue_leave_def)

lemma in_order_notify [simp]: "in_order (notify_full w q) = in_order q" "in_order (notify_empty q) = in_order q"
  by (simp_all add: in_order_def)

lemma in_order_update [simp]:
  "in_order (q\<lparr>full_waiting := xs\<rparr>) = in_order q" "in_order (q\<lparr>full_woken := xs\<rparr>) = in_order q"
  "in_order (q\<lparr>empty_waiting := n\<rparr>) = in_order q" "in_order (q\<lparr>empty_woken := n\<rparr>) = in_order q"
  by (simp_all add: in_order_def)

lemma in_order_enter [simp]: "in_order (queue_enter x q) = in_order q"
  by (simp add: in_order_def queue_enter_def)

lemma in_order_step: "queue_step q q' \<Longrightarrow> in_order q \<Longrightarrow> in_order q'"
  by (induction rule: queue_step.induct)
    (auto simp: queue_push_def queue_push_woken_def queue_try_pop_def queue_pop_def queue_pop_woken_def Let_def in_order_leave)

lemma queue_in_order: "queue_reach n q \<Longrightarrow> entered q = taken q @ queued q"
proof -
  have "queue_reach n q \<Longrightarrow> in_order q"
    by (induction rule: queue_reach.induct) (simp_all add: in_order_step, simp add: in_order_def queue_init_def)
  then show "queue_reach n q \<Longrightarrow> ?thesis" by (simp add: in_order_def)
qed

section \<open>A producer that is never woken\<close>

definition forgotten :: "'a list \<Rightarrow> 'a queue \<Rightarrow> bool" where
  "forgotten xs q \<longleftrightarrow> full_waiting q = xs \<and> full_woken q = [] \<and> (length (queued q) + 1 < queue_size q \<or> queue_size q = 1)"

lemma forgotten_quiet: "quiet_step q q' \<Longrightarrow> forgotten xs q \<Longrightarrow> forgotten xs q'"
  by (induction rule: quiet_step.induct)
    (auto simp: forgotten_def queue_push_woken_def queue_try_pop_def queue_leave_def below_full_def)

lemma forgotten_run: "quiet_step\<^sup>*\<^sup>* q q' \<Longrightarrow> forgotten xs q \<Longrightarrow> forgotten xs q'"
  by (induction rule: rtranclp_induct) (auto dest: forgotten_quiet)

text \<open>
  A wake-up is lost: a producer that waits in push while fewer than capacity - 1 items are queued and
  nobody was woken, or with a capacity of one, waits for ever (unless its wake-up is spurious), however
  often the consumers empty the queue: try_pop notifies only when it finds exactly capacity - 1 items. The state is reached with six
  producers and a capacity of four, the default on two processors.
\<close>

theorem blocked_producer_is_forgotten:
  assumes "full_waiting q = xs" "full_woken q = []" "length (queued q) + 1 < queue_size q \<or> queue_size q = 1"
    and "quiet_step\<^sup>*\<^sup>* q q'"
  shows "full_waiting q' = xs \<and> full_woken q' = []"
  using forgotten_run [OF assms(4), of xs] assms(1-3) by (simp add: forgotten_def)

text \<open>Six producers at a queue of four, which the consumers empty before the one they wake goes on.\<close>

datatype queue_call = Push nat | Resume nat | Try_pop nat

fun call_queue :: "queue_call \<Rightarrow> nat queue \<Rightarrow> nat queue" where
  "call_queue (Push x) q = queue_push x q"
| "call_queue (Resume i) q = queue_push_woken i q"
| "call_queue (Try_pop w) q = snd (queue_try_pop w q)"

lemma calls_reach: "queue_reach n q \<Longrightarrow> queue_reach n (fold call_queue cs q)"
proof (induction cs arbitrary: q)
  case (Cons c cs)
  have "queue_step q (call_queue c q)" by (cases c) (auto intro: queue_step.intros)
  with Cons show ?case by (auto intro: queue_reach.step)
qed simp

definition busy_queue :: "nat queue" where
  "busy_queue = fold call_queue ([Push 1, Push 2, Push 3, Push 4, Push 5, Push 6] @ replicate 4 (Try_pop 0) @ [Resume 0, Try_pop 0])
     (queue_init 4)"

lemma busy_queue_state: "full_waiting busy_queue = [6] \<and> full_woken busy_queue = [] \<and> queued busy_queue = [] \<and> queue_size busy_queue = 4"
  by code_simp

theorem blocked_producer_is_forgotten_witness:
  "\<exists>q. queue_reach 4 q \<and> full_waiting q = [6] \<and> queued q = []
     \<and> (\<forall>q'. quiet_step\<^sup>*\<^sup>* q q' \<longrightarrow> full_waiting q' = [6 :: nat])"
proof -
  have "queue_reach 4 busy_queue" unfolding busy_queue_def by (intro calls_reach queue_reach.start)
  moreover have "full_waiting q' = [6]" if "quiet_step\<^sup>*\<^sup>* busy_queue q'" for q'
    using blocked_producer_is_forgotten [of busy_queue "[6]" q'] busy_queue_state that by simp
  ultimately show ?thesis using busy_queue_state by blast
qed

text \<open>The capacity can be exceeded: a woken producer does not look whether another one was faster.\<close>

lemma capacity_exceeded: "\<exists>q :: nat queue. queue_reach 2 q \<and> queue_size q = 2 \<and> length (queued q) = 3"
proof -
  let ?cs = "[Push 1, Push 2, Push 3, Try_pop 0, Try_pop 0, Push 4, Push 5, Resume 0]"
  have "queue_reach 2 (fold call_queue ?cs (queue_init 2))" by (intro calls_reach queue_reach.start)
  moreover have "queue_size (fold call_queue ?cs (queue_init 2)) = 2 \<and> length (queued (fold call_queue ?cs (queue_init 2))) = 3"
    by code_simp
  ultimately show ?thesis by blast
qed

section \<open>A postponed shutdown\<close>

definition no_producer :: "'j queue \<Rightarrow> bool" where
  "no_producer q \<longleftrightarrow> full_waiting q = [] \<and> full_woken q = []"

text \<open>What holds from the call of destroy until it returns.\<close>

definition running_down :: "'j pool \<Rightarrow> bool" where
  "running_down p \<longleftrightarrow> shutdown p = TP_POSTPONED_SHUTDOWN \<and> destroying p \<and> no_producer (task_queue p) \<and> workers p \<noteq> []
     \<and> (Gone \<in> set (workers p) \<longrightarrow> queued (task_queue p) = []) \<and> jobs_dropped p = []
     \<and> (pool_stop p \<longrightarrow> (\<forall>w \<in> set (workers p). w = Gone))"

text \<open>What is left to do: the jobs, and where the threads are in their loop.\<close>

definition worker_rank :: "bool \<Rightarrow> 'j worker \<Rightarrow> nat" where
  "worker_rank none w = (case w of Gone \<Rightarrow> 0 | Checking \<Rightarrow> (if none then 1 else 2) | Popping \<Rightarrow> (if none then 2 else 1) | Running j \<Rightarrow> 3)"

definition pool_load :: "'j pool \<Rightarrow> nat" where
  "pool_load p = length (queued (task_queue p)) * (3 * length (workers p) + 1)
     + sum_list (map (worker_rank (queued (task_queue p) = [])) (workers p)) + (if pool_stop p then 0 else 1)"

lemma rank_bound: "sum_list (map (worker_rank b) ws) \<le> 3 * length ws"
proof (induction ws)
  case (Cons w ws)
  have "worker_rank b w \<le> 3" by (simp add: worker_rank_def split: worker.split)
  with Cons show ?case by simp
qed simp

lemma try_pop_alone:
  assumes "no_producer q" "queue_try_pop w q = (Some j, q')"
  shows "no_producer q' \<and> length (queued q) = Suc (length (queued q'))"
proof -
  from assms(2) obtain xs where xs: "queued q = j # xs" by (cases "queued q") (auto simp: queue_try_pop_def)
  with assms(2) have "q' = queue_leave q \<or> q' = notify_full w (queue_leave q)" by (auto simp: queue_try_pop_def split: if_splits)
  with assms(1) xs show ?thesis by (auto simp: no_producer_def notify_full_def queue_leave_def)
qed

lemma set_put: "x \<in> set (xs[i := y]) \<Longrightarrow> x = y \<or> x \<in> set xs"
  using set_update_subset_insert by fastforce

lemma sum_list_less:
  "i < length xs \<Longrightarrow> f x < f (xs ! i) \<Longrightarrow> sum_list (map f (xs[i := x])) < sum_list (map f xs :: nat list)"
  using sum_list_put [of i xs f x] by linarith

lemma running_down_own:
  assumes "pool_own p p'" "running_down p"
  shows "running_down p' \<and> pool_load p' < pool_load p"
  using assms(1)
proof (cases rule: pool_own.cases)
  case (work i w)
  then have i: "i < length (workers p)" by (auto simp: worker_step_def split: if_splits)
  let ?b = "queued (task_queue p) = []"
  have run: "\<not> pool_stop p" if "workers p ! i \<noteq> Gone" using that assms(2) nth_mem [OF i] by (auto simp: running_down_def)
  have gone: "Gone \<in> set (workers p)" if "Gone \<in> set ((workers p)[i := x])" "x \<noteq> Gone" for x
    using set_put [OF that(1)] that(2) by blast
  show ?thesis
  proof (cases "workers p ! i")
    case Checking
    let ?x = "if ?b then Gone else Popping"
    from work i Checking assms(2) have p': "p' = p\<lparr>workers := (workers p)[i := ?x]\<rparr>"
      by (auto simp: worker_step_def running_down_def TP_POSTPONED_SHUTDOWN_def TP_IMMEDIATE_SHUTDOWN_def)
    have "worker_rank ?b ?x < worker_rank ?b (workers p ! i)" by (simp add: Checking worker_rank_def)
    from sum_list_less [OF i this] have "pool_load p' < pool_load p" by (cases ?b) (simp_all add: p' pool_load_def)
    moreover have "running_down p'" using assms(2) run Checking gone [of Popping] by (auto simp: p' running_down_def)
    ultimately show ?thesis by simp
  next
    case Popping
    obtain r q where t: "queue_try_pop w (task_queue p) = (r, q)" by fastforce
    show ?thesis
    proof (cases r)
      case None
      with t have b: ?b by (simp add: stock_try_pop(2))
      with work i Popping t None have p': "p' = p\<lparr>workers := (workers p)[i := Checking]\<rparr>" by (simp add: worker_step_def)
      have "worker_rank ?b Checking < worker_rank ?b (workers p ! i)" using b by (simp add: Popping worker_rank_def)
      from sum_list_less [OF i this] have "pool_load p' < pool_load p" by (simp add: p' pool_load_def)
      moreover have "running_down p'" using assms(2) run Popping b by (auto simp: p' running_down_def)
      ultimately show ?thesis by simp
    next
      case (Some j)
      with work i Popping t have p': "p' = p\<lparr>task_queue := q, workers := (workers p)[i := Running j]\<rparr>" by (simp add: worker_step_def)
      from try_pop_alone [of "task_queue p" w j q] t Some assms(2)
      have q: "no_producer q" "length (queued (task_queue p)) = Suc (length (queued q))" by (auto simp: running_down_def)
      have "pool_load p' < pool_load p"
        using rank_bound [of "queued q = []" "(workers p)[i := Running j]"] q(2) run Popping
        by (simp add: p' pool_load_def)
      moreover have "running_down p'" using assms(2) run Popping q gone [of "Running j"] by (auto simp: p' running_down_def)
      ultimately show ?thesis by simp
    qed
  next
    case (Running j)
    with work i have p': "p' = p\<lparr>workers := (workers p)[i := Checking], jobs_finished := jobs_finished p @ [j]\<rparr>" by (simp add: worker_step_def)
    have "worker_rank ?b Checking < worker_rank ?b (workers p ! i)" by (simp add: Running worker_rank_def)
    from sum_list_less [OF i this] have "pool_load p' < pool_load p" by (simp add: p' pool_load_def)
    moreover have "running_down p'" using assms(2) run Running gone [of Checking] by (auto simp: p' running_down_def)
    ultimately show ?thesis by simp
  next
    case Gone
    with work i show ?thesis by (simp add: worker_step_def)
  qed
next
  case (woken i)
  with assms(2) show ?thesis by (simp add: running_down_def no_producer_def)
next
  case ended
  then have e: "destroying p" "\<not> pool_stop p" "\<forall>w \<in> set (workers p). w = Gone"
    and p': "p' = p\<lparr>task_queue := queue_clear (task_queue p), jobs_dropped := jobs_dropped p @ queued (task_queue p), pool_stop := True\<rparr>"
    by (auto simp: destroy_end_def split: if_splits)
  from e(3) assms(2) have "queued (task_queue p) = []" by (cases "workers p") (auto simp: running_down_def)
  with e p' assms(2) show ?thesis by (simp add: running_down_def pool_load_def queue_clear_def no_producer_def)
qed


interpretation pool_end: bounded_work pool_own running_down pool_load
  by unfold_locales (simp_all add: running_down_own)

lemma running_down_goes_on:
  assumes "running_down p" "\<not> pool_stop p"
  shows "\<exists>p'. pool_own p p'"
proof (cases "\<forall>w \<in> set (workers p). w = Gone")
  case True
  with assms have "\<exists>p'. destroy_end p = Some p'" by (auto simp: destroy_end_def running_down_def)
  then show ?thesis by (blast intro: pool_own.ended)
next
  case False
  then obtain i where i: "i < length (workers p)" "workers p ! i \<noteq> Gone" by (auto simp: in_set_conv_nth)
  then have "\<exists>p'. worker_step i 0 p = Some p'"
    by (cases "workers p ! i") (auto simp: worker_step_def split: option.split prod.split)
  then show ?thesis by (blast intro: pool_own.work)
qed

text \<open>Until destroy is called all threads are in their loop.\<close>

definition not_destroyed :: "nat \<Rightarrow> 'j pool \<Rightarrow> bool" where
  "not_destroyed n p \<longleftrightarrow> length (workers p) = n
     \<and> (\<not> destroying p \<longrightarrow> shutdown p = - 1 \<and> Gone \<notin> set (workers p) \<and> \<not> pool_stop p \<and> jobs_dropped p = [])"

lemma not_destroyed_own: "pool_own p p' \<Longrightarrow> not_destroyed n p \<Longrightarrow> not_destroyed n p'"
proof (induction rule: pool_own.induct)
  case (work i w p p')
  have "Gone \<notin> set ((workers p)[i := x])" if "Gone \<notin> set (workers p)" "x \<noteq> Gone" for x
    using set_put [of Gone "workers p" i x] that by blast
  with work show ?case
    by (auto simp: worker_step_def not_destroyed_def TP_POSTPONED_SHUTDOWN_def TP_IMMEDIATE_SHUTDOWN_def
        split: if_splits worker.splits option.splits prod.splits)
qed (auto simp: not_destroyed_def pool_add_woken_def destroy_end_def split: if_splits)

lemma not_destroyed_reach: "pool_reach n c k p \<Longrightarrow> n \<le> c \<Longrightarrow> not_destroyed n p"
proof (induction rule: pool_reach.induct)
  case start
  then show ?case by (simp add: pool_init_def not_destroyed_def Let_def)
next
  case (step p p')
  from step.hyps(2) step.IH [OF step.prems] show ?case
    by (cases rule: pool_step.cases) (auto simp: not_destroyed_own, auto simp: not_destroyed_def pool_add_def destroy_begin_def)
qed

text \<open>
  A postponed shutdown runs everything: begun in any state in which no producer waits for room, and
  with no job added after it, destroy returns after a bounded number of steps, whatever the order of
  the threads, and by then every job that was added is finished and none was dropped.
\<close>

lemma postponed_shutdown_runs_all:
  assumes reach: "pool_reach n c k p" and n: "0 < n" "n \<le> c" and p: "\<not> destroying p" "no_producer (task_queue p)"
    and run: "(pool_own ^^ m) (destroy_begin TP_POSTPONED_SHUTDOWN p) p'"
  shows "m \<le> pool_load (destroy_begin TP_POSTPONED_SHUTDOWN p)
     \<and> ((\<nexists>p''. pool_own p' p'') \<longrightarrow> pool_stop p' \<and> jobs_dropped p' = [] \<and> mset (jobs_finished p') = mset (jobs_added p))"
proof -
  let ?p = "destroy_begin TP_POSTPONED_SHUTDOWN p"
  have "not_destroyed n p" by (rule not_destroyed_reach [OF reach n(2)])
  with p n(1) have r: "running_down ?p" by (auto simp: not_destroyed_def running_down_def destroy_begin_def)
  note b = pool_end.run_bounded [OF run r]
  have count: "pool_count q = mset (jobs_added p) \<and> jobs_added q = jobs_added p" if "(pool_own ^^ j) ?p q" for j q
    using that
  proof (induction j arbitrary: q)
    case 0
    have "pool_count p = mset (jobs_added p)" using reach by induction (simp_all add: pool_count_init pool_count_step)
    with 0 show ?case by (auto simp: destroy_begin_def pool_count_def)
  next
    case (Suc j)
    then show ?case by (auto dest: pool_count_own)
  qed
  have "pool_stop p' \<and> jobs_dropped p' = [] \<and> mset (jobs_finished p') = mset (jobs_added p)" if "\<nexists>p''. pool_own p' p''"
  proof -
    have s: "pool_stop p'" using running_down_goes_on [of p'] b that by blast
    with b have g: "\<forall>w \<in> set (workers p'). w = Gone" "queued (task_queue p') = []" "no_producer (task_queue p')" "jobs_dropped p' = []"
      by (cases "workers p'", auto simp: running_down_def)+
    then have "map job_of (workers p') = map (\<lambda>w. {#}) (workers p')" by (auto simp: job_of_def)
    then have "sum_list (map job_of (workers p')) = {#}" by (simp add: map_replicate_const)
    with count [OF run] g s show ?thesis by (simp add: pool_count_def queue_stock_def no_producer_def)
  qed
  with b show ?thesis by simp
qed


text \<open>One thread and one job.\<close>

definition one_job :: "nat pool" where
  "one_job = pool_add 7 (pool_init 1 1 2)"

lemma one_job_reach: "pool_reach 1 1 2 one_job"
  unfolding one_job_def by (rule pool_reach.step [OF pool_reach.start pool_step.add])

lemma one_job_state: "\<not> destroying one_job \<and> no_producer (task_queue one_job) \<and> jobs_added one_job = [7] \<and> workers one_job = [Checking]"
  by code_simp

lemma postponed_shutdown_example:
  "\<exists>p. pool_own\<^sup>*\<^sup>* (destroy_begin TP_POSTPONED_SHUTDOWN one_job) p \<and> pool_stop p \<and> jobs_finished p = [7]"
proof -
  let ?p = "destroy_begin TP_POSTPONED_SHUTDOWN one_job"
  have "not_destroyed 1 one_job" by (rule not_destroyed_reach [OF one_job_reach]) simp
  then have "running_down ?p" using one_job_state by (auto simp: not_destroyed_def running_down_def destroy_begin_def)
  from pool_end.rest_reached [OF this] obtain p' where r: "pool_own\<^sup>*\<^sup>* ?p p'" "\<nexists>p''. pool_own p' p''" by blast
  from r(1) obtain m where "(pool_own ^^ m) ?p p'" by (auto dest: rtranclp_imp_relpowp)
  from postponed_shutdown_runs_all [OF one_job_reach _ _ _ _ this] one_job_state r(2)
  have "pool_stop p' \<and> mset (jobs_finished p') = {#7#}" by simp
  with r(1) show ?thesis by auto
qed

theorem pool_runs_no_job_twice_witness:
  "pool_reach 1 1 2 one_job \<and> mset (jobs_added one_job) = {#7#} \<and> count (mset (queued (task_queue one_job)) + mset (jobs_finished one_job)) 7 = 1"
proof -
  have "workers one_job = [Checking]" "jobs_dropped one_job = []" by code_simp+
  then show ?thesis
    using pool_runs_no_job_twice [OF one_job_reach] one_job_state one_job_reach
    by (simp add: no_producer_def job_of_def) (metis count_add_mset count_empty count_union add.commute)
qed

end
