(* ===== verification/Saf_Threads.thy ===== *)
theory Saf_Threads
  imports Saf_Queue
begin

text \<open>
  Threads of the Google Drive library (common/threading.hpp): Thread with its start and join, and
  AsyncMethod, which runs one function after the other on a thread of its own; and the functions
  with their arguments as AsyncMethod and ThreadPool (common/threadpool.hpp) keep them.
\<close>

section \<open>Functions to run\<close>

text \<open>
  A function changes the memory and may give a value; the object of a member function and the
  arguments are copied into the job, and the value is stored where \<open>_r\<close> points.
\<close>

type_synonym 'v memory = "nat \<Rightarrow> 'v"
type_synonym 'v job = "'v memory \<Rightarrow> 'v memory"
type_synonym 'v func = "'v memory \<Rightarrow> 'v \<times> 'v memory"

definition store_result :: "nat \<Rightarrow> 'v func \<Rightarrow> 'v job" where
  "store_result r f m = (case f m of (v, m') \<Rightarrow> m'(r := v))"

text \<open>The jobs of ThreadPool::add, one class per overload.\<close>

definition VVJob :: "'v job \<Rightarrow> 'v job" where
  "VVJob fn = fn"

definition VCVJob :: "('c \<Rightarrow> 'v job) \<Rightarrow> 'c \<Rightarrow> 'v job" where
  "VCVJob fn c = fn c"

definition RVJob :: "'v func \<Rightarrow> nat \<Rightarrow> 'v job" where
  "RVJob fn r = store_result r fn"

definition RCVJob :: "('c \<Rightarrow> 'v func) \<Rightarrow> 'c \<Rightarrow> nat \<Rightarrow> 'v job" where
  "RCVJob fn c r = store_result r (fn c)"

definition VA1Job :: "('a1 \<Rightarrow> 'v job) \<Rightarrow> 'a1 \<Rightarrow> 'v job" where
  "VA1Job fn a1 = fn a1"

definition VCA1Job :: "('c \<Rightarrow> 'a1 \<Rightarrow> 'v job) \<Rightarrow> 'c \<Rightarrow> 'a1 \<Rightarrow> 'v job" where
  "VCA1Job fn c a1 = fn c a1"

definition RA1Job :: "('a1 \<Rightarrow> 'v func) \<Rightarrow> 'a1 \<Rightarrow> nat \<Rightarrow> 'v job" where
  "RA1Job fn a1 r = store_result r (fn a1)"

definition RCA1Job :: "('c \<Rightarrow> 'a1 \<Rightarrow> 'v func) \<Rightarrow> 'c \<Rightarrow> 'a1 \<Rightarrow> nat \<Rightarrow> 'v job" where
  "RCA1Job fn c a1 r = store_result r (fn c a1)"

definition VA2Job :: "('a1 \<Rightarrow> 'a2 \<Rightarrow> 'v job) \<Rightarrow> 'a1 \<Rightarrow> 'a2 \<Rightarrow> 'v job" where
  "VA2Job fn a1 a2 = fn a1 a2"

definition VCA2Job :: "('c \<Rightarrow> 'a1 \<Rightarrow> 'a2 \<Rightarrow> 'v job) \<Rightarrow> 'c \<Rightarrow> 'a1 \<Rightarrow> 'a2 \<Rightarrow> 'v job" where
  "VCA2Job fn c a1 a2 = fn c a1 a2"

definition RA2Job :: "('a1 \<Rightarrow> 'a2 \<Rightarrow> 'v func) \<Rightarrow> 'a1 \<Rightarrow> 'a2 \<Rightarrow> nat \<Rightarrow> 'v job" where
  "RA2Job fn a1 a2 r = store_result r (fn a1 a2)"

definition RCA2Job :: "('c \<Rightarrow> 'a1 \<Rightarrow> 'a2 \<Rightarrow> 'v func) \<Rightarrow> 'c \<Rightarrow> 'a1 \<Rightarrow> 'a2 \<Rightarrow> nat \<Rightarrow> 'v job" where
  "RCA2Job fn c a1 a2 r = store_result r (fn c a1 a2)"

definition VA3Job :: "('a1 \<Rightarrow> 'a2 \<Rightarrow> 'a3 \<Rightarrow> 'v job) \<Rightarrow> 'a1 \<Rightarrow> 'a2 \<Rightarrow> 'a3 \<Rightarrow> 'v job" where
  "VA3Job fn a1 a2 a3 = fn a1 a2 a3"

definition RA3Job :: "('a1 \<Rightarrow> 'a2 \<Rightarrow> 'a3 \<Rightarrow> 'v func) \<Rightarrow> 'a1 \<Rightarrow> 'a2 \<Rightarrow> 'a3 \<Rightarrow> nat \<Rightarrow> 'v job" where
  "RA3Job fn a1 a2 a3 r = store_result r (fn a1 a2 a3)"

text \<open>The same for AsyncMethod::start_async.\<close>

definition VVRunable :: "'v job \<Rightarrow> 'v job" where
  "VVRunable fn = fn"

definition VCVRunable :: "('c \<Rightarrow> 'v job) \<Rightarrow> 'c \<Rightarrow> 'v job" where
  "VCVRunable fn c = fn c"

definition RVRunable :: "'v func \<Rightarrow> nat \<Rightarrow> 'v job" where
  "RVRunable fn r = store_result r fn"

definition RCVRunable :: "('c \<Rightarrow> 'v func) \<Rightarrow> 'c \<Rightarrow> nat \<Rightarrow> 'v job" where
  "RCVRunable fn c r = store_result r (fn c)"

definition VA1Runable :: "('a1 \<Rightarrow> 'v job) \<Rightarrow> 'a1 \<Rightarrow> 'v job" where
  "VA1Runable fn a1 = fn a1"

definition VCA1Runable :: "('c \<Rightarrow> 'a1 \<Rightarrow> 'v job) \<Rightarrow> 'c \<Rightarrow> 'a1 \<Rightarrow> 'v job" where
  "VCA1Runable fn c a1 = fn c a1"

definition RA1Runable :: "('a1 \<Rightarrow> 'v func) \<Rightarrow> 'a1 \<Rightarrow> nat \<Rightarrow> 'v job" where
  "RA1Runable fn a1 r = store_result r (fn a1)"

definition RCA1Runable :: "('c \<Rightarrow> 'a1 \<Rightarrow> 'v func) \<Rightarrow> 'c \<Rightarrow> 'a1 \<Rightarrow> nat \<Rightarrow> 'v job" where
  "RCA1Runable fn c a1 r = store_result r (fn c a1)"

definition VA2Runable :: "('a1 \<Rightarrow> 'a2 \<Rightarrow> 'v job) \<Rightarrow> 'a1 \<Rightarrow> 'a2 \<Rightarrow> 'v job" where
  "VA2Runable fn a1 a2 = fn a1 a2"

definition VCA2Runable :: "('c \<Rightarrow> 'a1 \<Rightarrow> 'a2 \<Rightarrow> 'v job) \<Rightarrow> 'c \<Rightarrow> 'a1 \<Rightarrow> 'a2 \<Rightarrow> 'v job" where
  "VCA2Runable fn c a1 a2 = fn c a1 a2"

definition RA2Runable :: "('a1 \<Rightarrow> 'a2 \<Rightarrow> 'v func) \<Rightarrow> 'a1 \<Rightarrow> 'a2 \<Rightarrow> nat \<Rightarrow> 'v job" where
  "RA2Runable fn a1 a2 r = store_result r (fn a1 a2)"

definition RCA2Runable :: "('c \<Rightarrow> 'a1 \<Rightarrow> 'a2 \<Rightarrow> 'v func) \<Rightarrow> 'c \<Rightarrow> 'a1 \<Rightarrow> 'a2 \<Rightarrow> nat \<Rightarrow> 'v job" where
  "RCA2Runable fn c a1 a2 r = store_result r (fn c a1 a2)"

definition VA3Runable :: "('a1 \<Rightarrow> 'a2 \<Rightarrow> 'a3 \<Rightarrow> 'v job) \<Rightarrow> 'a1 \<Rightarrow> 'a2 \<Rightarrow> 'a3 \<Rightarrow> 'v job" where
  "VA3Runable fn a1 a2 a3 = fn a1 a2 a3"

definition RA3Runable :: "('a1 \<Rightarrow> 'a2 \<Rightarrow> 'a3 \<Rightarrow> 'v func) \<Rightarrow> 'a1 \<Rightarrow> 'a2 \<Rightarrow> 'a3 \<Rightarrow> nat \<Rightarrow> 'v job" where
  "RA3Runable fn a1 a2 a3 r = store_result r (fn a1 a2 a3)"

section \<open>Results of a pool\<close>

definition run_jobs :: "'v job list \<Rightarrow> 'v job" where
  "run_jobs fs m = fold (\<lambda>f m. f m) fs m"

text \<open>The job does nothing but put v where r points.\<close>

definition delivers :: "nat \<times> 'v \<Rightarrow> 'v job \<Rightarrow> bool" where
  "delivers e f \<longleftrightarrow> (\<forall>m. f m = m(fst e := snd e))"

text \<open>A function that only computes delivers its value through every overload with a result.\<close>

lemma jobs_deliver:
  "delivers (r, g) (RVJob (\<lambda>m. (g, m)) r)"
  "delivers (r, g1 c) (RCVJob (\<lambda>c m. (g1 c, m)) c r)"
  "delivers (r, g1 a1) (RA1Job (\<lambda>a1 m. (g1 a1, m)) a1 r)"
  "delivers (r, g2 c a1) (RCA1Job (\<lambda>c a1 m. (g2 c a1, m)) c a1 r)"
  "delivers (r, g2 a1 a2) (RA2Job (\<lambda>a1 a2 m. (g2 a1 a2, m)) a1 a2 r)"
  "delivers (r, g3 c a1 a2) (RCA2Job (\<lambda>c a1 a2 m. (g3 c a1 a2, m)) c a1 a2 r)"
  "delivers (r, g3 a1 a2 a3) (RA3Job (\<lambda>a1 a2 a3 m. (g3 a1 a2 a3, m)) a1 a2 a3 r)"
  by (simp_all add: delivers_def store_result_def RVJob_def RCVJob_def RA1Job_def RCA1Job_def RA2Job_def RCA2Job_def RA3Job_def)

lemma run_jobs_deliver:
  assumes "\<forall>f \<in> set fs. \<exists>e \<in> set es. delivers e f" "distinct (map fst es)" "(r, v) \<in> set es"
    "\<exists>f \<in> set fs. delivers (r, v) f"
  shows "run_jobs fs m r = v"
  using assms(1,4)
proof (induction fs arbitrary: m rule: rev_induct)
  case (snoc f fs)
  then obtain e where e: "e \<in> set es" "delivers e f" by auto
  have last: "run_jobs (fs @ [f]) m r = f (run_jobs fs m) r" by (simp add: run_jobs_def)
  show ?case
  proof (cases "delivers (r, v) f")
    case True
    with last show ?thesis by (simp add: delivers_def)
  next
    case False
    with e assms(2,3) have "fst e \<noteq> r" by (metis eq_key_imp_eq_value prod.collapse)
    with e(2) last have "run_jobs (fs @ [f]) m r = run_jobs fs m r" by (simp add: delivers_def)
    with False snoc show ?thesis by auto
  qed
qed simp

lemma list_all2_partner:
  "list_all2 P xs ys \<Longrightarrow> x \<in> set xs \<Longrightarrow> \<exists>y \<in> set ys. P x y" "list_all2 P xs ys \<Longrightarrow> y \<in> set ys \<Longrightarrow> \<exists>x \<in> set xs. P x y"
  by (induction rule: list_all2_induct; auto)+

text \<open>
  C38: destroy with TP_POSTPONED_SHUTDOWN returns: called in any state of a pool all of whose threads
  were created, in which no producer waits for room, and with no job added after it, it is followed
  by at most as many steps of the threads as the load of the pool says, in whatever order they work;
  and when there is no step left it has returned, and if each job added does nothing but store a
  value, all at different places, every value is in its place.
\<close>

theorem pool_delivers_results:
  assumes reach: "pool_reach n c k p" and n: "0 < n" "n \<le> c" and p: "\<not> destroying p" "no_producer (task_queue p)"
    and jobs: "list_all2 delivers es (jobs_added p)" "distinct (map fst es)"
    and run: "(pool_own ^^ j) (destroy_begin TP_POSTPONED_SHUTDOWN p) p'"
  shows "j \<le> pool_load (destroy_begin TP_POSTPONED_SHUTDOWN p)
    \<and> ((\<exists>p''. pool_own p' p'') \<or> pool_stop p' \<and> (\<forall>(r, v) \<in> set es. run_jobs (jobs_finished p') m r = v))"
proof (cases "\<exists>p''. pool_own p' p''")
  case True
  with postponed_shutdown_runs_all [OF reach n p run] show ?thesis by blast
next
  case False
  with postponed_shutdown_runs_all [OF reach n p run] have bound: "j \<le> pool_load (destroy_begin TP_POSTPONED_SHUTDOWN p)"
    and "pool_stop p'" "mset (jobs_finished p') = mset (jobs_added p)"
    by auto
  moreover from \<open>mset (jobs_finished p') = mset (jobs_added p)\<close>
  have same: "set (jobs_finished p') = set (jobs_added p)" by (metis set_mset_mset)
  have "run_jobs (jobs_finished p') m r = v" if "(r, v) \<in> set es" for r v
  proof -
    have "\<forall>f \<in> set (jobs_finished p'). \<exists>e \<in> set es. delivers e f"
      unfolding same by (blast dest: list_all2_partner(2) [OF jobs(1)])
    moreover have "\<exists>f \<in> set (jobs_finished p'). delivers (r, v) f"
      unfolding same by (rule list_all2_partner(1) [OF jobs(1) that])
    ultimately show ?thesis using run_jobs_deliver [OF _ jobs(2) that] by auto
  qed
  ultimately show ?thesis using bound by auto
qed

section \<open>Thread\<close>

text \<open>
  What \<open>_thread_id\<close> names: nothing yet, a thread that has yet to run its function, one that ended,
  one that was joined. A thread without a context runs itself.
\<close>

datatype 'v tid = Unset | Going "'v job" | Finished | Joined

record 'v lib_thread =
  thread_id :: "'v tid"
  thread_context :: "'v job option"
  thread_run :: "'v job"
  thread_active :: bool
  thread_joinable :: bool

definition thread_new :: "'v job \<Rightarrow> 'v lib_thread" where
  "thread_new f = \<lparr>thread_id = Unset, thread_context = Some f, thread_run = (\<lambda>m. m), thread_active = False, thread_joinable = True\<rparr>"

text \<open>\<open>created\<close>: whether pthread_create gives a thread.\<close>

definition thread_start :: "bool \<Rightarrow> 'v lib_thread \<Rightarrow> bool \<times> 'v lib_thread" where
  "thread_start created t =
     (if thread_active t then (False, t)
      else (let f = (case thread_context t of Some f \<Rightarrow> f | None \<Rightarrow> thread_run t);
                t1 = t\<lparr>thread_context := Some f\<rparr>
            in if created then (True, t1\<lparr>thread_id := Going f, thread_active := True\<rparr>) else (False, t1)))"

text \<open>A call waits, has no defined behaviour, or returns.\<close>

datatype 'a outcome = Blocked | Undefined | Returned 'a

fun outcome_bind :: "'a outcome \<Rightarrow> ('a \<Rightarrow> 'b outcome) \<Rightarrow> 'b outcome" where
  "outcome_bind Blocked g = Blocked"
| "outcome_bind Undefined g = Undefined"
| "outcome_bind (Returned x) g = g x"

text \<open>pthread_join is undefined for an id that was never set and for a thread that was joined.\<close>

definition thread_join :: "'v lib_thread \<Rightarrow> (bool \<times> 'v lib_thread) outcome" where
  "thread_join t =
     (if \<not> thread_joinable t then Returned (False, t)
      else case thread_id t of
             Unset \<Rightarrow> Undefined
           | Going f \<Rightarrow> Blocked
           | Finished \<Rightarrow> Returned (True, t\<lparr>thread_id := Joined, thread_active := False\<rparr>)
           | Joined \<Rightarrow> Undefined)"

definition thread_destroy :: "'v lib_thread \<Rightarrow> unit outcome" where
  "thread_destroy t = (if thread_active t then outcome_bind (thread_join t) (\<lambda>_. Returned ()) else Returned ())"

section \<open>AsyncMethod\<close>

text \<open>Whether \<open>_runable\<close> is set, \<open>_thread\<close>, the memory, and the functions that were started and that ran.\<close>

record 'v async =
  runable :: bool
  a_thread :: "'v lib_thread option"
  memory :: "'v memory"
  begun :: "'v job list"
  ran :: "'v job list"

definition AsyncMethod :: "'v memory \<Rightarrow> 'v async" where
  "AsyncMethod m = \<lparr>runable = False, a_thread = None, memory = m, begun = [], ran = []\<rparr>"

definition async_check :: "'v async \<Rightarrow> 'v async outcome" where
  "async_check a =
     (if runable a
      then (case a_thread a of
              None \<Rightarrow> Undefined
            | Some t \<Rightarrow>
                outcome_bind (thread_join t) (\<lambda>(ok, t1).
                outcome_bind (thread_destroy t1) (\<lambda>_. Returned (a\<lparr>runable := False, a_thread := None\<rparr>))))
      else Returned a)"

text \<open>What every overload of start_async does; the result of start is not looked at.\<close>

definition start_async :: "bool \<Rightarrow> 'v job \<Rightarrow> 'v async \<Rightarrow> 'v async outcome" where
  "start_async created f a =
     outcome_bind (async_check a) (\<lambda>a1.
       case thread_start created (thread_new f) of
         (started, t) \<Rightarrow> Returned (a1\<lparr>runable := True, a_thread := Some t, begun := (if started then begun a1 @ [f] else begun a1)\<rparr>))"

definition async_wait :: "'v async \<Rightarrow> 'v async outcome" where
  "async_wait a =
     (case a_thread a of
        None \<Rightarrow> Undefined
      | Some t \<Rightarrow> outcome_bind (thread_join t) (\<lambda>(ok, t1). Returned (a\<lparr>a_thread := Some t1\<rparr>)))"

definition async_destroy :: "'v async \<Rightarrow> 'v async outcome" where
  "async_destroy a =
     (case a_thread a of
        None \<Rightarrow> Undefined
      | Some t \<Rightarrow>
          outcome_bind (thread_join t) (\<lambda>(ok, t1).
          outcome_bind (thread_destroy t1) (\<lambda>_. Returned (a\<lparr>runable := False, a_thread := None\<rparr>))))"

text \<open>The thread has its turn: \<open>_run_thread\<close> runs the function and ends.\<close>

definition thread_turn :: "'v async \<Rightarrow> 'v async option" where
  "thread_turn a =
     (case a_thread a of
        Some t \<Rightarrow> (case thread_id t of
            Going f \<Rightarrow> Some (a\<lparr>a_thread := Some (t\<lparr>thread_id := Finished\<rparr>), memory := f (memory a), ran := ran a @ [f]\<rparr>)
          | _ \<Rightarrow> None)
      | None \<Rightarrow> None)"

inductive async_reach :: "'v memory \<Rightarrow> 'v async \<Rightarrow> bool" for m where
  new: "async_reach m (AsyncMethod m)"
| start: "async_reach m a \<Longrightarrow> start_async created f a = Returned a' \<Longrightarrow> async_reach m a'"
| wait: "async_reach m a \<Longrightarrow> async_wait a = Returned a' \<Longrightarrow> async_reach m a'"
| turn: "async_reach m a \<Longrightarrow> thread_turn a = Some a' \<Longrightarrow> async_reach m a'"

lemma outcome_bind_Returned: "outcome_bind x g = Returned y \<longleftrightarrow> (\<exists>z. x = Returned z \<and> g z = Returned y)"
  by (cases x) auto

definition async_ok :: "'v memory \<Rightarrow> 'v async \<Rightarrow> bool" where
  "async_ok m a \<longleftrightarrow>
     memory a = run_jobs (ran a) m \<and> (runable a \<longleftrightarrow> a_thread a \<noteq> None) \<and>
     (case a_thread a of
        None \<Rightarrow> begun a = ran a
      | Some t \<Rightarrow>
          thread_joinable t \<and>
          (case thread_id t of
             Going f \<Rightarrow> thread_active t \<and> begun a = ran a @ [f]
           | Finished \<Rightarrow> thread_active t \<and> begun a = ran a
           | _ \<Rightarrow> \<not> thread_active t \<and> begun a = ran a))"

lemma async_check_cases:
  assumes "async_ok m a" "async_check a = Returned a'"
  shows "async_ok m a' \<and> a_thread a' = None \<and> begun a' = begun a"
proof (cases "runable a")
  case True
  with assms(1) obtain t where t: "a_thread a = Some t" by (auto simp: async_ok_def)
  with True assms(2) obtain ok t1 where t1: "thread_join t = Returned (ok, t1)" "a' = a\<lparr>runable := False, a_thread := None\<rparr>"
    by (auto simp: async_check_def outcome_bind_Returned)
  with t assms(1) show ?thesis by (auto simp: async_ok_def thread_join_def split: tid.splits if_splits)
next
  case False
  with assms show ?thesis by (auto simp: async_check_def async_ok_def)
qed

lemma async_ok_reach: "async_reach m a \<Longrightarrow> async_ok m a"
proof (induction rule: async_reach.induct)
  case new
  show ?case by (simp add: async_ok_def AsyncMethod_def run_jobs_def)
next
  case (start a created f a')
  then obtain a1 where a1: "async_check a = Returned a1"
    "a' = a1\<lparr>runable := True, a_thread := Some (snd (thread_start created (thread_new f))),
       begun := (if created then begun a1 @ [f] else begun a1)\<rparr>"
    by (auto simp: start_async_def outcome_bind_Returned thread_start_def thread_new_def Let_def split: if_splits)
  from async_check_cases [OF start.IH a1(1)] a1(2) show ?case
    by (auto simp: async_ok_def thread_start_def thread_new_def Let_def)
next
  case (wait a a')
  then obtain t ok t1 where t: "a_thread a = Some t" "thread_join t = Returned (ok, t1)" "a' = a\<lparr>a_thread := Some t1\<rparr>"
    by (auto simp: async_wait_def outcome_bind_Returned split: option.splits)
  with wait.IH show ?case by (auto simp: async_ok_def thread_join_def split: tid.splits if_splits)
next
  case (turn a a')
  then obtain t f where t: "a_thread a = Some t" "thread_id t = Going f"
    "a' = a\<lparr>a_thread := Some (t\<lparr>thread_id := Finished\<rparr>), memory := f (memory a), ran := ran a @ [f]\<rparr>"
    by (auto simp: thread_turn_def split: option.splits tid.splits)
  with turn.IH show ?case by (auto simp: async_ok_def run_jobs_def)
qed

text \<open>The state once the thread had its turn, when it has one.\<close>

definition let_run :: "'v async \<Rightarrow> 'v async" where
  "let_run a = (case thread_turn a of Some a' \<Rightarrow> a' | None \<Rightarrow> a)"

definition underway :: "'v async \<Rightarrow> bool" where
  "underway a \<longleftrightarrow> (case a_thread a of Some t \<Rightarrow> (case thread_id t of Going f \<Rightarrow> True | Finished \<Rightarrow> True | _ \<Rightarrow> False) | None \<Rightarrow> False)"

text \<open>
  C40: The functions that an AsyncMethod got a thread for run one after the other in the order they
  were started, each once: after any sequence of calls and turns the ones that ran are all that were
  begun, or all but the last, and the memory is what they left in this order. When the last call of
  start_async got its thread and wait was not called since, the destructor blocks until the last
  function has run and then returns, with the effects of all in memory; otherwise (nothing started
  yet, no thread created, or wait called) all functions that were begun have run, and the destructor
  joins a thread that is not there, which is undefined.
\<close>

theorem async_runs_in_order:
  assumes "async_reach m a"
  shows "memory a = run_jobs (ran a) m \<and> (ran a = begun a \<or> begun a \<noteq> [] \<and> ran a = butlast (begun a)) \<and>
    (if underway a
     then (\<exists>a'. async_destroy (let_run a) = Returned a' \<and> ran a' = begun a \<and> memory a' = run_jobs (begun a) m)
       \<and> (ran a \<noteq> begun a \<longrightarrow> async_destroy a = Blocked)
     else ran a = begun a \<and> async_destroy a = Undefined)"
proof -
  note ok = async_ok_reach [OF assms]
  note defs = async_ok_def underway_def let_run_def thread_turn_def async_destroy_def thread_join_def thread_destroy_def
  show ?thesis
  proof (cases "a_thread a")
    case None
    with ok show ?thesis by (simp add: defs)
  next
    case (Some t)
    with ok show ?thesis by (cases "thread_id t") (auto simp: defs run_jobs_def)
  qed
qed

text \<open>
  Once wait has returned the object cannot be used any more and cannot even be destroyed: every
  call, the destructor included, joins the thread that wait has joined, which is undefined.
\<close>

theorem async_wait_spoils:
  assumes "async_reach m a" "async_wait a = Returned a'"
  shows "async_destroy a' = Undefined \<and> async_wait a' = Undefined \<and> start_async created f a' = Undefined"
proof -
  from assms(2) obtain t ok t1 where t: "a_thread a = Some t" "thread_join t = Returned (ok, t1)" "a' = a\<lparr>a_thread := Some t1\<rparr>"
    by (auto simp: async_wait_def outcome_bind_Returned split: option.splits)
  with async_ok_reach [OF assms(1)] have "thread_join t1 = Undefined" "runable a"
    by (auto simp: async_ok_def thread_join_def split: tid.splits if_splits)
  with t(3) show ?thesis by (simp add: async_destroy_def async_wait_def start_async_def async_check_def)
qed

text \<open>So it is for an object that started nothing, and for one whose thread could not be created.\<close>

lemma unused_async: "async_destroy (AsyncMethod m) = Undefined" "async_wait (AsyncMethod m) = Undefined"
  by (simp_all add: async_destroy_def async_wait_def AsyncMethod_def)

lemma uncreated_async: "start_async False f (AsyncMethod m) = Returned a \<Longrightarrow> async_destroy a = Undefined"
  by (auto simp: start_async_def async_check_def AsyncMethod_def thread_start_def thread_new_def Let_def async_destroy_def thread_join_def)

section \<open>Example\<close>

text \<open>Two functions: one gives the sum of its arguments at address 0, one doubles what it finds there.\<close>

definition two_started :: "int async outcome" where
  "two_started =
     outcome_bind (start_async True (RA2Runable (\<lambda>x y m. (x + y, m)) 3 4 0) (AsyncMethod (\<lambda>p. 0))) (\<lambda>a.
     start_async True (RVRunable (\<lambda>m. (2 * m 0, m)) 0) (let_run a))"

lemma two_started_runs:
  obtains a where "two_started = Returned a" "async_reach (\<lambda>p. 0) a" "underway a" "run_jobs (begun a) (\<lambda>p. 0) 0 = 14"
proof -
  let ?m = "\<lambda>p. 0 :: int" and ?f = "RA2Runable (\<lambda>x y m. (x + y, m)) 3 4 0 :: int job" and ?g = "RVRunable (\<lambda>m. (2 * m 0, m)) 0 :: int job"
  obtain a1 where a1: "start_async True ?f (AsyncMethod ?m) = Returned a1"
    by (simp add: start_async_def async_check_def AsyncMethod_def thread_start_def thread_new_def Let_def)
  obtain a2 where a2: "thread_turn a1 = Some a2"
    using a1 by (auto simp: start_async_def async_check_def AsyncMethod_def thread_start_def thread_new_def Let_def thread_turn_def)
  obtain a3 where a3: "start_async True ?g a2 = Returned a3" "underway a3" "begun a3 = [?f, ?g]"
    using a1 a2 by (auto simp: start_async_def async_check_def AsyncMethod_def thread_start_def thread_new_def Let_def thread_turn_def
        thread_join_def thread_destroy_def underway_def)
  have "two_started = Returned a3" using a1 a2 a3(1) by (simp add: two_started_def let_run_def)
  moreover have "async_reach ?m a3"
    by (rule async_reach.start [OF async_reach.turn [OF async_reach.start [OF async_reach.new a1] a2] a3(1)])
  moreover have "run_jobs (begun a3) ?m 0 = 14"
    unfolding a3(3) by (simp add: run_jobs_def RA2Runable_def RVRunable_def store_result_def)
  ultimately show ?thesis using that a3(2) by blast
qed

theorem async_runs_in_order_witness:
  "\<exists>a a'. two_started = Returned a \<and> async_destroy (let_run a) = Returned a' \<and> memory a' 0 = 14"
proof -
  obtain a where a: "two_started = Returned a" "async_reach (\<lambda>p. 0) a" "underway a" "run_jobs (begun a) (\<lambda>p. 0) 0 = 14"
    by (rule two_started_runs)
  from async_runs_in_order [OF a(2)] a(1,3,4) show ?thesis by auto
qed

theorem async_wait_spoils_witness:
  "\<exists>a a'. two_started = Returned a \<and> async_wait (let_run a) = Returned a' \<and> async_destroy a' = Undefined"
proof -
  obtain a where a: "two_started = Returned a" "async_reach (\<lambda>p. 0) a" "underway a" by (rule two_started_runs)
  have r: "async_reach (\<lambda>p. 0) (let_run a)"
    using a(2) by (auto simp: let_run_def intro: async_reach.turn split: option.split)
  obtain a' where w: "async_wait (let_run a) = Returned a'"
    using a(3) async_ok_reach [OF r] async_ok_reach [OF a(2)]
    by (auto simp: underway_def let_run_def thread_turn_def async_wait_def thread_join_def async_ok_def split: option.splits tid.splits)
  from async_wait_spoils [OF r w] a(1) w show ?thesis by blast
qed

text \<open>Two jobs and one thread.\<close>

definition two_jobs :: "int job pool" where
  "two_jobs = pool_add (RVJob (\<lambda>m. (5, m)) 1) (pool_add (RA1Job (\<lambda>x m. (x * x, m)) 3 0) (pool_init 1 1 2))"

lemma two_jobs_reach: "pool_reach 1 1 2 two_jobs"
  unfolding two_jobs_def by (rule pool_reach.step [OF pool_reach.step [OF pool_reach.start pool_step.add] pool_step.add])

lemma two_jobs_state:
  "\<not> destroying two_jobs \<and> no_producer (task_queue two_jobs) \<and>
   jobs_added two_jobs = [RA1Job (\<lambda>x m. (x * x, m)) 3 0, RVJob (\<lambda>m. (5, m)) 1] \<and> workers two_jobs = [Checking]"
  by (simp add: two_jobs_def pool_add_def pool_init_def Let_def no_producer_def queue_push_def queue_init_def queue_enter_def
      notify_empty_def)

theorem pool_delivers_results_witness:
  "\<exists>p. pool_own\<^sup>*\<^sup>* (destroy_begin TP_POSTPONED_SHUTDOWN two_jobs) p \<and> pool_stop p \<and>
     run_jobs (jobs_finished p) (\<lambda>a. 0) 0 = 9 \<and> run_jobs (jobs_finished p) (\<lambda>a. 0) 1 = 5"
proof -
  let ?p = "destroy_begin TP_POSTPONED_SHUTDOWN two_jobs"
  have "not_destroyed 1 two_jobs" by (rule not_destroyed_reach [OF two_jobs_reach]) simp
  then have "running_down ?p" using two_jobs_state by (auto simp: not_destroyed_def running_down_def destroy_begin_def)
  from pool_end.rest_reached [OF this] obtain p' where r: "pool_own\<^sup>*\<^sup>* ?p p'" "\<nexists>p''. pool_own p' p''" by blast
  from r(1) obtain j where j: "(pool_own ^^ j) ?p p'" by (auto dest: rtranclp_imp_relpowp)
  have "list_all2 delivers [(0, 9), (1, 5)] (jobs_added two_jobs)"
    using two_jobs_state jobs_deliver(1) [of 1 "5 :: int"] jobs_deliver(3) [of 0 "\<lambda>x. x * x" "3 :: int"] by simp
  from pool_delivers_results [OF two_jobs_reach _ _ _ _ this _ j] r(2) two_jobs_state
  have "pool_stop p' \<and> run_jobs (jobs_finished p') (\<lambda>a. 0) 0 = 9 \<and> run_jobs (jobs_finished p') (\<lambda>a. 0) 1 = 5" by simp
  with r(1) show ?thesis by blast
qed

end
