(* ===== verification/Saf_Varstring.thy ===== *)
theory Saf_Varstring
  imports Saf_Map Saf_Prelude
begin

text \<open>
  The string helpers of the Google Drive library under providers/gdrive/include:
  common/varstring.hpp (the growing buffer VarString and its functions on strings),
  common/path.hpp, common/property.hpp and the percent encoding of gdrive/util.hpp.
\<close>

section \<open>The buffer\<close>

text \<open>
  The block of memory at \<open>_p\<close>, whose bytes are None until they are written, the distance of
  \<open>_cur\<close> from \<open>_p\<close>, and \<open>_capacity\<close>, an int.
\<close>

record varstring =
  vs_block :: "char option list"
  vs_cur :: int
  vs_capacity :: int

definition BUFSIZE :: nat where
  "BUFSIZE = 1024"

definition vs_new :: varstring where
  "vs_new = \<lparr>vs_block = replicate BUFSIZE None, vs_cur = 0, vs_capacity = int BUFSIZE\<rparr>"

text \<open>None stands for undefined behaviour: a write outside the block, an int that overflows.\<close>

definition INT_MAX :: int where
  "INT_MAX = 2147483647"

definition vs_write :: "string \<Rightarrow> varstring \<Rightarrow> varstring option" where
  "vs_write s v =
     (if 0 \<le> vs_cur v \<and> vs_cur v + int (length s) \<le> int (length (vs_block v))
      then (let n = nat (vs_cur v)
            in Some (v\<lparr>vs_block := take n (vs_block v) @ map Some s @ drop (n + length s) (vs_block v),
                       vs_cur := vs_cur v + int (length s)\<rparr>))
      else None)"

definition vs_realloc :: "int \<Rightarrow> int \<Rightarrow> varstring \<Rightarrow> varstring option" where
  "vs_realloc n cur v =
     (if 0 < n \<and> n \<le> INT_MAX
      then Some \<lparr>vs_block = take (nat n) (vs_block v) @ replicate (nat n - length (vs_block v)) None,
                 vs_cur = cur, vs_capacity = n\<rparr>
      else None)"

definition append_char :: "char \<Rightarrow> varstring \<Rightarrow> varstring option" where
  "append_char c v =
     (if vs_cur v = vs_capacity v - 1
      then Option.bind (vs_realloc (vs_capacity v * 2) (vs_capacity v - 1) v) (vs_write [c])
      else vs_write [c] v)"

definition append_n :: "string \<Rightarrow> varstring \<Rightarrow> varstring option" where
  "append_n p v =
     (let n = int (length p)
      in if vs_cur v + n > vs_capacity v - 1
         then Option.bind
                (vs_realloc (if vs_cur v + n < vs_capacity v * 2 - 1 then vs_capacity v * 2 else vs_cur v + n + int BUFSIZE)
                   (vs_cur v) v)
                (vs_write p)
         else vs_write p v)"

text \<open>c_str, and what strlen sees of it.\<close>

definition c_str :: "string \<Rightarrow> string" where
  "c_str s = takeWhile (\<lambda>c. c \<noteq> CHR 0x00) s"

definition append_str :: "string \<Rightarrow> varstring \<Rightarrow> varstring option" where
  "append_str s = append_n (c_str s)"

definition drop_one :: "varstring \<Rightarrow> varstring" where
  "drop_one v = (if vs_cur v \<noteq> 0 then v\<lparr>vs_cur := vs_cur v - 1\<rparr> else v)"

text \<open>The length is unsigned: \<open>_p - _cur\<close> is negative and wraps around.\<close>

definition drop_len :: "32 word \<Rightarrow> varstring \<Rightarrow> varstring" where
  "drop_len len v =
     (let len' = (if vs_cur v - uint len < 0 then word_of_int (- vs_cur v) else len)
      in v\<lparr>vs_cur := vs_cur v - uint len'\<rparr>)"

definition vs_clear :: "varstring \<Rightarrow> varstring" where
  "vs_clear v = v\<lparr>vs_cur := 0\<rparr>"

definition toString :: "varstring \<Rightarrow> string option" where
  "toString v =
     (if 0 \<le> vs_cur v \<and> vs_cur v \<le> int (length (vs_block v))
      then those (take (nat (vs_cur v)) (vs_block v)) else None)"

text \<open>The calls a function makes on its buffer, one after the other.\<close>

datatype vs_op = Append_char char | Append_str string | Drop_one | Drop_len "32 word" | Clear

fun vs_do :: "vs_op \<Rightarrow> varstring \<Rightarrow> varstring option" where
  "vs_do (Append_char c) v = append_char c v"
| "vs_do (Append_str s) v = append_str s v"
| "vs_do Drop_one v = Some (drop_one v)"
| "vs_do (Drop_len n) v = Some (drop_len n v)"
| "vs_do Clear v = Some (vs_clear v)"

text \<open>The overloads that append several pieces.\<close>

definition append_str_char :: "string \<Rightarrow> char \<Rightarrow> varstring \<Rightarrow> varstring option" where
  "append_str_char p c v = Option.bind (append_str p v) (append_char c)"

definition append_str_char_str :: "string \<Rightarrow> char \<Rightarrow> string \<Rightarrow> varstring \<Rightarrow> varstring option" where
  "append_str_char_str p1 c p2 v = Option.bind (Option.bind (append_str p1 v) (append_char c)) (append_str p2)"

fun vs_run :: "vs_op list \<Rightarrow> varstring \<Rightarrow> varstring option" where
  "vs_run [] v = Some v"
| "vs_run (x # xs) v = Option.bind (vs_do x v) (vs_run xs)"

lemma vs_run_fun: "vs_run [] = Some" "vs_run (x # xs) = (\<lambda>v. Option.bind (vs_do x v) (vs_run xs))"
  by (simp_all add: fun_eq_iff)

lemma append_pieces:
  "append_str_char p c v = vs_run [Append_str p, Append_char c] v"
  "append_str_char_str p1 c p2 v = vs_run [Append_str p1, Append_char c, Append_str p2] v"
  by (simp_all add: append_str_char_def append_str_char_str_def vs_run_fun del: vs_run.simps)

definition vs_text :: "vs_op list \<Rightarrow> string option" where
  "vs_text xs = Option.bind (vs_run xs vs_new) toString"

section \<open>What a buffer promises\<close>

text \<open>The operations on the text alone; a drop longer than the text has no meaning.\<close>

fun text_do :: "vs_op \<Rightarrow> string \<Rightarrow> string option" where
  "text_do (Append_char c) t = Some (t @ [c])"
| "text_do (Append_str s) t = Some (t @ c_str s)"
| "text_do Drop_one t = Some (butlast t)"
| "text_do (Drop_len n) t = (if unat n \<le> length t then Some (take (length t - unat n) t) else None)"
| "text_do Clear t = Some []"

fun text_run :: "vs_op list \<Rightarrow> string \<Rightarrow> string option" where
  "text_run [] t = Some t"
| "text_run (x # xs) t = Option.bind (text_do x t) (text_run xs)"

fun op_length :: "vs_op \<Rightarrow> nat" where
  "op_length (Append_char c) = 1"
| "op_length (Append_str s) = length (c_str s)"
| "op_length _ = 0"

text \<open>
  The buffer holds the text t, with room for one more byte, and its capacity is bounded by the
  number k of bytes that were ever appended.
\<close>

definition holds :: "nat \<Rightarrow> varstring \<Rightarrow> string \<Rightarrow> bool" where
  "holds k v t \<longleftrightarrow>
     vs_cur v = int (length t) \<and> take (length t) (vs_block v) = map Some t \<and> length t \<le> k \<and>
     int (length (vs_block v)) = vs_capacity v \<and> int (length t) < vs_capacity v \<and> vs_capacity v \<le> 2 * int k + int BUFSIZE"

lemma holds_new: "holds 0 vs_new []"
  by (simp add: holds_def vs_new_def BUFSIZE_def)

lemma holds_less: "holds k v t \<Longrightarrow> k \<le> k' \<Longrightarrow> holds k' v t"
  by (auto simp: holds_def)

lemma those_some [simp]: "those (map Some xs) = Some xs"
  by (induction xs) auto

lemma holds_text: "holds k v t \<Longrightarrow> toString v = Some t"
  by (auto simp: holds_def toString_def)

lemma holds_write:
  assumes "holds k v t" "int (length t + length s) < vs_capacity v" "length t + length s \<le> k'" "k \<le> k'"
  shows "\<exists>v'. vs_write s v = Some v' \<and> holds k' v' (t @ s)"
proof -
  from assms have "length t + length s < length (vs_block v)" by (auto simp: holds_def)
  then show ?thesis using assms by (auto simp: holds_def vs_write_def Let_def)
qed

lemma holds_drop:
  assumes "holds k v t" "n \<le> length t"
  shows "holds k (v\<lparr>vs_cur := vs_cur v - int n\<rparr>) (take (length t - n) t)"
proof -
  have "take (length t - n) (vs_block v) = take (length t - n) (take (length t) (vs_block v))" by (simp add: min_def)
  also have "\<dots> = map Some (take (length t - n) t)" using assms(1) by (simp add: holds_def take_map)
  finally show ?thesis using assms by (auto simp: holds_def)
qed

lemma holds_realloc:
  assumes "holds k v t" "int (length t) < n" "n \<le> INT_MAX" "n \<le> 2 * int k' + int BUFSIZE" "k \<le> k'" "vs_capacity v \<le> n"
  shows "\<exists>v'. vs_realloc n (int (length t)) v = Some v' \<and> holds k' v' t \<and> vs_capacity v' = n"
  using assms by (auto simp: holds_def vs_realloc_def min_def)

lemma holds_append_char:
  assumes "holds k v t" "k + 1 < 2 ^ 29"
  shows "\<exists>v'. append_char c v = Some v' \<and> holds (k + 1) v' (t @ [c])"
proof (cases "vs_cur v = vs_capacity v - 1")
  case True
  with assms have cap: "vs_capacity v = int (length t) + 1" "length t \<le> k" by (auto simp: holds_def)
  with assms obtain v1 where v1: "vs_realloc (vs_capacity v * 2) (int (length t)) v = Some v1" "holds k v1 t"
    "vs_capacity v1 = vs_capacity v * 2"
    using holds_realloc [OF assms(1), of "vs_capacity v * 2" k] by (auto simp: INT_MAX_def BUFSIZE_def)
  from v1(3) cap have "int (length t + length [c]) < vs_capacity v1" by simp
  from holds_write [OF v1(2) this, of "k + 1"] v1(1) True cap show ?thesis by (simp add: append_char_def)
next
  case False
  with assms have "int (length t + length [c]) < vs_capacity v" by (auto simp: holds_def)
  from holds_write [OF assms(1) this, of "k + 1"] assms(1) False show ?thesis by (simp add: append_char_def holds_def)
qed

lemma holds_append_n:
  assumes "holds k v t" "k + length p < 2 ^ 29"
  shows "\<exists>v'. append_n p v = Some v' \<and> holds (k + length p) v' (t @ p)"
proof (cases "vs_cur v + int (length p) > vs_capacity v - 1")
  case True
  define n where "n = (if vs_cur v + int (length p) < vs_capacity v * 2 - 1 then vs_capacity v * 2
    else vs_cur v + int (length p) + int BUFSIZE)"
  from assms True have n: "int (length t) < n" "n \<le> INT_MAX" "n \<le> 2 * int (k + length p) + int BUFSIZE" "vs_capacity v \<le> n"
    "int (length t + length p) < n" "vs_cur v = int (length t)"
    by (auto simp: holds_def n_def INT_MAX_def BUFSIZE_def)
  from holds_realloc [OF assms(1) n(1-3) _ n(4)] obtain v1 where
    v1: "vs_realloc n (int (length t)) v = Some v1" "holds (k + length p) v1 t" "vs_capacity v1 = n" by auto
  have "append_n p v = Option.bind (vs_realloc n (int (length t)) v) (vs_write p)"
    using True n(6) by (simp add: append_n_def n_def)
  moreover have "\<exists>v'. vs_write p v1 = Some v' \<and> holds (k + length p) v' (t @ p)"
    using holds_write [OF v1(2), of p "k + length p"] v1(3) n(5) assms(1) by (simp add: holds_def)
  ultimately show ?thesis using v1(1) by simp
next
  case False
  with assms have "int (length t + length p) < vs_capacity v" by (auto simp: holds_def)
  from holds_write [OF assms(1) this, of "k + length p"] assms(1) False show ?thesis by (simp add: append_n_def holds_def)
qed

lemma holds_do:
  assumes "holds k v t" "text_do x t = Some t'" "k + op_length x < 2 ^ 29"
  shows "\<exists>v'. vs_do x v = Some v' \<and> holds (k + op_length x) v' t'"
proof (cases x)
  case (Append_char c)
  with assms holds_append_char [of k v t c] show ?thesis by simp
next
  case (Append_str s)
  with assms holds_append_n [of k v t "c_str s"] show ?thesis by (simp add: append_str_def)
next
  case Drop_one
  with assms holds_drop [OF assms(1), of 1] show ?thesis
    by (cases "t = []") (auto simp: drop_one_def butlast_conv_take holds_def Suc_le_eq)
next
  case (Drop_len n)
  with assms have n: "unat n \<le> length t" "t' = take (length t - unat n) t" by (auto split: if_splits)
  from n(1) have "uint n \<le> int (length t)" by (metis uint_nat of_nat_le_iff)
  with assms(1) have "drop_len n v = v\<lparr>vs_cur := vs_cur v - int (unat n)\<rparr>"
    by (auto simp: drop_len_def holds_def)
  with holds_drop [OF assms(1) n(1)] n(2) Drop_len show ?thesis by simp
next
  case Clear
  with assms show ?thesis by (auto simp: holds_def vs_clear_def)
qed

lemma holds_run:
  "holds k v t \<Longrightarrow> text_run xs t = Some t' \<Longrightarrow> k + sum_list (map op_length xs) < 2 ^ 29 \<Longrightarrow>
   \<exists>v'. vs_run xs v = Some v' \<and> holds (k + sum_list (map op_length xs)) v' t'"
proof (induction xs arbitrary: k v t)
  case (Cons x xs)
  then obtain t1 where t1: "text_do x t = Some t1" "text_run xs t1 = Some t'" by (auto simp: bind_eq_Some_conv)
  from holds_do [OF Cons.prems(1) t1(1)] Cons.prems(3) obtain v1 where
    v1: "vs_do x v = Some v1" "holds (k + op_length x) v1 t1" by auto
  from Cons.IH [OF v1(2) t1(2)] Cons.prems(3) v1(1) show ?case by (simp add: add.assoc)
qed auto

lemma vs_text_is_text:
  assumes "text_run xs [] = Some t" "sum_list (map op_length xs) < 2 ^ 29"
  shows "vs_text xs = Some t"
proof -
  from holds_run [OF holds_new assms(1)] assms(2) obtain v where "vs_run xs vs_new = Some v" "holds (sum_list (map op_length xs)) v t"
    by auto
  then show ?thesis by (simp add: vs_text_def holds_text)
qed

text \<open>A drop longer than the text throws the cursor out of the block.\<close>

lemma drop_too_much: "vs_cur v = 3 \<Longrightarrow> vs_cur (drop_len 5 v) = 6 - 2 ^ 32"
  by (simp add: drop_len_def)

section \<open>Functions on strings\<close>

definition vs_tolower :: "string \<Rightarrow> string" where
  "vs_tolower s = map (\<lambda>c. if c \<le> CHR ''Z'' \<and> CHR ''A'' \<le> c then char_of ((of_char c :: nat) + 32) else c) s"

definition vs_toupper :: "string \<Rightarrow> string" where
  "vs_toupper s = map (\<lambda>c. if c \<le> CHR ''z'' \<and> CHR ''a'' \<le> c then char_of ((of_char c :: nat) - 32) else c) s"

definition itos :: "32 word \<Rightarrow> string" where
  "itos i = int_str (sint i)"

text \<open>The std::set is the sorted list of its elements.\<close>

definition vs_join :: "string list \<Rightarrow> string \<Rightarrow> string option" where
  "vs_join xs sep =
     (if xs = [] then Some []
      else vs_text (concat (map (\<lambda>s. [Append_str s, Append_str sep]) xs) @ [Drop_len (word_of_nat (length sep))]))"

text \<open>Each turn continues behind the delimiter it found; an empty one is found again for ever.\<close>

partial_function (option) vs_split :: "string \<Rightarrow> string \<Rightarrow> string list option" where
  "vs_split delim s =
     (case str_find delim s of
        None \<Rightarrow> Some [s]
      | Some n \<Rightarrow> Option.bind (vs_split delim (drop (n + length delim) s)) (\<lambda>r. Some (take n s # r)))"

definition starts_with :: "string \<Rightarrow> string \<Rightarrow> bool" where
  "starts_with s p \<longleftrightarrow> take (length p) s = p"

text \<open>The loop reads \<open>str\<close> from its end backwards and does not look at its length: None is a read before its first byte.\<close>

fun ends_loop :: "string \<Rightarrow> string \<Rightarrow> bool option" where
  "ends_loop s [] = Some True"
| "ends_loop [] (q # qs) = None"
| "ends_loop (c # s) (q # qs) = (if c \<noteq> q then Some False else ends_loop s qs)"

definition ends_with :: "string \<Rightarrow> string \<Rightarrow> bool option" where
  "ends_with s p = ends_loop (rev s) (rev p)"

definition is_space :: "char \<Rightarrow> bool" where
  "is_space c \<longleftrightarrow> c \<in> {CHR '' '', CHR 0x09, CHR 0x0A, CHR 0x0B, CHR 0x0C, CHR 0x0D}"

definition lstrip :: "string \<Rightarrow> string" where
  "lstrip s = dropWhile is_space s"

definition rstrip :: "string \<Rightarrow> string" where
  "rstrip s = rev (dropWhile is_space (rev s))"

definition strip :: "string \<Rightarrow> string" where
  "strip s = rstrip (lstrip s)"

section \<open>Joining and splitting\<close>

lemma text_run_append: "text_run (xs @ ys) t = Option.bind (text_run xs t) (text_run ys)"
  by (induction xs arbitrary: t) (auto split: bind_split)

lemma c_str_id: "CHR 0x00 \<notin> set s \<Longrightarrow> c_str s = s"
  unfolding c_str_def by (auto simp: takeWhile_eq_all_conv)

text \<open>The text of a join, with its separators only between the parts.\<close>

fun joined :: "string \<Rightarrow> string list \<Rightarrow> string" where
  "joined sep [] = []"
| "joined sep [x] = x"
| "joined sep (x # y # xs) = x @ sep @ joined sep (y # xs)"

lemma text_of_parts:
  "(\<forall>x \<in> set (sep # xs). CHR 0x00 \<notin> set x) \<Longrightarrow>
   text_run (concat (map (\<lambda>s. [Append_str s, Append_str sep]) xs)) t = Some (t @ concat (map (\<lambda>s. s @ sep) xs))"
  by (induction xs arbitrary: t) (auto simp: c_str_id)

lemma joined_sep: "xs \<noteq> [] \<Longrightarrow> concat (map (\<lambda>s. s @ sep) xs) = joined sep xs @ sep"
  by (induction sep xs rule: joined.induct) auto

lemma length_parts: "sum_list (map op_length (concat (map (\<lambda>s. [Append_str s, Append_str sep]) xs))) \<le> length (concat (map (\<lambda>s. s @ sep) xs))"
proof (induction xs)
  case (Cons x xs)
  have "length (c_str y) \<le> length y" for y by (simp add: c_str_def length_takeWhile_le)
  from this [of x] this [of sep] Cons show ?case by simp
qed auto

lemma vs_join_text:
  assumes "xs \<noteq> []" "\<forall>x \<in> set (sep # xs). CHR 0x00 \<notin> set x" "length (joined sep xs) + length sep < 2 ^ 29"
  shows "vs_join xs sep = Some (joined sep xs)"
proof -
  from assms(3) have "unat (word_of_nat (length sep) :: 32 word) = length sep" by (simp add: unat_of_nat take_bit_nat_eq_self)
  with assms have "text_run (concat (map (\<lambda>s. [Append_str s, Append_str sep]) xs) @ [Drop_len (word_of_nat (length sep))]) [] = Some (joined sep xs)"
    by (simp add: text_run_append text_of_parts joined_sep)
  moreover have "sum_list (map op_length (concat (map (\<lambda>s. [Append_str s, Append_str sep]) xs) @ [Drop_len (word_of_nat (length sep))])) < 2 ^ 29"
    using length_parts [of sep xs] assms(1,3) by (simp add: joined_sep)
  ultimately show ?thesis using assms(1) by (simp add: vs_join_def vs_text_is_text)
qed

lemma vs_split_none: "str_find delim s = None \<Longrightarrow> vs_split delim s = Some [s]"
  by (subst vs_split.simps) simp

lemma vs_split_char: "c \<notin> set u \<Longrightarrow> vs_split [c] (u @ c # v) = Option.bind (vs_split [c] v) (\<lambda>r. Some (u # r))"
  by (subst vs_split.simps) (simp add: str_find_char)

lemma str_find_no_char: "c \<notin> set s \<Longrightarrow> str_find [c] s = None"
  by (induction s) auto

lemma split_joined: "xs \<noteq> [] \<Longrightarrow> \<forall>x \<in> set xs. c \<notin> set x \<Longrightarrow> vs_split [c] (joined [c] xs) = Some xs"
  by (induction "[c]" xs rule: joined.induct) (auto simp: vs_split_none str_find_no_char vs_split_char)

lemma vs_split_total: "delim \<noteq> [] \<Longrightarrow> \<exists>r. vs_split delim s = Some r"
proof (induction "length s" arbitrary: s rule: less_induct)
  case less
  show ?case
  proof (cases "str_find delim s")
    case None
    then show ?thesis by (simp add: vs_split_none)
  next
    case (Some n)
    from str_find_Some_split [OF this] less.prems have "length (drop (n + length delim) s) < length s" by auto
    from less.hyps [OF this less.prems] Some show ?thesis by (subst vs_split.simps) auto
  qed
qed

lemma vs_split_delim: "vs_split delim s = Some r \<Longrightarrow> delim \<noteq> []"
proof (erule vs_split.raw_induct [where P = "\<lambda>d s r. d \<noteq> []", rotated])
  fix f :: "string \<Rightarrow> string \<Rightarrow> string list option" and d s r
  assume ih: "\<And>d s r. f d s = Some r \<Longrightarrow> d \<noteq> []"
    and body: "(case str_find d s of None \<Rightarrow> Some [s]
      | Some n \<Rightarrow> Option.bind (f d (drop (n + length d) s)) (\<lambda>r. Some (take n s # r))) = Some r"
  have "str_find [] s \<noteq> None" by (cases s) auto
  with body ih show "d \<noteq> []" by (auto simp: bind_eq_Some_conv split: option.splits)
qed

lemma length_joined: "xs \<noteq> [] \<Longrightarrow> length (joined sep xs) + length sep = sum_list (map length xs) + length xs * length sep"
  by (induction sep xs rule: joined.induct) auto

text \<open>
  What VarString::join writes, VarString::split reads back: the set's strings in their order,
  for a separator of one character that is in none of them.
\<close>

theorem join_split_roundtrip:
  assumes "xs \<noteq> []" "\<forall>x \<in> set xs. CHR 0x00 \<notin> set x \<and> c \<notin> set x" "c \<noteq> CHR 0x00"
    "sum_list (map length xs) + length xs < 2 ^ 29"
  shows "Option.bind (vs_join xs [c]) (vs_split [c]) = Some xs"
proof -
  have "vs_join xs [c] = Some (joined [c] xs)"
    using assms length_joined [of xs "[c]"] by (intro vs_join_text) auto
  with assms split_joined [of xs c] show ?thesis by simp
qed

theorem join_split_roundtrip_witness:
  "Option.bind (vs_join [''folder-a'', ''folder-b'', ''root''] '','') (vs_split '','') = Some [''folder-a'', ''folder-b'', ''root'']"
  by (rule join_split_roundtrip) simp_all

end
