(* ===== verification/Saf_Texts.thy ===== *)
theory Saf_Texts
  imports Saf_Varstring
begin

text \<open>
  Paths, property files and query texts of the Google Drive library: common/path.hpp,
  common/property.hpp and the class URLHelper of gdrive/util.hpp.
\<close>

section \<open>Path\<close>

definition path_sep :: char where
  "path_sep = CHR ''/''"

definition lib_path_split :: "string \<Rightarrow> string \<times> string" where
  "lib_path_split path =
     (case chr_rfind path_sep path of None \<Rightarrow> ([], path) | Some pos \<Rightarrow> (take pos path, drop (Suc pos) path))"

definition lib_path_join :: "string \<Rightarrow> string \<Rightarrow> string option" where
  "lib_path_join dir base =
     (if starts_with base [path_sep] then Some base
      else case ends_with dir [path_sep] of
             None \<Rightarrow> None
           | Some True \<Rightarrow> Some (dir @ base)
           | Some False \<Rightarrow> Some (dir @ [path_sep] @ base))"

definition path_basename :: "string \<Rightarrow> string" where
  "path_basename path = fst (lib_path_split path)"

definition path_dirname :: "string \<Rightarrow> string" where
  "path_dirname path = snd (lib_path_split path)"

definition path_splitext :: "string \<Rightarrow> string \<times> string" where
  "path_splitext path =
     (case chr_rfind (CHR ''.'') path of None \<Rightarrow> (path, []) | Some pos \<Rightarrow> (take pos path, drop pos path))"

lemma ends_with_char: "s \<noteq> [] \<Longrightarrow> ends_with s [c] = Some (last s = c)"
  by (cases s rule: rev_cases) (auto simp: ends_with_def)

text \<open>
  Path::split takes apart what Path::join puts together, and Path::join restores a path that
  Path::split took apart, for a directory that is not empty and does not end in a slash.
\<close>

theorem path_split_join:
  assumes "d \<noteq> []" "last d \<noteq> path_sep" "path_sep \<notin> set b"
  shows "map_option lib_path_split (lib_path_join d b) = Some (d, b) \<and> (lib_path_split p = (d, b) \<longrightarrow> lib_path_join d b = Some p)"
proof (intro conjI impI)
  have no_root: "\<not> starts_with b [path_sep]" using assms(3) by (cases b) (auto simp: starts_with_def)
  have join: "lib_path_join d b = Some (d @ path_sep # b)"
    using no_root assms(1,2) by (simp add: lib_path_join_def ends_with_char)
  show "map_option lib_path_split (lib_path_join d b) = Some (d, b)" using join
    using assms(3) by (simp add: lib_path_split_def chr_rfind_append)
  assume split: "lib_path_split p = (d, b)"
  show "lib_path_join d b = Some p"
  proof (cases "path_sep \<in> set p")
    case True
    then obtain u v where "p = u @ path_sep # v" "path_sep \<notin> set v" by (rule chr_split_last)
    with split join show ?thesis by (auto simp: lib_path_split_def chr_rfind_append)
  next
    case False
    then have "chr_rfind path_sep p = None" by simp
    with split assms(1) show ?thesis by (simp add: lib_path_split_def)
  qed
qed

text \<open>The names are exchanged: basename gives the directory.\<close>

lemma basename_is_directory: "path_basename ''/media/usb/a.txt'' = ''/media/usb''" "path_dirname ''/media/usb/a.txt'' = ''a.txt''"
  by code_simp+

text \<open>An empty directory is read before its first byte.\<close>

lemma join_empty_directory: "lib_path_join [] ''a.txt'' = None"
  by code_simp

section \<open>Property\<close>

text \<open>
  getline leaves the stream good only when it found the end of the line: the rest behind the last
  newline is not looked at.
\<close>

function whole_lines :: "string \<Rightarrow> string list" where
  "whole_lines s =
     (case chr_find (CHR 0x0A) s of None \<Rightarrow> [] | Some n \<Rightarrow> take n s # whole_lines (drop (Suc n) s))"
  by auto
termination
proof (relation "measure length")
  fix s n
  assume "chr_find (CHR 0x0A) s = Some n"
  then have "s \<noteq> []" by auto
  then show "(drop (Suc n) s, s) \<in> measure length" by simp
qed simp

declare whole_lines.simps [simp del]

type_synonym properties = "(string, string) omap"

definition property_line :: "string \<Rightarrow> properties \<Rightarrow> properties option" where
  "property_line line m =
     (if line = [] \<or> hd line = CHR ''#'' then Some m
      else case vs_split ''='' line of
             Some (k # v # rest) \<Rightarrow> Some (omap_put (strip k) (strip v) m)
           | Some _ \<Rightarrow> Some m
           | None \<Rightarrow> None)"

fun property_lines :: "string list \<Rightarrow> properties \<Rightarrow> properties option" where
  "property_lines [] m = Some m"
| "property_lines (l # ls) m = Option.bind (property_line l m) (property_lines ls)"

definition property_of_stream :: "string \<Rightarrow> properties option" where
  "property_of_stream text = property_lines (whole_lines text) []"

text \<open>The constructor for a file name opens the file and does not read it.\<close>

definition property_of_file :: "string \<Rightarrow> properties" where
  "property_of_file content = []"

definition property_get :: "properties \<Rightarrow> string \<Rightarrow> string \<Rightarrow> string" where
  "property_get m key d = (case omap_find key m of Some v \<Rightarrow> v | None \<Rightarrow> d)"

definition property_get_bool :: "properties \<Rightarrow> string \<Rightarrow> bool \<Rightarrow> bool" where
  "property_get_bool m key d =
     (let value = property_get m key []
      in if value = [] then d
         else if vs_tolower value = ''false'' \<or> vs_tolower value = ''0'' then False
         else if vs_tolower value = ''true'' \<or> vs_tolower value = ''1'' then True
         else d)"

text \<open>The keys and values that a line \<open>key=value\<close> carries as they are.\<close>

definition plain_entry :: "string \<times> string \<Rightarrow> bool" where
  "plain_entry e \<longleftrightarrow>
     strip (fst e) = fst e \<and> strip (snd e) = snd e \<and> (fst e = [] \<or> hd (fst e) \<noteq> CHR ''#'') \<and>
     CHR ''='' \<notin> set (fst e @ snd e) \<and> CHR 0x0A \<notin> set (fst e @ snd e)"

definition entry_line :: "string \<times> string \<Rightarrow> string" where
  "entry_line e = fst e @ CHR ''='' # snd e"

lemma whole_lines_line: "CHR 0x0A \<notin> set l \<Longrightarrow> whole_lines (l @ CHR 0x0A # rest) = l # whole_lines rest"
  by (subst whole_lines.simps) (simp add: chr_find_append)

lemma whole_lines_rest: "CHR 0x0A \<notin> set l \<Longrightarrow> whole_lines l = []"
  by (subst whole_lines.simps) (simp add: chr_find_None [THEN iffD2])

lemma whole_lines_entries:
  assumes "\<forall>e \<in> set es. plain_entry e" "CHR 0x0A \<notin> set rest"
  shows "whole_lines (concat (map (\<lambda>e. entry_line e @ [CHR 0x0A]) es) @ rest) = map entry_line es"
  using assms(1)
proof (induction es)
  case Nil
  with assms(2) show ?case by (simp add: whole_lines_rest)
next
  case (Cons e es)
  then have "CHR 0x0A \<notin> set (entry_line e)" by (auto simp: plain_entry_def entry_line_def)
  from whole_lines_line [OF this] Cons show ?case by simp
qed

lemma property_line_entry:
  assumes "plain_entry e"
  shows "property_line (entry_line e) m = Some (omap_put (fst e) (snd e) m)"
proof -
  have "vs_split ''='' (entry_line e) = Some [fst e, snd e]"
    using assms by (simp add: plain_entry_def entry_line_def vs_split_char vs_split_none str_find_no_char)
  moreover have "entry_line e \<noteq> []" "hd (entry_line e) \<noteq> CHR ''#''"
    using assms by (auto simp: plain_entry_def entry_line_def hd_append)
  ultimately show ?thesis using assms by (simp add: property_line_def plain_entry_def)
qed

lemma property_lines_entries:
  "\<forall>e \<in> set es. plain_entry e \<Longrightarrow> property_lines (map entry_line es) m = Some (fold (\<lambda>e. omap_put (fst e) (snd e)) es m)"
  by (induction es arbitrary: m) (auto simp: property_line_entry)

lemma find_fold_put:
  "omap_find k (fold (\<lambda>e. omap_put (fst e) (snd e)) es m) = (case map_of (rev es) k of Some v \<Rightarrow> Some v | None \<Rightarrow> omap_find k m)"
  by (induction es arbitrary: m) (auto simp: omap_find_put map_add_def split: option.splits)

text \<open>
  A stream of lines key=value is read back: get gives the value of the last line of a key and
  the default for a key without a line, whatever stands behind the last newline.
\<close>

theorem property_stream_read:
  assumes "\<forall>e \<in> set es. plain_entry e" "CHR 0x0A \<notin> set rest"
  shows "map_option (\<lambda>m. property_get m k d)
     (property_of_stream (concat (map (\<lambda>e. entry_line e @ [CHR 0x0A]) es) @ rest))
     = Some (case map_of (rev es) k of Some v \<Rightarrow> v | None \<Rightarrow> d)"
proof -
  have "omap_find k ([] :: properties) = None" by (simp add: omap_find_def)
  with assms show ?thesis
    by (simp add: property_of_stream_def whole_lines_entries property_lines_entries property_get_def find_fold_put split: option.split)
qed

theorem property_stream_read_witness:
  "map_option (\<lambda>m. property_get m ''client'' [])
     (property_of_stream (concat (map (\<lambda>e. entry_line e @ [CHR 0x0A]) [(''client'', ''a''), (''user'', ''b''), (''client'', ''c d'')] ) @ ''client=e''))
     = Some ''c d''"
  by (subst property_stream_read) (simp_all add: plain_entry_def strip_def lstrip_def rstrip_def is_space_def)

text \<open>A value ends at its second equals sign, and a file is never read.\<close>

lemma value_cut: "map_option (\<lambda>m. property_get m ''url'' []) (property_of_stream (''url=http://h/?a=b'' @ [CHR 0x0A])) = Some ''http://h/?a''"
proof -
  have line: "''url=http://h/?a=b'' = ''url'' @ CHR ''='' # ''http://h/?a'' @ CHR ''='' # ''b''" by simp
  have "vs_split ''='' ''url=http://h/?a=b'' = Some [''url'', ''http://h/?a'', ''b'']"
    unfolding line by (simp add: vs_split_char vs_split_none str_find_no_char del: append.simps)
  moreover have "whole_lines (''url=http://h/?a=b'' @ [CHR 0x0A]) = [''url=http://h/?a=b'']"
    by (subst whole_lines_line) (simp_all add: whole_lines_rest)
  moreover have "strip ''url'' = ''url''" "strip ''http://h/?a'' = ''http://h/?a''" by code_simp+
  ultimately show ?thesis
    by (simp add: property_of_stream_def property_line_def property_get_def omap_find_def del: append.simps)
qed

lemma file_not_read: "property_get (property_of_file ''client=a'') k d = d"
  by (simp add: property_get_def property_of_file_def omap_find_def)

section \<open>Query texts\<close>

definition unsafe :: string where
  "unsafe = '' $&+,/:;=@'' @ [CHR 0x22] @ ''<>#%{}|'' @ [CHR 0x5C] @ ''^~[]'' @ [CHR 0x60]"

definition check_unsafe :: "char \<Rightarrow> bool" where
  "check_unsafe c \<longleftrightarrow> c \<in> set unsafe"

text \<open>\<open>sprintf(tmp, "%02X", c)\<close> of an ASCII character.\<close>

definition hex_digit :: "nat \<Rightarrow> char" where
  "hex_digit n = (if n < 10 then char_of (48 + n) else char_of (55 + n))"

definition hex_byte :: "char \<Rightarrow> string" where
  "hex_byte c = [hex_digit (of_char c div 16), hex_digit (of_char c mod 16)]"

definition encode_ops :: "char \<Rightarrow> vs_op list" where
  "encode_ops c = (if check_unsafe c then [Append_char (CHR ''%''), Append_str (hex_byte c)] else [Append_char c])"

definition url_encode :: "string \<Rightarrow> string option" where
  "url_encode url = vs_text (concat (map encode_ops (c_str url)))"

text \<open>The parts of a body map; the value is encoded by a call of its own, the key is not.\<close>

fun body_ops :: "(string \<times> string) list \<Rightarrow> vs_op list option" where
  "body_ops [] = Some []"
| "body_ops ((k, v) # es) =
     Option.bind (url_encode v) (\<lambda>e.
     Option.bind (body_ops es) (\<lambda>ops. Some ([Append_str k, Append_char (CHR ''=''), Append_str e, Append_char (CHR ''&'')] @ ops)))"

definition query_encode :: "(string, string) omap \<Rightarrow> string option" where
  "query_encode body = (if body = [] then Some [] else Option.bind (body_ops body) (\<lambda>ops. vs_text (ops @ [Drop_one])))"

text \<open>How the text is read by the other side: escapes, then the parts at the ampersands and equals signs.\<close>

definition hex_of :: "char \<Rightarrow> nat" where
  "hex_of c = (if of_char c < (65 :: nat) then of_char c - 48 else of_char c - 55)"

fun percent_decode :: "string \<Rightarrow> string" where
  "percent_decode [] = []"
| "percent_decode (c # s) =
     (case s of
        a # b # r \<Rightarrow> if c = CHR ''%'' then char_of (16 * hex_of a + hex_of b) # percent_decode r else c # percent_decode s
      | _ \<Rightarrow> c # percent_decode s)"

definition read_item :: "string \<Rightarrow> string \<times> string" where
  "read_item t =
     (case chr_find (CHR ''='') t of None \<Rightarrow> (t, []) | Some n \<Rightarrow> (take n t, percent_decode (drop (Suc n) t)))"

definition query_read :: "string \<Rightarrow> (string \<times> string) list option" where
  "query_read t = map_option (map read_item) (vs_split ''&'' t)"

definition escaped :: "char \<Rightarrow> string" where
  "escaped c = (if check_unsafe c then CHR ''%'' # hex_byte c else [c])"

lemma hex_of_digit: "n < 16 \<Longrightarrow> hex_of (hex_digit n) = n"
  by (auto simp: hex_of_def hex_digit_def of_char_of)

lemma unsafe_ascii: "check_unsafe c \<Longrightarrow> of_char c < (128 :: nat)"
  by (auto simp: check_unsafe_def unsafe_def)

lemma hex_byte_back: "16 * hex_of (hex_digit (of_char c div 16)) + hex_of (hex_digit (of_char c mod 16)) = of_char c"
  if "check_unsafe c"
proof -
  from unsafe_ascii [OF that] have "of_char c div 16 < (16 :: nat)" by simp
  then show ?thesis by (simp add: hex_of_digit)
qed

lemma percent_safe: "\<not> check_unsafe c \<Longrightarrow> c \<noteq> CHR ''%''"
  by (auto simp: check_unsafe_def unsafe_def)

lemma percent_decode_other: "c \<noteq> CHR ''%'' \<Longrightarrow> percent_decode (c # s) = c # percent_decode s"
  by (auto split: list.splits)

lemma percent_decode_escape: "percent_decode (CHR ''%'' # a # b # r) = char_of (16 * hex_of a + hex_of b) # percent_decode r"
  by simp

declare percent_decode.simps(2) [simp del]

lemma percent_decode_escaped: "percent_decode (concat (map escaped s)) = s"
proof (induction s)
  case (Cons c s)
  show ?case
  proof (cases "check_unsafe c")
    case True
    with Cons hex_byte_back [OF this] show ?thesis by (simp add: escaped_def hex_byte_def percent_decode_escape)
  next
    case False
    with Cons percent_safe [OF this] show ?thesis by (simp add: escaped_def percent_decode_other)
  qed
qed simp

lemma hex_bytes: "list_all (\<lambda>c. list_all (\<lambda>x. x \<noteq> CHR 0x00 \<and> x \<noteq> CHR ''='' \<and> x \<noteq> CHR ''&'') (hex_byte c)) unsafe"
  by code_simp

lemma hex_byte_chars: "check_unsafe c \<Longrightarrow> set (hex_byte c) \<inter> {CHR 0x00, CHR ''='', CHR ''&''} = {}"
  using hex_bytes by (auto simp: check_unsafe_def list_all_iff)

lemma safe_chars: "\<not> check_unsafe c \<Longrightarrow> c \<noteq> CHR ''='' \<and> c \<noteq> CHR ''&''"
  by (auto simp: check_unsafe_def unsafe_def)

lemma escaped_chars: "CHR ''='' \<notin> set (escaped c) \<and> CHR ''&'' \<notin> set (escaped c) \<and> (CHR 0x00 \<in> set (escaped c) \<longrightarrow> c = CHR 0x00)"
  using hex_byte_chars [of c] safe_chars [of c] by (auto simp: escaped_def)

lemma encode_text: "CHR 0x00 \<notin> set s \<Longrightarrow> text_run (concat (map encode_ops s)) t = Some (t @ concat (map escaped s))"
proof (induction s arbitrary: t)
  case (Cons c s)
  show ?case
  proof (cases "check_unsafe c")
    case True
    with Cons hex_byte_chars [OF this] show ?thesis by (auto simp: escaped_def encode_ops_def c_str_id)
  next
    case False
    with Cons show ?thesis by (simp add: escaped_def encode_ops_def)
  qed
qed simp

lemma encode_size: "sum_list (map op_length (concat (map encode_ops s))) \<le> 3 * length s"
proof (induction s)
  case (Cons c s)
  have "length (c_str (hex_byte c)) \<le> 2" by (simp add: c_str_def hex_byte_def)
  with Cons show ?case by (auto simp: encode_ops_def)
qed simp

lemma url_encode_text:
  assumes "CHR 0x00 \<notin> set s" "3 * length s < 2 ^ 29"
  shows "url_encode s = Some (concat (map escaped s))"
proof -
  from encode_size [of s] assms(2) have "sum_list (map op_length (concat (map encode_ops s))) < 2 ^ 29" by simp
  from vs_text_is_text [OF _ this] assms(1) show ?thesis by (simp add: url_encode_def encode_text c_str_id)
qed

lemma length_escaped: "length (concat (map escaped s)) \<le> 3 * length s"
  by (induction s) (auto simp: escaped_def hex_byte_def)

definition item_text :: "string \<times> string \<Rightarrow> string" where
  "item_text e = fst e @ CHR ''='' # concat (map escaped (snd e))"

definition query_key :: "string \<Rightarrow> bool" where
  "query_key k \<longleftrightarrow> CHR 0x00 \<notin> set k \<and> CHR ''='' \<notin> set k \<and> CHR ''&'' \<notin> set k"

definition query_bound :: "(string \<times> string) list \<Rightarrow> nat" where
  "query_bound es = sum_list (map (\<lambda>(k, v). length k + 3 * length v + 2) es)"

lemma body_ops_run:
  "\<forall>(k, v) \<in> set es. query_key k \<and> CHR 0x00 \<notin> set v \<Longrightarrow> query_bound es < 2 ^ 29 \<Longrightarrow>
   \<exists>ops. body_ops es = Some ops \<and> sum_list (map op_length ops) \<le> query_bound es \<and>
     (\<forall>t. text_run ops t = Some (t @ concat (map (\<lambda>e. item_text e @ ''&'') es)))"
proof (induction es)
  case (Cons e es)
  obtain k v where e: "e = (k, v)" by (cases e)
  from Cons e obtain ops where ops: "body_ops es = Some ops" "sum_list (map op_length ops) \<le> query_bound es"
    "\<And>t. text_run ops t = Some (t @ concat (map (\<lambda>e. item_text e @ ''&'') es))"
    by (auto simp: query_bound_def)
  from Cons.prems e have k: "CHR 0x00 \<notin> set k" and v: "CHR 0x00 \<notin> set v" "3 * length v < 2 ^ 29"
    by (auto simp: query_key_def query_bound_def)
  from v(1) have "CHR 0x00 \<notin> set (concat (map escaped v))" using escaped_chars by fastforce
  with ops k v e length_escaped [of v] url_encode_text [OF v] show ?case
    by (simp add: query_bound_def c_str_id item_text_def)
qed (simp add: query_bound_def)

lemma query_encode_text:
  assumes "\<forall>(k, v) \<in> set es. query_key k \<and> CHR 0x00 \<notin> set v" "query_bound es < 2 ^ 29" "es \<noteq> []"
  shows "query_encode es = Some (joined ''&'' (map item_text es))"
proof -
  from body_ops_run [OF assms(1,2)] obtain ops where ops: "body_ops es = Some ops" "sum_list (map op_length ops) \<le> query_bound es"
    "\<And>t. text_run ops t = Some (t @ concat (map (\<lambda>e. item_text e @ ''&'') es))" by blast
  have "concat (map (\<lambda>e. item_text e @ ''&'') es) = joined ''&'' (map item_text es) @ ''&''"
    using joined_sep [of "map item_text es" "''&''"] assms(3) by (simp add: comp_def)
  with ops have "text_run (ops @ [Drop_one]) [] = Some (joined ''&'' (map item_text es))" by (simp add: text_run_append)
  moreover have "sum_list (map op_length (ops @ [Drop_one])) < 2 ^ 29" using ops(2) assms(2) by simp
  ultimately show ?thesis using ops(1) assms(3) by (simp add: query_encode_def vs_text_is_text)
qed

lemma read_item_text: "query_key (fst e) \<Longrightarrow> read_item (item_text e) = e"
  by (simp add: read_item_def item_text_def query_key_def chr_find_append percent_decode_escaped)

text \<open>
  The query or form text of a map carries exactly its entries: the other side reads back every
  key with its value, whatever bytes other than NUL the values hold, when the keys hold no equals
  sign and no ampersand.
\<close>

lemma query_text_roundtrip:
  assumes "\<forall>(k, v) \<in> set es. query_key k \<and> CHR 0x00 \<notin> set v" "query_bound es < 2 ^ 29" "es \<noteq> []"
  shows "Option.bind (query_encode es) query_read = Some es"
proof -
  have "\<forall>x \<in> set (map item_text es). CHR ''&'' \<notin> set x"
    using assms(1) escaped_chars by (fastforce simp: item_text_def query_key_def)
  with assms(3) have "vs_split ''&'' (joined ''&'' (map item_text es)) = Some (map item_text es)"
    by (intro split_joined) auto
  moreover have "map read_item (map item_text es) = es"
    using assms(1) by (simp add: map_idI read_item_text split_beta)
  ultimately show ?thesis using query_encode_text [OF assms] by (simp add: query_read_def)
qed

lemma query_text_example:
  "Option.bind (query_encode [(''access_type'', ''offline''), (''scope'', ''https://www.googleapis.com/auth/drive a&b=c%'')]) query_read
   = Some [(''access_type'', ''offline''), (''scope'', ''https://www.googleapis.com/auth/drive a&b=c%'')]"
  by (rule query_text_roundtrip) (simp_all add: query_key_def query_bound_def)

text \<open>The keys are not encoded: two different maps have one text.\<close>

lemma query_keys_not_encoded: "query_encode [(''q=1&r'', ''2'')] = query_encode [(''q'', ''1''), (''r'', ''2'')]"
  by code_simp

end
