(* ===== verification/Saf_Gitem.thy ===== *)
theory Saf_Gitem
  imports Saf_Texts
begin

text \<open>
  The items of the Google Drive library (providers/gdrive/include/gdrive/gitem.hpp): the classes
  with their members, and an object with the set \<open>_fields\<close> of the members that were set.
\<close>

section \<open>Classes\<close>

text \<open>
  A member is a public data member, or private with a getter (READONLY) or with a getter and a
  setter (WRITABLE). \<open>g_tracked\<close>: the class has \<open>_fields\<close> with get_modified_fields and clear;
  \<open>g_writes\<close>: it declares to_json.
\<close>

datatype gtype = G_string | G_bool | G_int | G_long | G_double | G_tm | G_links | G_class string | G_vector gtype

datatype gmember = READONLY gtype string | WRITABLE gtype string | PUBLIC gtype string

record gclass =
  g_name :: string
  g_tracked :: bool
  g_writes :: bool
  g_members :: "gmember list"

fun member_name :: "gmember \<Rightarrow> string" where
  "member_name (READONLY t n) = n"
| "member_name (WRITABLE t n) = n"
| "member_name (PUBLIC t n) = n"

fun member_type :: "gmember \<Rightarrow> gtype" where
  "member_type (READONLY t n) = t"
| "member_type (WRITABLE t n) = t"
| "member_type (PUBLIC t n) = t"

fun is_writable :: "gmember \<Rightarrow> bool" where
  "is_writable (WRITABLE t n) = True"
| "is_writable _ = False"

definition writable :: "gclass \<Rightarrow> string list" where
  "writable c = map member_name (filter is_writable (g_members c))"

definition GFileLabel :: gclass where
  "GFileLabel = \<lparr>g_name = ''GFileLabel'', g_tracked = False, g_writes = True, g_members =
     [PUBLIC G_bool ''starred'', PUBLIC G_bool ''hidden'', PUBLIC G_bool ''trashed'', PUBLIC G_bool ''restricted'',
      PUBLIC G_bool ''viewed'']\<rparr>"

definition GUser :: gclass where
  "GUser = \<lparr>g_name = ''GUser'', g_tracked = False, g_writes = True, g_members =
     [PUBLIC G_string ''displayName'', PUBLIC G_string ''picture_url'', PUBLIC G_bool ''isAuthenticatedUser'',
      PUBLIC G_string ''permissionId'']\<rparr>"

definition GParent :: gclass where
  "GParent = \<lparr>g_name = ''GParent'', g_tracked = True, g_writes = True, g_members =
     [WRITABLE G_string ''id'', READONLY G_string ''selfLink'', READONLY G_string ''parentLink'',
      READONLY G_bool ''isRoot'']\<rparr>"

definition GParentList :: gclass where
  "GParentList = \<lparr>g_name = ''GParentList'', g_tracked = False, g_writes = False, g_members =
     [READONLY G_string ''etag'', READONLY G_string ''selfLink'', READONLY (G_vector (G_class ''GParent'')) ''items'']\<rparr>"

definition GProperty :: gclass where
  "GProperty = \<lparr>g_name = ''GProperty'', g_tracked = False, g_writes = True, g_members =
     [PUBLIC G_string ''etag'', PUBLIC G_string ''selfLink'', PUBLIC G_string ''key'', PUBLIC G_string ''visibility'',
      PUBLIC G_string ''value'']\<rparr>"

definition GPermission :: gclass where
  "GPermission = \<lparr>g_name = ''GPermission'', g_tracked = True, g_writes = True, g_members =
     [READONLY G_string ''etag'', WRITABLE G_string ''id'', READONLY G_string ''selfLink'', READONLY G_string ''name'',
      READONLY G_string ''emailAddress'', READONLY G_string ''domain'', WRITABLE G_string ''role'',
      WRITABLE (G_vector G_string) ''additionalRoles'', WRITABLE G_string ''type'', WRITABLE G_string ''value'',
      READONLY G_string ''authKey'', READONLY G_bool ''withLink'', READONLY G_string ''photoLink'']\<rparr>"

definition GPermissionId :: gclass where
  "GPermissionId = \<lparr>g_name = ''GPermissionId'', g_tracked = False, g_writes = False, g_members =
     [READONLY G_string ''id'']\<rparr>"

definition GPermissionList :: gclass where
  "GPermissionList = \<lparr>g_name = ''GPermissionList'', g_tracked = False, g_writes = False, g_members =
     [READONLY G_string ''etag'', READONLY G_string ''selfLink'',
      READONLY (G_vector (G_class ''GPermission'')) ''items'']\<rparr>"

definition Location :: gclass where
  "Location = \<lparr>g_name = ''GImageMediaMetaData::Location'', g_tracked = False, g_writes = True, g_members =
     [PUBLIC G_double ''latitude'', PUBLIC G_double ''longitude'', PUBLIC G_double ''altitude'']\<rparr>"

definition GImageMediaMetaData :: gclass where
  "GImageMediaMetaData = \<lparr>g_name = ''GImageMediaMetaData'', g_tracked = False, g_writes = True, g_members =
     [PUBLIC G_int ''width'', PUBLIC G_int ''height'', PUBLIC G_int ''rotation'',
      PUBLIC (G_class ''GImageMediaMetaData::Location'') ''location'', PUBLIC G_string ''date'',
      PUBLIC G_string ''cameraMaker'', PUBLIC G_string ''cameraModel'', PUBLIC G_double ''exposureTime'',
      PUBLIC G_double ''aperture'', PUBLIC G_bool ''flashUsed'', PUBLIC G_double ''focalLength'', PUBLIC G_int ''isoSpeed'',
      PUBLIC G_string ''meteringMode'', PUBLIC G_string ''sensor'', PUBLIC G_string ''exposureMode'',
      PUBLIC G_string ''colorSpace'', PUBLIC G_string ''whiteBalance'', PUBLIC G_double ''exposureBias'',
      PUBLIC G_double ''maxApertureValue'', PUBLIC G_int ''subjectDistance'', PUBLIC G_string ''lens'']\<rparr>"

definition GFile :: gclass where
  "GFile = \<lparr>g_name = ''GFile'', g_tracked = True, g_writes = True, g_members =
     [READONLY G_string ''id'', READONLY G_string ''etag'', READONLY G_string ''selfLink'',
      READONLY G_string ''webContentLink'', READONLY G_string ''alternateLink'', READONLY G_string ''embedLink'',
      READONLY G_links ''openWithLinks'', READONLY G_string ''defaultOpenWithLink'', READONLY G_string ''iconLink'',
      READONLY G_string ''thumbnailLink'', WRITABLE G_string ''title'', WRITABLE G_string ''mimeType'',
      WRITABLE G_string ''description'', WRITABLE (G_class ''GFileLabel'') ''labels'', READONLY G_tm ''createdDate'',
      WRITABLE G_tm ''modifiedDate'', READONLY G_tm ''modifiedByMeDate'', READONLY G_tm ''lastViewedByMeDate'',
      READONLY G_tm ''sharedWithMeDate'', READONLY G_string ''version'', READONLY (G_class ''GUser'') ''sharingUser'',
      WRITABLE (G_vector (G_class ''GParent'')) ''parents'', READONLY G_string ''downloadUrl'',
      READONLY G_links ''exportLinks'', WRITABLE G_string ''indexableText'',
      READONLY (G_class ''GPermission'') ''userPermission'', READONLY (G_vector (G_class ''GPermission'')) ''permissions'',
      READONLY G_string ''originalFilename'', READONLY G_string ''fileExtension'', READONLY G_string ''md5Checksum'',
      READONLY G_long ''fileSize'', READONLY G_int ''quotaBytesUsed'', READONLY (G_vector G_string) ''ownerNames'',
      READONLY (G_vector (G_class ''GUser'')) ''owners'', READONLY G_string ''lastModifyingUserName'',
      READONLY (G_class ''GUser'') ''lastModifyingUser'', READONLY G_bool ''editable'', READONLY G_bool ''copyable'',
      READONLY G_bool ''shared'', READONLY G_bool ''explicitlyTrashed'', READONLY G_bool ''appDataContents'',
      READONLY G_string ''headRevisionId'', READONLY (G_vector (G_class ''GProperty'')) ''properties'',
      READONLY (G_class ''GImageMediaMetaData'') ''imageMediaMetadata'', WRITABLE G_bool ''writersCanShare'']\<rparr>"

definition GFileList :: gclass where
  "GFileList = \<lparr>g_name = ''GFileList'', g_tracked = False, g_writes = False, g_members =
     [READONLY G_string ''etag'', READONLY G_string ''selfLink'', READONLY G_string ''nextPageToken'',
      READONLY G_string ''nextLink'', READONLY (G_vector (G_class ''GFile'')) ''items'']\<rparr>"

definition GServiceQuota :: gclass where
  "GServiceQuota = \<lparr>g_name = ''GServiceQuota'', g_tracked = False, g_writes = False, g_members =
     [PUBLIC G_string ''serviceName'', PUBLIC G_long ''bytesUsed'']\<rparr>"

definition GFormat :: gclass where
  "GFormat = \<lparr>g_name = ''GFormat'', g_tracked = False, g_writes = False, g_members =
     [PUBLIC G_string ''source'', PUBLIC (G_vector G_string) ''targets'']\<rparr>"

definition GRole :: gclass where
  "GRole = \<lparr>g_name = ''GRole'', g_tracked = False, g_writes = False, g_members =
     [PUBLIC G_string ''primaryRole'', PUBLIC (G_vector G_string) ''additionalRoles'']\<rparr>"

definition GRoleInfo :: gclass where
  "GRoleInfo = \<lparr>g_name = ''GRoleInfo'', g_tracked = False, g_writes = False, g_members =
     [PUBLIC G_string ''type'', PUBLIC (G_vector (G_class ''GRole'')) ''roleSets'']\<rparr>"

definition GFeature :: gclass where
  "GFeature = \<lparr>g_name = ''GFeature'', g_tracked = False, g_writes = False, g_members =
     [PUBLIC G_string ''featureName'', PUBLIC G_double ''featureRate'']\<rparr>"

definition GUploadSize :: gclass where
  "GUploadSize = \<lparr>g_name = ''GUploadSize'', g_tracked = False, g_writes = False, g_members =
     [PUBLIC G_string ''type'', PUBLIC G_long ''size'']\<rparr>"

definition GAbout :: gclass where
  "GAbout = \<lparr>g_name = ''GAbout'', g_tracked = False, g_writes = False, g_members =
     [READONLY G_string ''etag'', READONLY G_string ''selfLink'', READONLY G_string ''name'',
      READONLY (G_class ''GUser'') ''user'', READONLY G_long ''quotaBytesTotal'', READONLY G_long ''quotaBytesUsed'',
      READONLY G_long ''quotaBytesUsedAggregate'', READONLY G_long ''quotaBytesUsedInTrash'', READONLY G_string ''quotaType'',
      READONLY (G_vector (G_class ''GServiceQuota'')) ''quotaBytesByService'', READONLY G_long ''largestChangedId'',
      READONLY G_long ''remainingChangeIds'', READONLY G_string ''rootFolderId'', READONLY G_string ''domainSharingPolicy'',
      READONLY G_string ''permissionId'', READONLY (G_vector (G_class ''GFormat'')) ''importFormats'',
      READONLY (G_vector (G_class ''GFormat'')) ''exportFormats'',
      READONLY (G_vector (G_class ''GRoleInfo'')) ''additionalRoleInfo'',
      READONLY (G_vector (G_class ''GFeature'')) ''features'',
      READONLY (G_vector (G_class ''GUploadSize'')) ''maxUploadSizes'', READONLY G_bool ''isCurrentAppInstalled'',
      READONLY G_string ''languageCode'']\<rparr>"

definition GChange :: gclass where
  "GChange = \<lparr>g_name = ''GChange'', g_tracked = False, g_writes = False, g_members =
     [READONLY G_string ''id'', READONLY G_string ''fileId'', READONLY G_string ''selfLink'', READONLY G_bool ''deleted'',
      READONLY G_tm ''modificationDate'', READONLY (G_class ''GFile'') ''file'']\<rparr>"

definition GChangeList :: gclass where
  "GChangeList = \<lparr>g_name = ''GChangeList'', g_tracked = False, g_writes = False, g_members =
     [READONLY G_string ''etag'', READONLY G_string ''selfLink'', READONLY G_string ''nextPageToken'',
      READONLY G_string ''nextLink'', READONLY G_long ''largestChangeId'',
      READONLY (G_vector (G_class ''GChange'')) ''items'']\<rparr>"

definition GChildren :: gclass where
  "GChildren = \<lparr>g_name = ''GChildren'', g_tracked = True, g_writes = True, g_members =
     [WRITABLE G_string ''id'', READONLY G_string ''selfLink'', READONLY G_string ''childLink'']\<rparr>"

definition GChildrenList :: gclass where
  "GChildrenList = \<lparr>g_name = ''GChildrenList'', g_tracked = False, g_writes = False, g_members =
     [READONLY G_string ''etag'', READONLY G_string ''selfLink'', READONLY G_string ''nextPageToken'',
      READONLY G_string ''nextLink'', READONLY (G_vector (G_class ''GChildren'')) ''items'']\<rparr>"

definition GRevision :: gclass where
  "GRevision = \<lparr>g_name = ''GRevision'', g_tracked = True, g_writes = True, g_members =
     [READONLY G_string ''etag'', WRITABLE G_string ''id'', READONLY G_string ''selfLink'', READONLY G_string ''mimeType'',
      READONLY G_tm ''modifiedDate'', WRITABLE G_bool ''pinned'', READONLY G_bool ''published'',
      READONLY G_string ''publishedLink'', READONLY G_bool ''publishedAuto'', READONLY G_bool ''publishedOutsideDomain'',
      READONLY G_string ''downloadUri'', READONLY G_links ''exportLinks'', READONLY G_string ''lastModifyingUserName'',
      READONLY (G_class ''GUser'') ''lastModifyingUser'', READONLY G_string ''originalFilename'',
      READONLY G_string ''md5Checksum'', READONLY G_long ''fileSize'']\<rparr>"

definition GRevisionList :: gclass where
  "GRevisionList = \<lparr>g_name = ''GRevisionList'', g_tracked = False, g_writes = False, g_members =
     [READONLY G_string ''etag'', READONLY G_string ''selfLink'',
      READONLY (G_vector (G_class ''GRevision'')) ''items'']\<rparr>"

definition GAppIcon :: gclass where
  "GAppIcon = \<lparr>g_name = ''GAppIcon'', g_tracked = False, g_writes = False, g_members =
     [READONLY G_string ''category'', READONLY G_int ''size'', READONLY G_string ''iconUrl'']\<rparr>"

definition GApp :: gclass where
  "GApp = \<lparr>g_name = ''GApp'', g_tracked = False, g_writes = False, g_members =
     [READONLY G_string ''id'', READONLY G_string ''name'', READONLY G_string ''objectType'',
      READONLY G_string ''shortDescription'', READONLY G_string ''longDescription'', READONLY G_bool ''supportsCreate'',
      READONLY G_bool ''supportsImport'', READONLY G_bool ''supportsMultiOpen'', READONLY G_bool ''supportsOfflineCreate'',
      READONLY G_bool ''installed'', READONLY G_bool ''authorized'', READONLY G_bool ''hasDriveWideScope'',
      READONLY G_bool ''useByDefault'', READONLY G_string ''productUrl'', READONLY G_string ''productId'',
      READONLY G_string ''openUrlTemplate'', READONLY G_string ''createUrl'', READONLY G_string ''createInFolderTemplate'',
      READONLY (G_vector G_string) ''primaryMimeTypes'', READONLY (G_vector G_string) ''secondaryMimeTypes'',
      READONLY (G_vector G_string) ''primaryFileExtensions'', READONLY (G_vector G_string) ''secondaryFileExtensions'',
      READONLY (G_vector (G_class ''GAppIcon'')) ''icons'']\<rparr>"

definition GAppList :: gclass where
  "GAppList = \<lparr>g_name = ''GAppList'', g_tracked = False, g_writes = False, g_members =
     [READONLY G_string ''etag'', READONLY G_string ''selfLink'', READONLY (G_vector (G_class ''GApp'')) ''items'',
      READONLY (G_vector G_string) ''defaultAppIds'']\<rparr>"

definition GReply :: gclass where
  "GReply = \<lparr>g_name = ''GReply'', g_tracked = True, g_writes = True, g_members =
     [READONLY G_string ''replyId'', READONLY G_tm ''createDate'', READONLY G_tm ''modifiedDate'',
      READONLY (G_class ''GUser'') ''author'', READONLY G_string ''htmlContent'', WRITABLE G_string ''content'',
      READONLY G_bool ''deleted'', WRITABLE G_string ''verb'']\<rparr>"

definition GReplyList :: gclass where
  "GReplyList = \<lparr>g_name = ''GReplyList'', g_tracked = False, g_writes = False, g_members =
     [READONLY G_string ''selfLink'', READONLY G_string ''nextPageToken'', READONLY G_string ''nextLink'',
      READONLY (G_vector (G_class ''GReply'')) ''items'']\<rparr>"

definition GCommentContext :: gclass where
  "GCommentContext = \<lparr>g_name = ''GCommentContext'', g_tracked = False, g_writes = True, g_members =
     [READONLY G_string ''type'', READONLY G_string ''value'']\<rparr>"

definition GComment :: gclass where
  "GComment = \<lparr>g_name = ''GComment'', g_tracked = True, g_writes = True, g_members =
     [READONLY G_string ''selfLink'', READONLY G_string ''commentId'', READONLY G_tm ''createdDate'',
      READONLY G_tm ''modifiedDate'', READONLY (G_class ''GUser'') ''author'', READONLY G_string ''htmlContent'',
      READONLY G_string ''content'', READONLY G_bool ''deleted'', READONLY G_string ''status'',
      READONLY (G_class ''GCommentContext'') ''context'', READONLY G_string ''anchor'', READONLY G_string ''fileId'',
      READONLY G_string ''fileTitle'', READONLY (G_vector (G_class ''GReply'')) ''replies'']\<rparr>"

definition GCommentList :: gclass where
  "GCommentList = \<lparr>g_name = ''GCommentList'', g_tracked = False, g_writes = False, g_members =
     [READONLY G_string ''selfLink'', READONLY G_string ''nextPageToken'', READONLY G_string ''nextLink'',
      READONLY (G_vector (G_class ''GComment'')) ''items'']\<rparr>"

definition GError :: gclass where
  "GError = \<lparr>g_name = ''GError'', g_tracked = False, g_writes = False, g_members =
     [READONLY G_int ''code'', READONLY G_string ''message'', READONLY (G_vector G_links) ''errors'']\<rparr>"

definition gitem_classes :: "gclass list" where
  "gitem_classes =
     [GFileLabel, GUser, GParent, GParentList, GProperty, GPermission, GPermissionId, GPermissionList, Location,
      GImageMediaMetaData, GFile, GFileList, GServiceQuota, GFormat, GRole, GRoleInfo, GFeature, GUploadSize, GAbout,
      GChange, GChangeList, GChildren, GChildrenList, GRevision, GRevisionList, GAppIcon, GApp, GAppList, GReply,
      GReplyList, GCommentContext, GComment, GCommentList, GError]"


fun type_classes :: "gtype \<Rightarrow> string list" where
  "type_classes (G_class n) = [n]"
| "type_classes (G_vector t) = type_classes t"
| "type_classes _ = []"

text \<open>Names of members are distinct, setters stand only where the class records and writes them, every class is there.\<close>

definition gclass_ok :: "gclass list \<Rightarrow> gclass \<Rightarrow> bool" where
  "gclass_ok cs c \<longleftrightarrow>
     distinct (map member_name (g_members c)) \<and> (writable c \<noteq> [] \<longrightarrow> g_tracked c \<and> g_writes c) \<and>
     list_all (\<lambda>m. list_all (\<lambda>n. n \<in> set (map g_name cs)) (type_classes (member_type m))) (g_members c)"

lemma gitem_classes_ok: "list_all (gclass_ok gitem_classes) gitem_classes \<and> distinct (map g_name gitem_classes)"
  by code_simp

text \<open>A comment has no member that can be set.\<close>

lemma comment_not_writable: "writable GComment = []"
  by code_simp

section \<open>Objects\<close>

text \<open>\<open>modified\<close> is the std::set \<open>_fields\<close> as the ascending list of its elements.\<close>

record 'v item =
  item_class :: gclass
  member_value :: "string \<Rightarrow> 'v"
  modified :: "string list"

definition new_item :: "gclass \<Rightarrow> (string \<Rightarrow> 'v) \<Rightarrow> 'v item" where
  "new_item c init = \<lparr>item_class = c, member_value = init, modified = []\<rparr>"

definition set_insert :: "string \<Rightarrow> string list \<Rightarrow> string list" where
  "set_insert x xs = (if x \<in> set xs then xs else insort x xs)"

text \<open>\<open>set_\<close>\<open>name\<close>; None: the class has no such setter, the program does not compile.\<close>

definition set_member :: "string \<Rightarrow> 'v \<Rightarrow> 'v item \<Rightarrow> 'v item option" where
  "set_member name v x =
     (if name \<in> set (writable (item_class x))
      then Some (x\<lparr>member_value := (member_value x)(name := v), modified := set_insert name (modified x)\<rparr>)
      else None)"

definition get_member :: "string \<Rightarrow> 'v item \<Rightarrow> 'v" where
  "get_member name x = member_value x name"

definition get_modified_fields :: "'v item \<Rightarrow> string list" where
  "get_modified_fields x = modified x"

definition clear_modified :: "'v item \<Rightarrow> 'v item" where
  "clear_modified x = x\<lparr>modified := []\<rparr>"

definition std_set :: "string list \<Rightarrow> bool" where
  "std_set xs \<longleftrightarrow> sorted_wrt (<) xs"

lemma std_set_insert: "std_set xs \<Longrightarrow> std_set (set_insert x xs)"
  by (auto simp: std_set_def set_insert_def strict_sorted_iff sorted_insort distinct_insort)

lemma set_set_insert [simp]: "set (set_insert x xs) = insert x (set xs)"
  by (auto simp: set_insert_def set_insort_key)

lemma std_set_unique: "std_set xs \<Longrightarrow> std_set ys \<Longrightarrow> set xs = set ys \<Longrightarrow> xs = ys"
  by (simp add: std_set_def strict_sorted_equal)

end
