(* ===== verification/Saf_Request.thy ===== *)
theory Saf_Request
  imports Saf_Gitem
begin

text \<open>
  The requests of the Google Drive library (providers/gdrive/include/gdrive/request.hpp and
  servicerequest.hpp): the query attributes of every request class, the body of an update and
  its execution.
\<close>

section \<open>The query\<close>

datatype request_method = RM_GET | RM_POST | RM_PUT | RM_DELETE | RM_PATCH

datatype attr_kind = STRING_SET_ATTR | LONG_SET_ATTR | BOOL_SET_ATTR

text \<open>
  A class of requests: its method, the setters its macros declare, whether it is a ResourceRequest
  (with add_field and clear_fields), has set_visibilty and ADD_REMOVE_PARENT.
\<close>

record request_class =
  rc_method :: request_method
  rc_attrs :: "(attr_kind \<times> string) list"
  rc_fields :: bool
  rc_visibility :: bool
  rc_parents :: bool

definition ResourceRequest :: "request_method \<Rightarrow> (attr_kind \<times> string) list \<Rightarrow> request_class" where
  "ResourceRequest method attrs = \<lparr>rc_method = method, rc_attrs = attrs, rc_fields = True, rc_visibility = False, rc_parents = False\<rparr>"

definition DeleteRequest :: request_class where
  "DeleteRequest = \<lparr>rc_method = RM_DELETE, rc_attrs = [], rc_fields = False, rc_visibility = False, rc_parents = False\<rparr>"

definition FileListRequest :: request_class where
  "FileListRequest = ResourceRequest RM_GET [(STRING_SET_ATTR, ''pageToken''), (STRING_SET_ATTR, ''q'')]"

definition FileGetRequest :: request_class where
  "FileGetRequest = ResourceRequest RM_GET [(BOOL_SET_ATTR, ''updateViewedDate'')]"

definition FileTrashRequest :: request_class where
  "FileTrashRequest = ResourceRequest RM_POST []"

definition FilePatchRequest :: request_class where
  "FilePatchRequest = (ResourceRequest RM_PATCH
     [(BOOL_SET_ATTR, ''convert''), (BOOL_SET_ATTR, ''newRevision''), (BOOL_SET_ATTR, ''ocr''), (STRING_SET_ATTR, ''orcLanguag''),
      (BOOL_SET_ATTR, ''pinned''), (BOOL_SET_ATTR, ''setModifiedDate''), (STRING_SET_ATTR, ''timedTextLanguge''),
      (STRING_SET_ATTR, ''timedTextTrackName''), (BOOL_SET_ATTR, ''updateViewedDate''),
      (BOOL_SET_ATTR, ''useContentAsIndexableText'')])\<lparr>rc_parents := True\<rparr>"

definition FileCopyRequest :: request_class where
  "FileCopyRequest = (ResourceRequest RM_POST
     [(BOOL_SET_ATTR, ''convert''), (BOOL_SET_ATTR, ''ocr''), (STRING_SET_ATTR, ''ocrLanguage''), (BOOL_SET_ATTR, ''pinned''),
      (STRING_SET_ATTR, ''timedTextLanguage''), (STRING_SET_ATTR, ''timedTextTrackName'')])\<lparr>rc_visibility := True\<rparr>"

definition FileUploadRequest :: request_class where
  "FileUploadRequest = (ResourceRequest RM_POST
     [(BOOL_SET_ATTR, ''convert''), (BOOL_SET_ATTR, ''ocr''), (STRING_SET_ATTR, ''orcLanguag''), (BOOL_SET_ATTR, ''pinned''),
      (STRING_SET_ATTR, ''timedTextLanguge''), (STRING_SET_ATTR, ''timedTextTrackName''),
      (BOOL_SET_ATTR, ''useContentAsIndexableText'')])\<lparr>rc_visibility := True\<rparr>"

text \<open>FileUpdateRequest extends FileUploadRequest and changes \<open>_method\<close> in its constructor.\<close>

definition FileUpdateRequest :: request_class where
  "FileUpdateRequest = FileUploadRequest\<lparr>rc_method := RM_PUT, rc_parents := True\<rparr>"

definition AboutGetRequest :: request_class where
  "AboutGetRequest = ResourceRequest RM_GET
     [(BOOL_SET_ATTR, ''includeSubscribed''), (LONG_SET_ATTR, ''maxChangeIdCount''), (LONG_SET_ATTR, ''startChangeId'')]"

definition ChangeGetRequest :: request_class where
  "ChangeGetRequest = ResourceRequest RM_GET []"

definition ChangeListRequest :: request_class where
  "ChangeListRequest = ResourceRequest RM_GET
     [(BOOL_SET_ATTR, ''includeDeleted''), (BOOL_SET_ATTR, ''includeSubscribed''), (STRING_SET_ATTR, ''pageToken''),
      (LONG_SET_ATTR, ''maxResults''), (LONG_SET_ATTR, ''startChangeId'')]"

definition ChildrenListRequest :: request_class where
  "ChildrenListRequest = ResourceRequest RM_GET
     [(LONG_SET_ATTR, ''maxResults''), (STRING_SET_ATTR, ''pageToken''), (STRING_SET_ATTR, ''q'')]"

definition ChildrenInsertRequest :: request_class where
  "ChildrenInsertRequest = ResourceRequest RM_POST []"

definition PermissionInsertRequest :: request_class where
  "PermissionInsertRequest = ResourceRequest RM_POST [(STRING_SET_ATTR, ''emailMessage''), (BOOL_SET_ATTR, ''sendNotificationEmails'')]"

definition PermissionPatchRequest :: request_class where
  "PermissionPatchRequest = ResourceRequest RM_PATCH [(BOOL_SET_ATTR, ''transferOwnership'')]"

definition PermissionUpdateRequest :: request_class where
  "PermissionUpdateRequest = ResourceRequest RM_PUT [(BOOL_SET_ATTR, ''transferOwnership'')]"

definition RevisionPatchRequest :: request_class where
  "RevisionPatchRequest = ResourceRequest RM_PATCH []"

definition RevisionUpdateRequest :: request_class where
  "RevisionUpdateRequest = ResourceRequest RM_PUT
     [(BOOL_SET_ATTR, ''pinned''), (BOOL_SET_ATTR, ''publishedAuto''), (BOOL_SET_ATTR, ''published''),
      (BOOL_SET_ATTR, ''publishedOutsideDomain'')]"

definition AppListRequest :: request_class where
  "AppListRequest = ResourceRequest RM_GET
     [(STRING_SET_ATTR, ''appFilterExtensions''), (STRING_SET_ATTR, ''appFilterMimeTypes''), (STRING_SET_ATTR, ''languageCode'')]"

definition ReplyListRequest :: request_class where
  "ReplyListRequest = ResourceRequest RM_GET
     [(BOOL_SET_ATTR, ''includedDeleted''), (LONG_SET_ATTR, ''maxResults''), (STRING_SET_ATTR, ''pageToken'')]"

definition ReplyGetRequest :: request_class where
  "ReplyGetRequest = ResourceRequest RM_GET [(BOOL_SET_ATTR, ''includedDeleted'')]"

definition ReplyUpdateRequest :: request_class where
  "ReplyUpdateRequest = ResourceRequest RM_PUT []"

definition CommentListRequest :: request_class where
  "CommentListRequest = ResourceRequest RM_GET
     [(BOOL_SET_ATTR, ''includedDeleted''), (LONG_SET_ATTR, ''maxResults''), (STRING_SET_ATTR, ''pageToken''),
      (STRING_SET_ATTR, ''updateMin'')]"

definition CommentGetRequest :: request_class where
  "CommentGetRequest = ResourceRequest RM_GET [(BOOL_SET_ATTR, ''includedDeleted'')]"

definition CommentUpdateRequest :: request_class where
  "CommentUpdateRequest = ResourceRequest RM_PUT []"

text \<open>The classes that are names for instances of the templates.\<close>

definition FileDeleteRequest :: request_class where
  "FileDeleteRequest = DeleteRequest"

definition FileEmptyTrashRequest :: request_class where
  "FileEmptyTrashRequest = DeleteRequest"

definition FileTouchRequest :: request_class where
  "FileTouchRequest = ResourceRequest RM_POST []"

definition FileUntrashRequest :: request_class where
  "FileUntrashRequest = FileTrashRequest"

definition FileInsertRequest :: request_class where
  "FileInsertRequest = FileUploadRequest"

definition ChildrenGetRequest :: request_class where
  "ChildrenGetRequest = ResourceRequest RM_GET []"

definition ChildrenDeleteRequest :: request_class where
  "ChildrenDeleteRequest = DeleteRequest"

definition ParentListRequest :: request_class where
  "ParentListRequest = ResourceRequest RM_GET []"

definition ParentGetRequest :: request_class where
  "ParentGetRequest = ResourceRequest RM_GET []"

definition ParentInsertRequest :: request_class where
  "ParentInsertRequest = ResourceRequest RM_POST []"

definition ParentDeleteRequest :: request_class where
  "ParentDeleteRequest = DeleteRequest"

definition PermissionListRequest :: request_class where
  "PermissionListRequest = ResourceRequest RM_GET []"

definition PermissionGetRequest :: request_class where
  "PermissionGetRequest = ResourceRequest RM_GET []"

definition PermissionDeleteRequest :: request_class where
  "PermissionDeleteRequest = DeleteRequest"

definition PermissionGetIdForEmailRequest :: request_class where
  "PermissionGetIdForEmailRequest = ResourceRequest RM_GET []"

definition RevisionListRequest :: request_class where
  "RevisionListRequest = ResourceRequest RM_GET []"

definition RevisionGetRequest :: request_class where
  "RevisionGetRequest = ResourceRequest RM_GET []"

definition RevisionDeleteRequest :: request_class where
  "RevisionDeleteRequest = DeleteRequest"

definition AppGetRequest :: request_class where
  "AppGetRequest = ResourceRequest RM_GET []"

definition ReplyDeleteRequest :: request_class where
  "ReplyDeleteRequest = DeleteRequest"

definition ReplyInsertRequest :: request_class where
  "ReplyInsertRequest = ResourceRequest RM_POST []"

definition ReplyPatchRequest :: request_class where
  "ReplyPatchRequest = ResourceRequest RM_PATCH []"

definition CommentDeleteRequest :: request_class where
  "CommentDeleteRequest = DeleteRequest"

definition CommentInsertRequest :: request_class where
  "CommentInsertRequest = ResourceRequest RM_POST []"

definition CommentPatchRequest :: request_class where
  "CommentPatchRequest = ResourceRequest RM_PATCH []"

definition request_classes :: "request_class list" where
  "request_classes =
     [DeleteRequest, FileListRequest, FileGetRequest, FileTrashRequest, FilePatchRequest, FileCopyRequest, FileUploadRequest,
      FileUpdateRequest, AboutGetRequest, ChangeGetRequest, ChangeListRequest, ChildrenListRequest, ChildrenInsertRequest,
      PermissionInsertRequest, PermissionPatchRequest, PermissionUpdateRequest, RevisionPatchRequest, RevisionUpdateRequest,
      AppListRequest, ReplyListRequest, ReplyGetRequest, ReplyUpdateRequest, CommentListRequest, CommentGetRequest,
      CommentUpdateRequest] @
     [FileDeleteRequest, FileEmptyTrashRequest, FileTouchRequest, FileUntrashRequest, FileInsertRequest,
      ChildrenGetRequest, ChildrenDeleteRequest, ParentListRequest, ParentGetRequest, ParentInsertRequest,
      ParentDeleteRequest, PermissionListRequest, PermissionGetRequest, PermissionDeleteRequest, PermissionGetIdForEmailRequest,
      RevisionListRequest, RevisionGetRequest, RevisionDeleteRequest, AppGetRequest, ReplyDeleteRequest,
      ReplyInsertRequest, ReplyPatchRequest, CommentDeleteRequest, CommentInsertRequest, CommentPatchRequest]"

text \<open>HttpResponse. clear keeps the status of the last transfer.\<close>

record http_response =
  content :: string
  header_text :: string
  status :: "32 word"
  header_map :: "(string, string) omap"

definition response_clear :: "http_response \<Rightarrow> http_response" where
  "response_clear r = r\<lparr>content := [], header_text := [], header_map := []\<rparr>"

definition set_status :: "32 word \<Rightarrow> http_response \<Rightarrow> http_response" where
  "set_status s r = r\<lparr>status := s\<rparr>"

lemma status_survives_clear: "status (response_clear (set_status s r)) = s"
  by (simp add: response_clear_def set_status_def)

section \<open>Setting it\<close>

text \<open>\<open>_query\<close> and \<open>_parents\<close> of a request.\<close>

record query_state =
  query :: "(string, string) omap"
  parents :: "string list"

datatype setting =
  Set_string string string | Set_long string "64 word" | Set_bool string bool | Set_visibilty string
| Add_field string | Clear_fields | Add_parent string | Remove_parent string

definition put_query :: "string \<Rightarrow> string \<Rightarrow> query_state \<Rightarrow> query_state" where
  "put_query k v s = s\<lparr>query := omap_put k v (query s)\<rparr>"

definition put_parents :: "string list \<Rightarrow> query_state \<Rightarrow> query_state option" where
  "put_parents ps s = map_option (\<lambda>t. put_query ''addParents'' t (s\<lparr>parents := ps\<rparr>)) (vs_join ps '','')"

text \<open>itos takes an int: the long is cut to its low 32 bits. None: no such setter.\<close>

fun do_setting :: "request_class \<Rightarrow> setting \<Rightarrow> query_state \<Rightarrow> query_state option" where
  "do_setting c (Set_string n v) s = (if (STRING_SET_ATTR, n) \<in> set (rc_attrs c) then Some (put_query n v s) else None)"
| "do_setting c (Set_long n w) s = (if (LONG_SET_ATTR, n) \<in> set (rc_attrs c) then Some (put_query n (itos (ucast w)) s) else None)"
| "do_setting c (Set_bool n b) s =
     (if (BOOL_SET_ATTR, n) \<in> set (rc_attrs c) then Some (put_query n (if b then ''true'' else ''false'') s) else None)"
| "do_setting c (Set_visibilty v) s =
     (if rc_visibility c
      then Some (if v = ''DEFAULT'' \<or> v = ''PRIVATE'' then put_query ''visibility'' v s else s) else None)"
| "do_setting c (Add_field f) s =
     (if rc_fields c
      then (case omap_find ''fields'' (query s) of
              None \<Rightarrow> Some (put_query ''fields'' f s)
            | Some old \<Rightarrow> Some (put_query ''fields'' (old @ '','' @ f) s)) else None)"
| "do_setting c Clear_fields s = (if rc_fields c then Some (s\<lparr>query := omap_erase ''fields'' (query s)\<rparr>) else None)"
| "do_setting c (Add_parent p) s = (if rc_parents c then put_parents (set_insert p (parents s)) s else None)"
| "do_setting c (Remove_parent p) s = (if rc_parents c then put_parents (filter (\<lambda>x. x \<noteq> p) (parents s)) s else None)"

fun do_settings :: "request_class \<Rightarrow> setting list \<Rightarrow> query_state \<Rightarrow> query_state option" where
  "do_settings c [] s = Some s"
| "do_settings c (x # xs) s = Option.bind (do_setting c x s) (do_settings c xs)"

definition new_query :: query_state where
  "new_query = \<lparr>query = [], parents = []\<rparr>"

section \<open>What the settings mean\<close>

text \<open>Whether the class declares the setter.\<close>

fun offered :: "request_class \<Rightarrow> setting \<Rightarrow> bool" where
  "offered c (Set_string n v) \<longleftrightarrow> (STRING_SET_ATTR, n) \<in> set (rc_attrs c)"
| "offered c (Set_long n w) \<longleftrightarrow> (LONG_SET_ATTR, n) \<in> set (rc_attrs c)"
| "offered c (Set_bool n b) \<longleftrightarrow> (BOOL_SET_ATTR, n) \<in> set (rc_attrs c)"
| "offered c (Set_visibilty v) \<longleftrightarrow> rc_visibility c"
| "offered c (Add_field f) \<longleftrightarrow> rc_fields c"
| "offered c Clear_fields \<longleftrightarrow> rc_fields c"
| "offered c (Add_parent p) \<longleftrightarrow> rc_parents c"
| "offered c (Remove_parent p) \<longleftrightarrow> rc_parents c"

text \<open>The last value of an attribute, the fields since the last clear, the parents added and not removed.\<close>

fun setting_value :: "setting \<Rightarrow> (string \<times> string) option" where
  "setting_value (Set_string n v) = Some (n, v)"
| "setting_value (Set_long n w) = Some (n, int_str (sint (ucast w :: 32 word)))"
| "setting_value (Set_bool n b) = Some (n, if b then ''true'' else ''false'')"
| "setting_value (Set_visibilty v) = (if v \<in> {''DEFAULT'', ''PRIVATE''} then Some (''visibility'', v) else None)"
| "setting_value _ = None"

fun last_value :: "setting list \<Rightarrow> string \<Rightarrow> string option" where
  "last_value [] k = None"
| "last_value (x # xs) k =
     (case last_value xs k of
        Some v \<Rightarrow> Some v
      | None \<Rightarrow> (case setting_value x of Some (n, v) \<Rightarrow> if n = k then Some v else None | None \<Rightarrow> None))"

fun kept_fields :: "setting list \<Rightarrow> string list \<Rightarrow> string list" where
  "kept_fields [] fs = fs"
| "kept_fields (Add_field f # xs) fs = kept_fields xs (fs @ [f])"
| "kept_fields (Clear_fields # xs) fs = kept_fields xs []"
| "kept_fields (x # xs) fs = kept_fields xs fs"

fun kept_parents :: "setting list \<Rightarrow> string set \<Rightarrow> string set" where
  "kept_parents [] ps = ps"
| "kept_parents (Add_parent p # xs) ps = kept_parents xs (insert p ps)"
| "kept_parents (Remove_parent p # xs) ps = kept_parents xs (ps - {p})"
| "kept_parents (x # xs) ps = kept_parents xs ps"

fun is_parent_setting :: "setting \<Rightarrow> bool" where
  "is_parent_setting (Add_parent p) = True"
| "is_parent_setting (Remove_parent p) = True"
| "is_parent_setting _ = False"

definition wanted :: "setting list \<Rightarrow> string \<Rightarrow> string option" where
  "wanted xs k =
     (if k = ''fields'' then (case kept_fields xs [] of [] \<Rightarrow> None | fs \<Rightarrow> Some (joined '','' fs))
      else if k = ''addParents'' then
        (if \<exists>x \<in> set xs. is_parent_setting x then Some (joined '','' (sorted_list_of_set (kept_parents xs {}))) else None)
      else last_value xs k)"

definition parent_bytes :: "setting list \<Rightarrow> nat" where
  "parent_bytes xs = sum_list (map (\<lambda>x. case x of Add_parent p \<Rightarrow> Suc (length p) | _ \<Rightarrow> 0) xs)"

definition plain_parent :: "setting \<Rightarrow> bool" where
  "plain_parent x \<longleftrightarrow> (case x of Add_parent p \<Rightarrow> CHR 0x00 \<notin> set p | _ \<Rightarrow> True)"

definition request_class_ok :: "request_class \<Rightarrow> bool" where
  "request_class_ok c \<longleftrightarrow> list_all (\<lambda>(k, n). query_key n \<and> n \<noteq> ''fields'' \<and> n \<noteq> ''addParents'') (rc_attrs c)"

lemma request_classes_ok: "list_all request_class_ok request_classes"
  by code_simp

lemma last_value_snoc:
  "last_value (xs @ [x]) k =
     (case setting_value x of Some (n, v) \<Rightarrow> if n = k then Some v else last_value xs k | None \<Rightarrow> last_value xs k)"
  by (induction xs) (auto split: option.splits)

lemma kept_fields_snoc: "kept_fields (xs @ [x]) fs = kept_fields [x] (kept_fields xs fs)"
  by (induction xs fs rule: kept_fields.induct) auto

lemma kept_parents_snoc: "kept_parents (xs @ [x]) ps = kept_parents [x] (kept_parents xs ps)"
  by (induction xs ps rule: kept_parents.induct) auto

lemma joined_snoc: "fs \<noteq> [] \<Longrightarrow> joined sep (fs @ [f]) = joined sep fs @ sep @ f"
  by (induction sep fs rule: joined.induct) auto

text \<open>The state of a request after the settings xs.\<close>

definition represents :: "setting list \<Rightarrow> query_state \<Rightarrow> bool" where
  "represents xs s \<longleftrightarrow>
     omap_ok (query s) \<and> (\<forall>k. omap_find k (query s) = wanted xs k) \<and> std_set (parents s) \<and>
     set (parents s) = kept_parents xs {} \<and> (\<forall>p \<in> set (parents s). CHR 0x00 \<notin> set p) \<and>
     sum_list (map length (parents s)) + length (parents s) \<le> parent_bytes xs"

lemma represents_new: "represents [] new_query"
  by (simp add: represents_def new_query_def omap_ok_def omap_find_def wanted_def std_set_def parent_bytes_def)

text \<open>A setting that is one value of one attribute.\<close>

lemma represents_put:
  assumes "represents xs s" "setting_value x = Some (n, v)" "n \<noteq> ''fields''" "n \<noteq> ''addParents''"
  shows "represents (xs @ [x]) (put_query n v s)"
proof -
  from assms(2) have x: "kept_fields [x] fs = fs" "kept_parents [x] ps = ps" "\<not> is_parent_setting x"
    "parent_bytes (xs @ [x]) = parent_bytes xs" for fs ps
    by (cases x; simp add: parent_bytes_def)+
  have "wanted (xs @ [x]) k = (if k = n then Some v else wanted xs k)" for k
    using assms(2-4) x by (auto simp: wanted_def kept_fields_snoc kept_parents_snoc last_value_snoc)
  with assms(1) x show ?thesis
    by (auto simp: represents_def put_query_def omap_ok_put omap_find_put kept_parents_snoc)
qed

text \<open>A setting that changes nothing.\<close>

lemma represents_skip:
  assumes "represents xs s" "x = Set_visibilty v" "v \<notin> {''DEFAULT'', ''PRIVATE''}"
  shows "represents (xs @ [x]) s"
proof -
  have "wanted (xs @ [x]) k = wanted xs k" for k
    using assms(2,3) by (auto simp: wanted_def kept_fields_snoc kept_parents_snoc last_value_snoc)
  with assms show ?thesis by (auto simp: represents_def kept_parents_snoc parent_bytes_def)
qed

lemma represents_field:
  assumes "represents xs s"
  shows "represents (xs @ [Add_field f])
    (put_query ''fields'' (case omap_find ''fields'' (query s) of None \<Rightarrow> f | Some old \<Rightarrow> old @ '','' @ f) s)"
proof -
  define fs where "fs = kept_fields xs []"
  have old: "omap_find ''fields'' (query s) = (case fs of [] \<Rightarrow> None | fs \<Rightarrow> Some (joined '','' fs))"
    using assms by (simp add: represents_def wanted_def fs_def)
  have "(case omap_find ''fields'' (query s) of None \<Rightarrow> f | Some old \<Rightarrow> old @ '','' @ f) = joined '','' (fs @ [f])"
    unfolding old by (cases fs) (simp_all add: joined_snoc [of "_ # _"] flip: append_Cons)
  moreover have "wanted (xs @ [Add_field f]) k = (if k = ''fields'' then Some (joined '','' (fs @ [f])) else wanted xs k)" for k
    by (auto simp: wanted_def kept_fields_snoc kept_parents_snoc last_value_snoc fs_def split: list.split)
  ultimately show ?thesis using assms
    by (auto simp: represents_def put_query_def omap_ok_put omap_find_put kept_parents_snoc parent_bytes_def)
qed

lemma represents_clear:
  assumes "represents xs s"
  shows "represents (xs @ [Clear_fields]) (s\<lparr>query := omap_erase ''fields'' (query s)\<rparr>)"
proof -
  have "wanted (xs @ [Clear_fields]) k = (if k = ''fields'' then None else wanted xs k)" for k
    by (auto simp: wanted_def kept_fields_snoc kept_parents_snoc last_value_snoc)
  with assms show ?thesis
    by (auto simp: represents_def omap_ok_erase omap_find_erase kept_parents_snoc parent_bytes_def)
qed

lemma vs_join_parents:
  assumes "\<forall>p \<in> set ps. CHR 0x00 \<notin> set p" "sum_list (map length ps) + length ps < 2 ^ 29"
  shows "vs_join ps '','' = Some (joined '','' ps)"
proof (cases "ps = []")
  case False
  with assms length_joined [of ps "'',''"] show ?thesis by (intro vs_join_text) auto
qed (simp add: vs_join_def)

lemma represents_parents:
  assumes "represents xs s" "is_parent_setting x" "std_set ps" "set ps = kept_parents (xs @ [x]) {}"
    "\<forall>p \<in> set ps. CHR 0x00 \<notin> set p" "sum_list (map length ps) + length ps \<le> parent_bytes (xs @ [x])" "parent_bytes (xs @ [x]) < 2 ^ 29"
  shows "\<exists>s'. put_parents ps s = Some s' \<and> represents (xs @ [x]) s'"
proof -
  from assms(2) have x: "setting_value x = None" "kept_fields [x] fs = fs" for fs by (cases x; simp)+
  from assms(3,4) have "sorted_list_of_set (kept_parents (xs @ [x]) {}) = ps"
    by (metis std_set_unique std_set_def strict_sorted_list_of_set set_sorted_list_of_set List.finite_set)
  then have "wanted (xs @ [x]) k = (if k = ''addParents'' then Some (joined '','' ps) else wanted xs k)" for k
    using assms(2) x by (auto simp: wanted_def kept_fields_snoc last_value_snoc)
  with assms vs_join_parents [of ps] show ?thesis
    by (auto simp: represents_def put_parents_def put_query_def omap_ok_put omap_find_put)
qed

lemma sum_insort: "sum_list (map f (insort x xs)) = f x + sum_list (map f xs)" for f :: "_ \<Rightarrow> nat"
  by (induction xs) auto

lemma sum_filter_less: "sum_list (map f (filter P xs)) \<le> sum_list (map f xs)" for f :: "_ \<Rightarrow> nat"
  by (induction xs) auto

lemma represents_do:
  assumes "represents xs s" "offered c x" "request_class_ok c" "plain_parent x" "parent_bytes (xs @ [x]) < 2 ^ 29"
  shows "\<exists>s'. do_setting c x s = Some s' \<and> represents (xs @ [x]) s'"
proof (cases x)
  case (Set_visibilty v)
  with assms represents_put [of xs s x "''visibility''" v] represents_skip [of xs s x v] show ?thesis by auto
next
  case (Add_field f)
  with assms represents_field [of xs s f] show ?thesis by (auto split: option.split)
next
  case Clear_fields
  with assms represents_clear [of xs s] show ?thesis by auto
next
  case (Add_parent p)
  from assms(1,4) Add_parent have inv: "std_set (set_insert p (parents s))"
    "set (set_insert p (parents s)) = kept_parents (xs @ [x]) {}" "\<forall>q \<in> set (set_insert p (parents s)). CHR 0x00 \<notin> set q"
    by (auto simp: represents_def std_set_insert kept_parents_snoc plain_parent_def)
  have "sum_list (map length (set_insert p (parents s))) + length (set_insert p (parents s)) \<le> parent_bytes (xs @ [x])"
    using assms(1) Add_parent by (auto simp: represents_def set_insert_def sum_insort parent_bytes_def)
  from represents_parents [OF assms(1) _ inv this assms(5)] assms(2) Add_parent show ?thesis by simp
next
  case (Remove_parent p)
  define ps where "ps = filter (\<lambda>q. q \<noteq> p) (parents s)"
  from assms(1) Remove_parent have inv: "std_set ps" "set ps = kept_parents (xs @ [x]) {}" "\<forall>q \<in> set ps. CHR 0x00 \<notin> set q"
    by (auto simp: represents_def std_set_def sorted_wrt_filter kept_parents_snoc ps_def)
  have "sum_list (map length ps) + length ps \<le> parent_bytes (xs @ [x])"
  proof -
    from Remove_parent have "parent_bytes (xs @ [x]) = parent_bytes xs" by (simp add: parent_bytes_def)
    moreover from assms(1) have "sum_list (map length (parents s)) + length (parents s) \<le> parent_bytes xs"
      by (simp add: represents_def)
    ultimately show ?thesis
      unfolding ps_def using sum_filter_less [of length "\<lambda>q. q \<noteq> p" "parents s"] length_filter_le [of "\<lambda>q. q \<noteq> p" "parents s"]
      by linarith
  qed
  from represents_parents [OF assms(1) _ inv this assms(5)] assms(2) Remove_parent show ?thesis by (simp add: ps_def)
qed (use assms represents_put in \<open>auto simp: request_class_ok_def list_all_iff itos_def\<close>)

lemma represents_settings:
  "represents done s \<Longrightarrow> list_all (offered c) xs \<Longrightarrow> list_all plain_parent xs \<Longrightarrow> request_class_ok c \<Longrightarrow>
   parent_bytes (done @ xs) < 2 ^ 29 \<Longrightarrow> \<exists>s'. do_settings c xs s = Some s' \<and> represents (done @ xs) s'"
proof (induction xs arbitrary: "done" s)
  case (Cons x xs)
  from Cons.prems(5) have "parent_bytes (done @ [x]) < 2 ^ 29" by (simp add: parent_bytes_def)
  with represents_do [of "done" s c x] Cons.prems obtain s1 where s1: "do_setting c x s = Some s1" "represents (done @ [x]) s1" by auto
  from Cons.IH [OF s1(2)] Cons.prems s1(1) show ?case by simp
qed auto

text \<open>
  The query of a request of any class is what its setters asked for, in whatever order they
  were called: each attribute has its last value, fields is the list of the fields added since the
  last clear_fields and addParents the list of the parents added and not removed, and no other key is there.
\<close>

theorem request_query_is_settings:
  assumes "c \<in> set request_classes" "list_all (offered c) xs" "list_all plain_parent xs" "parent_bytes xs < 2 ^ 29"
  shows "\<exists>s. do_settings c xs new_query = Some s \<and> omap_ok (query s) \<and> (\<forall>k. omap_find k (query s) = wanted xs k)"
proof -
  from assms(1) request_classes_ok have "request_class_ok c" by (auto simp: list_all_iff)
  with represents_settings [OF represents_new assms(2,3)] assms(4) show ?thesis by (auto simp: represents_def)
qed

theorem request_query_is_settings_witness:
  "\<exists>s. do_settings FilePatchRequest
       [Add_field ''id'', Set_bool ''ocr'' True, Add_parent ''f2'', Add_field ''title'', Add_parent ''f1'', Set_bool ''ocr'' False,
        Remove_parent ''f3''] new_query = Some s \<and> omap_ok (query s) \<and>
     (\<forall>k. omap_find k (query s) = wanted
       [Add_field ''id'', Set_bool ''ocr'' True, Add_parent ''f2'', Add_field ''title'', Add_parent ''f1'', Set_bool ''ocr'' False,
        Remove_parent ''f3''] k)"
  by (rule request_query_is_settings)
    (simp_all add: request_classes_def FilePatchRequest_def ResourceRequest_def plain_parent_def parent_bytes_def)

text \<open>
  A parent cannot be removed: remove_parent only shortens addParents, and a long attribute is cut
  to the low half of its bits.
\<close>

lemma remove_parent_removes_nothing:
  "do_settings FilePatchRequest [Remove_parent ''f1''] new_query = Some \<lparr>query = [(''addParents'', [])], parents = []\<rparr>"
  by (simp add: FilePatchRequest_def ResourceRequest_def new_query_def put_parents_def put_query_def vs_join_def)

lemma long_attribute_cut:
  "do_settings ChangeListRequest [Set_long ''startChangeId'' 4294967303] new_query
   = Some \<lparr>query = [(''startChangeId'', ''7'')], parents = []\<rparr>"
proof -
  have "nat_str 7 = ''7''" by code_simp
  then show ?thesis by (simp add: ChangeListRequest_def ResourceRequest_def new_query_def put_query_def itos_def int_str_def)
qed

text \<open>
  Every key of such a query is an attribute of the library, so the encoded text of the query is
  read back as the query.
\<close>

lemma wanted_keys:
  assumes "list_all (offered c) xs" "request_class_ok c" "wanted xs k = Some v"
  shows "query_key k"
proof -
  have "query_key ''fields''" "query_key ''addParents''" "query_key ''visibility''" by (simp_all add: query_key_def)
  moreover have "query_key n" if "x \<in> set xs" "setting_value x = Some (n, v)" "n \<noteq> ''visibility''" for x n v
  proof -
    from assms(2) have attrs: "(a, n) \<in> set (rc_attrs c) \<Longrightarrow> query_key n" for a
      by (auto simp: request_class_ok_def list_all_iff)
    from that(1) assms(1) have "offered c x" by (simp add: list_all_iff)
    with that(2,3) show ?thesis by (induction x) (auto dest: attrs split: if_splits)
  qed
  moreover have "\<exists>x \<in> set xs. \<exists>v. setting_value x = Some (k, v)" if "last_value xs k \<noteq> None"
    using that by (induction xs) (auto split: option.splits if_splits)
  ultimately show ?thesis using assms(3) by (fastforce simp: wanted_def split: if_splits)
qed

text \<open>
  C35: The text of a request's query is read by the other side as exactly the attributes that the
  setters of its class put there, whatever bytes other than NUL their values hold.
\<close>

theorem request_query_received:
  assumes "c \<in> set request_classes" "list_all (offered c) xs" "list_all plain_parent xs" "parent_bytes xs < 2 ^ 29"
    "do_settings c xs new_query = Some s" "\<forall>(k, v) \<in> set (query s). CHR 0x00 \<notin> set v" "query_bound (query s) < 2 ^ 29" "query s \<noteq> []"
  shows "Option.bind (query_encode (query s)) query_read = Some (query s)"
proof -
  from assms(1) request_classes_ok have ok: "request_class_ok c" by (auto simp: list_all_iff)
  with represents_settings [OF represents_new assms(2,3)] assms(4,5) have rep: "represents xs s" by auto
  have "query_key k" if "(k, v) \<in> set (query s)" for k v
    using wanted_keys [OF assms(2) ok, of k v] rep that by (auto simp: represents_def om.entries_find)
  with assms(6) have "\<forall>(k, v) \<in> set (query s). query_key k \<and> CHR 0x00 \<notin> set v" by auto
  from query_text_roundtrip [OF this assms(7,8)] show ?thesis .
qed

theorem request_query_received_witness:
  "Option.bind (query_encode [(''maxResults'', ''100''), (''q'', ''title contains a&b = 50%'')]) query_read
   = Some [(''maxResults'', ''100''), (''q'', ''title contains a&b = 50%'')]"
proof -
  have "itos 100 = ''100''" by code_simp
  then have "do_settings ChildrenListRequest [Set_string ''q'' ''title contains a&b = 50%'', Set_long ''maxResults'' 100] new_query
    = Some \<lparr>query = [(''maxResults'', ''100''), (''q'', ''title contains a&b = 50%'')], parents = []\<rparr>"
    by (simp add: ChildrenListRequest_def ResourceRequest_def new_query_def put_query_def)
  from request_query_received [OF _ _ _ _ this] show ?thesis
    by (simp add: request_classes_def ChildrenListRequest_def ResourceRequest_def plain_parent_def parent_bytes_def query_bound_def)
qed

section \<open>The body of an update\<close>

text \<open>
  The request of a method that carries an item (ResourceAttachedRequest): the fields of HttpRequest
  and the item it points to.
\<close>

record http_request =
  uri :: string
  http_method :: request_method
  http_query :: "(string, string) omap"
  http_header :: "(string, string) omap"
  http_body :: string

record 'v attached_request = http_request +
  resource :: "'v item"

datatype request_exception = CurlException int | GoogleJsonResponseException string

text \<open>
  What lies outside the headers: to_json and from_json of the items, the object JObject makes, its
  pop and put, dumps and loads, and the transfer of a request.
\<close>

record ('v, 'j) gdrive_lib =
  to_json :: "'v item \<Rightarrow> (string, 'j) omap"
  from_json :: "(string, 'j) omap \<Rightarrow> 'v item \<Rightarrow> 'v item"
  new_object :: "(string, 'j) omap"
  object_pop :: "string \<Rightarrow> (string, 'j) omap \<Rightarrow> 'j \<times> (string, 'j) omap"
  object_put :: "string \<Rightarrow> 'j \<Rightarrow> (string, 'j) omap \<Rightarrow> (string, 'j) omap"
  dumps :: "(string, 'j) omap \<Rightarrow> string"
  loads :: "string \<Rightarrow> (string, 'j) omap option"
  transfer :: "'v attached_request \<Rightarrow> (request_exception + int \<times> string)"

definition gdrive_lib_ok :: "('v, 'j) gdrive_lib \<Rightarrow> bool" where
  "gdrive_lib_ok lib \<longleftrightarrow>
     new_object lib = [] \<and>
     (\<forall>k o' j. omap_find k o' = Some j \<longrightarrow> object_pop lib k o' = (j, omap_erase k o')) \<and>
     (\<forall>k j o'. object_put lib k j o' = omap_put k j o')"

definition json_contain :: "string \<Rightarrow> (string, 'j) omap \<Rightarrow> bool" where
  "json_contain k o' \<longleftrightarrow> omap_find k o' \<noteq> None"

text \<open>The loop over the modified fields: what the item writes under a field moves into the body.\<close>

fun move_fields :: "('v, 'j) gdrive_lib \<Rightarrow> string list \<Rightarrow> (string, 'j) omap \<Rightarrow> (string, 'j) omap \<Rightarrow> (string, 'j) omap" where
  "move_fields lib [] tmp rst = rst"
| "move_fields lib (f # fs) tmp rst =
     (if json_contain f tmp
      then (case object_pop lib f tmp of (v, tmp') \<Rightarrow> move_fields lib fs tmp' (object_put lib f v rst))
      else move_fields lib fs tmp rst)"

definition json_encode_body :: "('v, 'j) gdrive_lib \<Rightarrow> 'v attached_request \<Rightarrow> 'v attached_request" where
  "json_encode_body lib r =
     (let fs = get_modified_fields (resource r);
          res = clear_modified (resource r);
          body = c_str (dumps lib (move_fields lib fs (to_json lib res) (new_object lib)))
      in r\<lparr>resource := res, http_body := body,
           http_header := omap_put ''Content-Length'' (itos (word_of_nat (length body)))
             (omap_put ''Content-Type'' ''application/json'' (http_header r))\<rparr>)"

definition get_resource :: "('v, 'j) gdrive_lib \<Rightarrow> int \<times> string \<Rightarrow> 'v item \<Rightarrow> request_exception + 'v item" where
  "get_resource lib resp res =
     (if fst resp \<noteq> 200 then Inl (GoogleJsonResponseException (snd resp))
      else case loads lib (snd resp) of Some o' \<Rightarrow> Inr (from_json lib o' res) | None \<Rightarrow> Inr res)"

definition execute :: "('v, 'j) gdrive_lib \<Rightarrow> 'v attached_request \<Rightarrow> (request_exception + 'v item) \<times> 'v attached_request" where
  "execute lib r =
     (let r1 = json_encode_body lib r
      in (case transfer lib r1 of
            Inl e \<Rightarrow> Inl e
          | Inr resp \<Rightarrow> get_resource lib resp (resource r1), r1))"

text \<open>What a program does with an item and the requests it gives it to.\<close>

datatype 'v item_call = Set_member string 'v | Execute | Clear_item

fun do_item_call :: "('v, 'j) gdrive_lib \<Rightarrow> 'v item_call \<Rightarrow> 'v attached_request \<Rightarrow> 'v attached_request option" where
  "do_item_call lib (Set_member n v) r = map_option (\<lambda>x. r\<lparr>resource := x\<rparr>) (set_member n v (resource r))"
| "do_item_call lib Execute r = Some (snd (execute lib r))"
| "do_item_call lib Clear_item r = Some (r\<lparr>resource := clear_modified (resource r)\<rparr>)"

fun item_calls :: "('v, 'j) gdrive_lib \<Rightarrow> 'v item_call list \<Rightarrow> 'v attached_request \<Rightarrow> 'v attached_request option" where
  "item_calls lib [] r = Some r"
| "item_calls lib (x # xs) r = Option.bind (do_item_call lib x r) (item_calls lib xs)"

text \<open>The members set since the item was last sent or cleared, and the last value of a member.\<close>

fun set_since :: "'v item_call list \<Rightarrow> string set \<Rightarrow> string set" where
  "set_since [] fs = fs"
| "set_since (Set_member n v # xs) fs = set_since xs (insert n fs)"
| "set_since (_ # xs) fs = set_since xs {}"

fun value_after :: "'v item_call list \<Rightarrow> (string \<Rightarrow> 'v) \<Rightarrow> string \<Rightarrow> 'v" where
  "value_after [] val = val"
| "value_after (Set_member n v # xs) val = value_after xs (val(n := v))"
| "value_after (_ # xs) val = value_after xs val"

lemma move_fields_find:
  assumes "gdrive_lib_ok lib" "distinct fs"
  shows "omap_find k (move_fields lib fs tmp rst) =
    (if k \<in> set fs \<and> omap_find k tmp \<noteq> None then omap_find k tmp else omap_find k rst)"
  using assms(2)
proof (induction fs arbitrary: tmp rst)
  case (Cons f fs)
  show ?case
  proof (cases "omap_find f tmp")
    case None
    with Cons show ?thesis by (auto simp: json_contain_def)
  next
    case (Some j)
    with assms(1) have "object_pop lib f tmp = (j, omap_erase f tmp)" "object_put lib f j rst = omap_put f j rst"
      by (auto simp: gdrive_lib_ok_def)
    with Cons Some show ?thesis by (auto simp: json_contain_def omap_find_erase omap_find_put)
  qed
qed simp

lemma move_fields_ok: "gdrive_lib_ok lib \<Longrightarrow> omap_ok rst \<Longrightarrow> omap_ok (move_fields lib fs tmp rst)"
proof (induction fs arbitrary: tmp rst)
  case (Cons f fs)
  then show ?case by (auto simp: gdrive_lib_ok_def omap_ok_put split: prod.split)
qed simp

lemma item_calls_state:
  assumes "item_calls lib xs r = Some r'" "std_set (modified (resource r))"
    "set (modified (resource r)) \<subseteq> set (writable (item_class (resource r)))"
  shows "std_set (modified (resource r')) \<and> set (modified (resource r')) = set_since xs (set (modified (resource r))) \<and>
    member_value (resource r') = value_after xs (member_value (resource r)) \<and> item_class (resource r') = item_class (resource r) \<and>
    set (modified (resource r')) \<subseteq> set (writable (item_class (resource r)))"
  using assms
proof (induction xs arbitrary: r)
  case (Cons x xs)
  from Cons.prems(1) obtain r1 where r1: "do_item_call lib x r = Some r1" "item_calls lib xs r1 = Some r'"
    by (auto simp: bind_eq_Some_conv)
  show ?case
  proof (cases x)
    case (Set_member n v)
    with r1(1) have res: "resource r1 = (resource r)\<lparr>member_value := (member_value (resource r))(n := v),
      modified := set_insert n (modified (resource r))\<rparr>" "n \<in> set (writable (item_class (resource r)))"
      by (auto simp: set_member_def split: if_splits)
    with Cons.IH [OF r1(2)] Cons.prems(2,3) have "std_set (modified (resource r')) \<and>
        set (modified (resource r')) = set_since xs (insert n (set (modified (resource r)))) \<and>
        member_value (resource r') = value_after xs ((member_value (resource r))(n := v)) \<and>
        item_class (resource r') = item_class (resource r) \<and>
        set (modified (resource r')) \<subseteq> set (writable (item_class (resource r)))"
      by (auto simp: std_set_insert fun_upd_def)
    with Set_member show ?thesis by auto
  next
    case Execute
    with r1(1) have "resource r1 = clear_modified (resource r)" by (auto simp: execute_def json_encode_body_def Let_def)
    with Cons.IH [OF r1(2)] Cons.prems Execute show ?thesis by (auto simp: clear_modified_def std_set_def)
  next
    case Clear_item
    with r1(1) have "resource r1 = clear_modified (resource r)" by auto
    with Cons.IH [OF r1(2)] Cons.prems Clear_item show ?thesis by (auto simp: clear_modified_def std_set_def)
  qed
qed simp

text \<open>
  C33: The body of an update holds exactly the changes: the members set since the item was last
  sent, each a member with a setter, with what the item as it now is writes for it, and nothing
  else, whatever was called before.
\<close>

theorem update_sends_changes:
  assumes "gdrive_lib_ok lib" "modified (resource r) = []" "item_calls lib xs r = Some r'"
  shows "\<exists>o'. http_body (json_encode_body lib r') = c_str (dumps lib o') \<and> omap_ok o' \<and>
    set_since xs {} \<subseteq> set (writable (item_class (resource r))) \<and>
    (\<forall>k. omap_find k o' =
      (if k \<in> set_since xs {}
       then omap_find k (to_json lib \<lparr>item_class = item_class (resource r),
              member_value = value_after xs (member_value (resource r)), modified = []\<rparr>)
       else None))"
proof -
  from item_calls_state [OF assms(3)] assms(2) have st: "std_set (modified (resource r'))"
    "set (modified (resource r')) = set_since xs {}" "member_value (resource r') = value_after xs (member_value (resource r))"
    "item_class (resource r') = item_class (resource r)" "set_since xs {} \<subseteq> set (writable (item_class (resource r)))"
    by (auto simp: std_set_def)
  define o' where "o' = move_fields lib (modified (resource r')) (to_json lib (clear_modified (resource r'))) (new_object lib)"
  have clear: "clear_modified (resource r') = \<lparr>item_class = item_class (resource r),
    member_value = value_after xs (member_value (resource r)), modified = []\<rparr>"
    using st by (simp add: clear_modified_def)
  have "distinct (modified (resource r'))" using st(1) by (simp add: std_set_def strict_sorted_iff)
  from move_fields_find [OF assms(1) this] have "omap_find k o' = (if k \<in> set_since xs {}
    then omap_find k (to_json lib (clear_modified (resource r'))) else None)" for k
    using assms(1) st(2) by (auto simp: o'_def gdrive_lib_ok_def omap_find_def)
  moreover have "omap_ok o'"
    using assms(1) unfolding o'_def by (intro move_fields_ok) (auto simp: gdrive_lib_ok_def omap_ok_def)
  moreover have "http_body (json_encode_body lib r') = c_str (dumps lib o')"
    by (simp add: json_encode_body_def Let_def o'_def get_modified_fields_def)
  ultimately show ?thesis using st(5) unfolding clear by blast
qed

text \<open>A library for the examples: an item writes its writable members, an object is printed by its keys.\<close>

definition plain_lib :: "(request_exception + int \<times> string) \<Rightarrow> (string, string) gdrive_lib" where
  "plain_lib answer = \<lparr>
     to_json = (\<lambda>x. fold (\<lambda>n. omap_put n (member_value x n)) (writable (item_class x)) []),
     from_json = (\<lambda>o' x. x), new_object = [],
     object_pop = (\<lambda>k o'. (case omap_find k o' of Some j \<Rightarrow> j | None \<Rightarrow> [], omap_erase k o')),
     object_put = omap_put, dumps = (\<lambda>o'. concat (map (\<lambda>(k, v). k @ '':'' @ v @ '';'') o')),
     loads = (\<lambda>s. Some []), transfer = (\<lambda>r. answer)\<rparr>"

lemma plain_lib_ok: "gdrive_lib_ok (plain_lib a)"
  by (simp add: gdrive_lib_ok_def plain_lib_def)

definition file_patch :: "string attached_request" where
  "file_patch = \<lparr>uri = ''/files/id1'', http_method = RM_PATCH, http_query = [], http_header = [], http_body = [],
     resource = new_item GFile (\<lambda>n. [])\<rparr>"

lemma writable_GFile: "writable GFile =
  [''title'', ''mimeType'', ''description'', ''labels'', ''modifiedDate'', ''parents'', ''indexableText'', ''writersCanShare'']"
  by code_simp

definition file_calls :: "string item_call list" where
  "file_calls = [Set_member ''description'' ''old'', Execute, Set_member ''title'' ''a'', Set_member ''title'' ''b'']"

theorem update_sends_changes_witness:
  "\<exists>r' o'. item_calls (plain_lib (Inr (200, []))) file_calls file_patch = Some r' \<and>
     http_body (json_encode_body (plain_lib (Inr (200, []))) r') = c_str (dumps (plain_lib (Inr (200, []))) o') \<and>
     omap_find ''title'' o' = Some ''b'' \<and> omap_find ''description'' o' = None"
proof -
  let ?lib = "plain_lib (Inr (200, []))"
  have since: "set_since file_calls {} = {''title''}" by (simp add: file_calls_def)
  obtain r' where r': "item_calls ?lib file_calls file_patch = Some r'"
    by (auto simp: file_calls_def file_patch_def new_item_def set_member_def writable_GFile execute_def json_encode_body_def
        Let_def clear_modified_def)
  have written: "omap_find ''title'' (to_json ?lib \<lparr>item_class = item_class (resource file_patch),
    member_value = value_after file_calls (member_value (resource file_patch)), modified = []\<rparr>) = Some ''b''"
    by code_simp
  have "modified (resource file_patch) = []" by (simp add: file_patch_def new_item_def)
  from update_sends_changes [OF plain_lib_ok this r'] obtain o' where
    o': "http_body (json_encode_body ?lib r') = c_str (dumps ?lib o')"
    and found: "\<And>k. omap_find k o' = (if k \<in> set_since file_calls {}
      then omap_find k (to_json ?lib \<lparr>item_class = item_class (resource file_patch),
        member_value = value_after file_calls (member_value (resource file_patch)), modified = []\<rparr>) else None)"
    by blast
  have "omap_find ''title'' o' = Some ''b''" using found [of "''title''"] since written by simp
  moreover have "omap_find ''description'' o' = None" using found [of "''description''"] since by simp
  ultimately show ?thesis using r' o' by blast
qed

text \<open>
  C34: An update that failed is lost: the fields were cleared before the request was sent, so the
  next execute with the same item sends an empty object, although nothing was accepted.
\<close>

theorem failed_update_is_lost:
  assumes "execute lib r = (Inl e, r')"
  shows "http_body (snd (execute lib r')) = c_str (dumps lib (new_object lib)) \<and> modified (resource r') = []"
proof -
  from assms have "r' = json_encode_body lib r" by (simp add: execute_def Let_def)
  then have "modified (resource r') = []" by (simp add: json_encode_body_def Let_def clear_modified_def)
  then show ?thesis by (simp add: execute_def json_encode_body_def [of lib r'] Let_def get_modified_fields_def)
qed

theorem failed_update_is_lost_witness:
  "\<exists>r' e. set_member ''title'' ''a'' (resource file_patch) = Some r' \<and>
     fst (execute (plain_lib (Inl (CurlException 28))) (file_patch\<lparr>resource := r'\<rparr>)) = Inl e \<and>
     http_body (snd (execute (plain_lib (Inl (CurlException 28)))
       (snd (execute (plain_lib (Inl (CurlException 28))) (file_patch\<lparr>resource := r'\<rparr>))))) = c_str (dumps (plain_lib (Inl (CurlException 28))) [])"
proof -
  let ?lib = "plain_lib (Inl (CurlException 28))"
  obtain x where x: "set_member ''title'' ''a'' (resource file_patch) = Some x"
    by (simp add: file_patch_def new_item_def set_member_def writable_GFile)
  let ?r = "file_patch\<lparr>resource := x\<rparr>"
  have "execute ?lib ?r = (Inl (CurlException 28), snd (execute ?lib ?r))"
    by (simp add: execute_def Let_def plain_lib_def)
  from failed_update_is_lost [OF this] have "http_body (snd (execute ?lib (snd (execute ?lib ?r)))) = c_str (dumps ?lib [])"
    by (simp add: plain_lib_def)
  moreover have "fst (execute ?lib ?r) = Inl (CurlException 28)" by (simp add: execute_def Let_def plain_lib_def)
  ultimately show ?thesis using x by blast
qed

section \<open>Reading a body in pieces\<close>

text \<open>MemoryString, from which the transfer takes the body: the text and the position in it.\<close>

record memory_string =
  ms_str :: string
  ms_size :: nat
  ms_pos :: nat

definition MemoryString :: "string \<Rightarrow> memory_string" where
  "MemoryString s = \<lparr>ms_str = s, ms_size = length s, ms_pos = 0\<rparr>"

text \<open>One call with room for n bytes.\<close>

definition memory_read :: "nat \<Rightarrow> memory_string \<Rightarrow> string \<times> memory_string" where
  "memory_read n m =
     (if ms_size m - ms_pos m = 0 then ([], m)
      else let len = (if ms_size m - ms_pos m > n then n else ms_size m - ms_pos m)
           in (take len (drop (ms_pos m) (ms_str m)), m\<lparr>ms_pos := ms_pos m + len\<rparr>))"

fun memory_reads :: "nat list \<Rightarrow> memory_string \<Rightarrow> string" where
  "memory_reads [] m = []"
| "memory_reads (n # ns) m = (case memory_read n m of (piece, m') \<Rightarrow> piece @ memory_reads ns m')"

lemma memory_reads_at:
  "ms_size m = length (ms_str m) \<Longrightarrow> ms_pos m \<le> ms_size m \<Longrightarrow> memory_reads ns m = take (sum_list ns) (drop (ms_pos m) (ms_str m))"
proof (induction ns arbitrary: m)
  case (Cons n ns)
  show ?case
  proof (cases "ms_size m - ms_pos m > n")
    case True
    with Cons.IH [of "m\<lparr>ms_pos := ms_pos m + n\<rparr>"] Cons.prems show ?thesis
      by (simp add: memory_read_def Let_def take_add add.commute)
  next
    case False
    with Cons.prems Cons.IH [of m] Cons.IH [of "m\<lparr>ms_pos := ms_size m\<rparr>"] show ?thesis
      by (auto simp: memory_read_def Let_def)
  qed
qed simp

text \<open>Whatever the sizes of the buffers, the pieces are the body in order, nothing left out or repeated.\<close>

lemma memory_reads_body: "memory_reads ns (MemoryString s) = take (sum_list ns) s"
  by (simp add: memory_reads_at MemoryString_def)

end
