(* ===== verification/Saf_Handles.thy ===== *)
theory Saf_Handles
  imports Saf_Upnp Saf_Varstring
begin

text \<open>
  What the UPnP classes hold of their libraries: the libxml2 document of an XMLHandler
  (providers/upnp/XmlHandler.cpp) and the GLib objects of UpnpDiscover
  (providers/upnp/UpnpDiscover.cpp), from the constructor to the destructor. The trees and the
  devices themselves are in Saf_Upnp.
\<close>

section \<open>What is made and released\<close>

text \<open>Everything the libraries make gets the next number; \<open>released\<close> lists what was freed, in order.\<close>

record ledger =
  made :: nat
  released :: "nat list"

definition ledger_init :: ledger where
  "ledger_init = \<lparr>made = 0, released = []\<rparr>"

definition obtain_one :: "ledger \<Rightarrow> nat \<times> ledger" where
  "obtain_one l = (made l, l\<lparr>made := made l + 1\<rparr>)"

definition release :: "nat option \<Rightarrow> ledger \<Rightarrow> ledger" where
  "release x l = (case x of None \<Rightarrow> l | Some n \<Rightarrow> l\<lparr>released := released l @ [n]\<rparr>)"

text \<open>Of what was made, all but the held is released, once, and nothing held is released.\<close>

definition balanced :: "nat set \<Rightarrow> ledger \<Rightarrow> bool" where
  "balanced held l \<longleftrightarrow> distinct (released l) \<and> set (released l) \<inter> held = {} \<and> set (released l) \<union> held = {..<made l}"

lemma balanced_init [simp]: "balanced {} ledger_init"
  by (simp add: balanced_def ledger_init_def)

lemma balanced_obtain:
  assumes "balanced held l" "obtain_one l = (n, l')"
  shows "balanced (insert n held) l' \<and> n \<notin> held"
proof -
  from assms have n: "n = made l" "released l' = released l" "made l' = Suc (made l)" by (auto simp: obtain_one_def)
  moreover from assms(1) have "made l \<notin> set (released l) \<union> held" by (simp add: balanced_def)
  ultimately show ?thesis using assms(1) by (auto simp: balanced_def lessThan_Suc)
qed

lemma balanced_release: "balanced held l \<Longrightarrow> set_option x \<subseteq> held \<Longrightarrow> balanced (held - set_option x) (release x l)"
  by (auto simp: balanced_def release_def split: option.splits)

text \<open>
  An object that holds things of a library: its steps keep the balance, and its destructor
  releases what it holds. Then nothing is ever freed twice and nothing is left behind.
\<close>

locale owner =
  fixes start :: "'s \<Rightarrow> bool" and step :: "'s \<Rightarrow> 's \<Rightarrow> bool" and destroy :: "'s \<Rightarrow> 's"
    and held :: "'s \<Rightarrow> nat set" and ledger :: "'s \<Rightarrow> ledger" and ok :: "'s \<Rightarrow> bool"
  assumes start_ok: "start s \<Longrightarrow> ok s \<and> balanced (held s) (ledger s)"
    and step_ok: "step s s' \<Longrightarrow> ok s \<Longrightarrow> balanced (held s) (ledger s) \<Longrightarrow> ok s' \<and> balanced (held s') (ledger s')"
    and destroy_ok: "ok s \<Longrightarrow> balanced (held s) (ledger s) \<Longrightarrow> balanced {} (ledger (destroy s))"
begin

lemma life_ok: "step\<^sup>*\<^sup>* s s' \<Longrightarrow> start s \<Longrightarrow> ok s' \<and> balanced (held s') (ledger s')"
  by (induction rule: rtranclp_induct) (auto dest: start_ok step_ok)

lemma all_released:
  assumes "start s" "step\<^sup>*\<^sup>* s s'"
  shows "distinct (released (ledger (destroy s'))) \<and> set (released (ledger (destroy s'))) = {..<made (ledger (destroy s'))}"
  using life_ok [OF assms(2,1)] destroy_ok [of s'] by (auto simp: balanced_def)

end

section \<open>XMLHandler\<close>

text \<open>
  libxml2: what reading a file or a text gives, None when it gives no document; a document may
  have no root.
\<close>

record libxml =
  xmlReadFile :: "string \<Rightarrow> int \<Rightarrow> xml option option"
  xmlReadDoc :: "string \<Rightarrow> xml option option"

record xml_handler =
  mDoc :: "nat option"
  mRoot :: "xml option"
  mFileName :: string
  mXmlContents :: string
  mOptions :: int
  mRes :: string
  docs :: ledger

definition take_doc :: "xml option option \<Rightarrow> xml_handler \<Rightarrow> xml_handler" where
  "take_doc r h =
     (case r of
        None \<Rightarrow> h\<lparr>mDoc := None, mRoot := None\<rparr>
      | Some root \<Rightarrow> (case obtain_one (docs h) of (d, l) \<Rightarrow> h\<lparr>mDoc := Some d, mRoot := root, docs := l\<rparr>))"

definition xml_init :: "libxml \<Rightarrow> xml_handler \<Rightarrow> xml_handler" where
  "xml_init lib h =
     (if mFileName h \<noteq> [] then take_doc (xmlReadFile lib (c_str (mFileName h)) (mOptions h)) h
      else if mXmlContents h \<noteq> [] then take_doc (xmlReadDoc lib (c_str (mXmlContents h))) h
      else h)"

definition xml_deinit :: "xml_handler \<Rightarrow> xml_handler" where
  "xml_deinit h =
     (if mDoc h \<noteq> None
      then h\<lparr>docs := release (mDoc h) (docs h), mDoc := None, mRoot := None, mRes := []\<rparr> else h)"

definition setXmlContent :: "libxml \<Rightarrow> string \<Rightarrow> xml_handler \<Rightarrow> xml_handler" where
  "setXmlContent lib xml h =
     (let h1 = (xml_deinit h)\<lparr>mXmlContents := xml\<rparr> in take_doc (xmlReadDoc lib (c_str (mXmlContents h1))) h1)"

definition xml_members :: "string \<Rightarrow> string \<Rightarrow> int \<Rightarrow> xml_handler" where
  "xml_members file contents opts =
     \<lparr>mDoc = None, mRoot = None, mFileName = file, mXmlContents = contents, mOptions = opts, mRes = [], docs = ledger_init\<rparr>"

definition XMLHandler :: "libxml \<Rightarrow> xml_handler" where
  "XMLHandler lib = xml_init lib (xml_members [] [] 0)"

definition XMLHandler_contents :: "libxml \<Rightarrow> string \<Rightarrow> xml_handler" where
  "XMLHandler_contents lib xmlContents = xml_init lib (xml_members [] xmlContents 0)"

definition XMLHandler_file :: "libxml \<Rightarrow> string \<Rightarrow> int \<Rightarrow> xml_handler" where
  "XMLHandler_file lib fileName options = xml_init lib (xml_members fileName [] options)"

definition xml_destroy :: "xml_handler \<Rightarrow> xml_handler" where
  "xml_destroy h = xml_deinit h"

inductive xml_start :: "libxml \<Rightarrow> xml_handler \<Rightarrow> bool" for lib where
  "xml_start lib (XMLHandler lib)"
| "xml_start lib (XMLHandler_contents lib s)"
| "xml_start lib (XMLHandler_file lib f n)"

inductive xml_step :: "libxml \<Rightarrow> xml_handler \<Rightarrow> xml_handler \<Rightarrow> bool" for lib where
  "xml_step lib h (setXmlContent lib s h)"

definition xml_held :: "xml_handler \<Rightarrow> nat set" where
  "xml_held h = set_option (mDoc h)"

text \<open>The root belongs to the document that is held.\<close>

definition xml_ok :: "xml_handler \<Rightarrow> bool" where
  "xml_ok h \<longleftrightarrow> (mDoc h = None \<longrightarrow> mRoot h = None)"

lemma take_doc_ok:
  assumes "balanced {} (docs h)"
  shows "xml_ok (take_doc r h) \<and> balanced (xml_held (take_doc r h)) (docs (take_doc r h))"
  using assms balanced_obtain [OF assms] by (auto simp: take_doc_def xml_ok_def xml_held_def split: option.splits prod.splits)

lemma xml_deinit_ok: "balanced (xml_held h) (docs h) \<Longrightarrow> balanced {} (docs (xml_deinit h))"
  using balanced_release [of "xml_held h" "docs h" "mDoc h"] by (auto simp: xml_deinit_def xml_held_def)

lemma xml_init_ok:
  "xml_ok (xml_init lib (xml_members f s n)) \<and> balanced (xml_held (xml_init lib (xml_members f s n))) (docs (xml_init lib (xml_members f s n)))"
  using take_doc_ok [of "xml_members f s n"] by (auto simp: xml_init_def xml_members_def xml_ok_def xml_held_def)

interpretation xml_owner: owner "xml_start lib" "xml_step lib" xml_destroy xml_held docs xml_ok
proof
  fix s s' :: xml_handler
  show "xml_start lib s \<Longrightarrow> xml_ok s \<and> balanced (xml_held s) (docs s)"
    using xml_init_ok by (auto elim!: xml_start.cases simp: XMLHandler_def XMLHandler_contents_def XMLHandler_file_def)
  show "xml_step lib s s' \<Longrightarrow> xml_ok s \<Longrightarrow> balanced (xml_held s) (docs s) \<Longrightarrow> xml_ok s' \<and> balanced (xml_held s') (docs s')"
    by (erule xml_step.cases) (simp add: setXmlContent_def Let_def take_doc_ok xml_deinit_ok)
  show "xml_ok s \<Longrightarrow> balanced (xml_held s) (docs s) \<Longrightarrow> balanced {} (docs (xml_destroy s))"
    by (simp add: xml_destroy_def xml_deinit_ok)
qed

text \<open>
  Whatever texts an XMLHandler is given one after the other, at any time it holds at most the
  document of the last one, all earlier documents are freed, each once, and when it is destroyed
  nothing is left.
\<close>

theorem xml_documents_released:
  assumes "xml_start lib h" "(xml_step lib)\<^sup>*\<^sup>* h h'"
  shows "balanced (set_option (mDoc h')) (docs h') \<and> (mDoc h' = None \<longrightarrow> mRoot h' = None) \<and>
    distinct (released (docs (xml_destroy h'))) \<and> set (released (docs (xml_destroy h'))) = {..<made (docs (xml_destroy h'))}"
  using xml_owner.life_ok [OF assms(2,1)] xml_owner.all_released [OF assms] by (simp add: xml_held_def xml_ok_def)

theorem xml_documents_released_witness:
  "\<exists>h. docs (xml_destroy h) = \<lparr>made = 2, released = [0, 1]\<rparr> \<and>
     distinct (released (docs (xml_destroy h))) \<and> set (released (docs (xml_destroy h))) = {..<made (docs (xml_destroy h))}"
proof -
  define lib where "lib = \<lparr>xmlReadFile = (\<lambda>f n. None), xmlReadDoc = (\<lambda>s. if s = ''broken'' then None else Some (Some (Characters s)))\<rparr>"
  define h where "h = XMLHandler_contents lib ''<a/>''"
  define h' where "h' = setXmlContent lib ''broken'' (setXmlContent lib ''<b/>'' h)"
  have "xml_start lib h" unfolding h_def by (rule xml_start.intros(2))
  moreover have "(xml_step lib)\<^sup>*\<^sup>* h h'"
    unfolding h'_def by (meson xml_step.intros rtranclp.rtrancl_into_rtrancl rtranclp.rtrancl_refl)
  ultimately have "distinct (released (docs (xml_destroy h'))) \<and> set (released (docs (xml_destroy h'))) = {..<made (docs (xml_destroy h'))}"
    using xml_documents_released by blast
  moreover have "docs (xml_destroy h') = \<lparr>made = 2, released = [0, 1]\<rparr>"
    by (simp add: h'_def h_def lib_def XMLHandler_contents_def xml_init_def xml_members_def setXmlContent_def xml_deinit_def Let_def
        take_doc_def obtain_one_def release_def ledger_init_def c_str_def xml_destroy_def)
  ultimately show ?thesis by blast
qed

section \<open>UpnpDiscover\<close>

text \<open>
  The members of mDiscover, mMsgType and the scan flag; nothing sets mInterface and mTarget, which
  stay NULL. \<open>scan_starts\<close>: whether gssdp_client_new gives a client for a scan.
\<close>

record discover_objects =
  main_loop :: "nat option"
  client :: "nat option"
  browser :: "nat option"
  msg_type :: "(nat \<times> string) option"
  scanning :: bool
  objects :: ledger

definition UpnpDiscover :: discover_objects where
  "UpnpDiscover = \<lparr>main_loop = None, client = None, browser = None, msg_type = None, scanning = False, objects = ledger_init\<rparr>"

definition need_client :: "discover_objects \<Rightarrow> discover_objects" where
  "need_client d =
     (if client d = None then (case obtain_one (objects d) of (n, l) \<Rightarrow> d\<lparr>client := Some n, objects := l\<rparr>) else d)"

definition need_browser :: "discover_objects \<Rightarrow> discover_objects" where
  "need_browser d =
     (if browser d = None then (case obtain_one (objects d) of (n, l) \<Rightarrow> d\<lparr>browser := Some n, objects := l\<rparr>) else d)"

definition need_msg_type :: "discover_objects \<Rightarrow> discover_objects" where
  "need_msg_type d =
     (if msg_type d = None then (case obtain_one (objects d) of (n, l) \<Rightarrow> d\<lparr>msg_type := Some (n, ''available''), objects := l\<rparr>) else d)"

definition need_loop :: "discover_objects \<Rightarrow> discover_objects" where
  "need_loop d =
     (if main_loop d = None then (case obtain_one (objects d) of (n, l) \<Rightarrow> d\<lparr>main_loop := Some n, objects := l\<rparr>) else d)"

definition drop_scan_objects :: "discover_objects \<Rightarrow> discover_objects" where
  "drop_scan_objects d =
     d\<lparr>objects := release (client d) (release (browser d) (objects d)), browser := None, client := None\<rparr>"

definition scan_objects :: "bool \<Rightarrow> discover_objects \<Rightarrow> discover_objects" where
  "scan_objects scan_starts d =
     (if scanning d then d
      else (let d1 = d\<lparr>scanning := True\<rparr>
            in if client d = None \<and> \<not> scan_starts then d1
               else (let d2 = need_msg_type (need_browser (need_client d1))
                     in case msg_type d2 of
                          Some (n, t) \<Rightarrow>
                            if \<not> (wants_available t \<or> wants_unavailable t) then d2
                            else (drop_scan_objects (need_loop d2))\<lparr>scanning := False\<rparr>
                        | None \<Rightarrow> d2)))"

definition discover_destroy :: "discover_objects \<Rightarrow> discover_objects" where
  "discover_destroy d =
     d\<lparr>objects := release (map_option fst (msg_type d)) (release (client d) (release (browser d) (release (main_loop d) (objects d)))),
       main_loop := None, client := None, browser := None, msg_type := None\<rparr>"

inductive discover_step :: "discover_objects \<Rightarrow> discover_objects \<Rightarrow> bool" where
  "discover_step d (scan_objects scan_starts d)"

definition ids_of :: "nat option \<Rightarrow> nat list" where
  "ids_of x = (case x of None \<Rightarrow> [] | Some n \<Rightarrow> [n])"

definition discover_ids :: "discover_objects \<Rightarrow> nat list" where
  "discover_ids d = ids_of (main_loop d) @ ids_of (client d) @ ids_of (browser d) @ ids_of (map_option fst (msg_type d))"

definition discover_held :: "discover_objects \<Rightarrow> nat set" where
  "discover_held d = set (discover_ids d)"

text \<open>The members name different objects, all in balance with what was made and released.\<close>

definition discover_sound :: "discover_objects \<Rightarrow> bool" where
  "discover_sound d \<longleftrightarrow> distinct (discover_ids d) \<and> balanced (discover_held d) (objects d) \<and>
     (msg_type d = None \<or> snd (the (msg_type d)) = ''available'')"

text \<open>Between two scans no client and no browser is held.\<close>

definition discover_ok :: "discover_objects \<Rightarrow> bool" where
  "discover_ok d \<longleftrightarrow> discover_sound d \<and> client d = None \<and> browser d = None"

lemma ids_of_simps [simp]: "ids_of None = []" "ids_of (Some n) = [n]"
  by (simp_all add: ids_of_def)

lemma set_ids_of [simp]: "set (ids_of x) = set_option x"
  by (cases x) simp_all

lemma balanced_new:
  assumes "balanced held l"
  shows "made l \<notin> held" "balanced (insert (made l) held) (l\<lparr>made := Suc (made l)\<rparr>)"
  using balanced_obtain [OF assms, of "made l" "l\<lparr>made := Suc (made l)\<rparr>"] by (simp_all add: obtain_one_def)

lemma need_sound:
  assumes "discover_sound d"
  shows "discover_sound (need_client d)" "discover_sound (need_browser d)" "discover_sound (need_msg_type d)" "discover_sound (need_loop d)"
proof -
  from assms have bal: "balanced (discover_held d) (objects d)" by (simp add: discover_sound_def)
  note new = balanced_new [OF bal]
  show "discover_sound (need_client d)" "discover_sound (need_browser d)" "discover_sound (need_msg_type d)" "discover_sound (need_loop d)"
    using assms new
    by (auto simp: discover_sound_def discover_held_def discover_ids_def need_client_def need_browser_def need_msg_type_def need_loop_def
        obtain_one_def insert_commute)
qed

lemma sound_scanning [simp]: "discover_sound (d\<lparr>scanning := b\<rparr>) = discover_sound d"
  by (simp add: discover_sound_def discover_held_def discover_ids_def)

lemma drop_sound:
  assumes "discover_sound d"
  shows "discover_ok (drop_scan_objects d)"
proof -
  from assms have d: "distinct (discover_ids d)" and bal: "balanced (discover_held d) (objects d)" by (simp_all add: discover_sound_def)
  have "balanced (discover_held d - set_option (browser d) - set_option (client d)) (release (client d) (release (browser d) (objects d)))"
    using d by (intro balanced_release bal) (auto simp: discover_held_def discover_ids_def)
  moreover have "discover_held d - set_option (browser d) - set_option (client d) = discover_held (drop_scan_objects d)"
    using d by (auto simp: discover_held_def discover_ids_def drop_scan_objects_def)
  ultimately show ?thesis
    using assms d by (auto simp: discover_ok_def discover_sound_def drop_scan_objects_def discover_ids_def)
qed

lemma ok_scanning [simp]: "discover_ok (d\<lparr>scanning := b\<rparr>) = discover_ok d"
  by (simp add: discover_ok_def)

lemma wants_default: "wants_available ''available''"
  by code_simp

lemma scan_ok:
  assumes "discover_ok d"
  shows "discover_ok (scan_objects b d) \<and> (b \<and> \<not> scanning d \<longrightarrow> \<not> scanning (scan_objects b d))"
proof -
  define d2 where "d2 = need_msg_type (need_browser (need_client (d\<lparr>scanning := True\<rparr>)))"
  from assms have "discover_sound d2" unfolding d2_def discover_ok_def by (intro need_sound) simp
  moreover have "msg_type d2 \<noteq> None" by (simp add: d2_def need_msg_type_def split: prod.split)
  ultimately obtain n where n: "msg_type d2 = Some (n, ''available'')" by (auto simp: discover_sound_def)
  have "discover_ok (drop_scan_objects (need_loop d2))" using \<open>discover_sound d2\<close> by (intro drop_sound need_sound)
  with assms n wants_default show ?thesis
    by (auto simp: scan_objects_def Let_def d2_def [symmetric])
qed

lemma destroy_balanced:
  assumes "discover_sound d"
  shows "balanced {} (objects (discover_destroy d))"
proof -
  from assms have d: "distinct (discover_ids d)" and bal: "balanced (discover_held d) (objects d)" by (simp_all add: discover_sound_def)
  let ?m = "map_option fst (msg_type d)"
  have "balanced (discover_held d - set_option (main_loop d) - set_option (browser d) - set_option (client d) - set_option ?m)
    (release ?m (release (client d) (release (browser d) (release (main_loop d) (objects d)))))"
    using d by (intro balanced_release bal) (auto simp: discover_held_def discover_ids_def)
  moreover have "discover_held d - set_option (main_loop d) - set_option (browser d) - set_option (client d) - set_option ?m = {}"
    by (auto simp: discover_held_def discover_ids_def)
  ultimately show ?thesis by (simp add: discover_destroy_def)
qed

interpretation discover_owner: owner "\<lambda>d. d = UpnpDiscover" discover_step discover_destroy discover_held objects discover_ok
proof
  fix d d' :: discover_objects
  show "d = UpnpDiscover \<Longrightarrow> discover_ok d \<and> balanced (discover_held d) (objects d)"
    by (simp add: discover_ok_def discover_sound_def discover_held_def discover_ids_def UpnpDiscover_def)
  show "discover_step d d' \<Longrightarrow> discover_ok d \<Longrightarrow> balanced (discover_held d) (objects d) \<Longrightarrow>
      discover_ok d' \<and> balanced (discover_held d') (objects d')"
    by (erule discover_step.cases) (metis scan_ok discover_ok_def discover_sound_def)
  show "discover_ok d \<Longrightarrow> balanced (discover_held d) (objects d) \<Longrightarrow> balanced {} (objects (discover_destroy d))"
    by (simp add: discover_ok_def destroy_balanced)
qed

text \<open>
  However many scans there are and whichever of them get no client, between two scans the
  discovery holds at most its main loop and its message type, every client and browser it made is
  released, each once, and when it is destroyed nothing is left.
\<close>

theorem discovery_objects_released:
  assumes "discover_step\<^sup>*\<^sup>* UpnpDiscover d"
  shows "client d = None \<and> browser d = None \<and> balanced (discover_held d) (objects d) \<and>
    distinct (released (objects (discover_destroy d))) \<and> set (released (objects (discover_destroy d))) = {..<made (objects (discover_destroy d))}"
  using discover_owner.life_ok [OF assms refl] discover_owner.all_released [OF refl assms] by (simp add: discover_ok_def)

theorem discovery_objects_released_witness:
  "\<exists>d. discover_step\<^sup>*\<^sup>* UpnpDiscover d \<and> made (objects d) = 6 \<and> released (objects d) = [1, 0, 5, 4] \<and>
     distinct (released (objects (discover_destroy d)))"
proof -
  let ?d = "scan_objects True (scan_objects True UpnpDiscover)"
  have "discover_step\<^sup>*\<^sup>* UpnpDiscover ?d"
    by (meson discover_step.intros rtranclp.rtrancl_into_rtrancl rtranclp.rtrancl_refl)
  moreover have "made (objects ?d) = 6 \<and> released (objects ?d) = [1, 0, 5, 4]" by code_simp
  ultimately show ?thesis using discovery_objects_released [of ?d] by blast
qed

text \<open>A scan that gets no client leaves the flag set: no later scan does anything.\<close>

lemma failed_scan_is_last: "scan_objects b (scan_objects False UpnpDiscover) = UpnpDiscover\<lparr>scanning := True\<rparr>"
  by (simp add: scan_objects_def UpnpDiscover_def)

end
