(* ===== verification/Saf_Logging.thy ===== *)
theory Saf_Logging
  imports Saf_Varstring
begin

text \<open>
  The two loggers of the Google Drive library: Logger of common/logging.hpp and LogMessage of
  common/loggingv2.hpp with its macros. What they write to stderr is a string; an error ends the
  process.
\<close>

section \<open>Names of files\<close>

text \<open>The loop of baseFilename goes from the terminator down and stops in front of the first character.\<close>

fun base_from :: "string \<Rightarrow> nat \<Rightarrow> string" where
  "base_from path 0 = path"
| "base_from path (Suc p) = (if Suc p < length path \<and> path ! Suc p = CHR ''/'' then drop (Suc (Suc p)) path else base_from path p)"

definition baseFilename :: "string \<Rightarrow> string" where
  "baseFilename path = base_from path (length path)"

lemma base_from_rest:
  "\<forall>i. p < i \<and> i < length path \<longrightarrow> path ! i \<noteq> CHR ''/'' \<Longrightarrow>
   base_from path p = (case chr_rfind (CHR ''/'') path of None \<Rightarrow> path | Some n \<Rightarrow> if n = 0 then path else drop (Suc n) path)"
proof (induction p)
  case 0
  show ?case
  proof (cases "chr_rfind (CHR ''/'') path")
    case (Some n)
    then have "CHR ''/'' \<in> set path" by (metis chr_rfind_None option.distinct(1))
    then obtain u v where uv: "path = u @ CHR ''/'' # v" "CHR ''/'' \<notin> set v" by (rule chr_split_last)
    with Some have "n = length u" by (simp add: chr_rfind_append)
    with 0 [rule_format, of n] uv have "n = 0" by (cases n) auto
    with Some show ?thesis by simp
  next
    case None
    show ?thesis by (subst None) simp
  qed
next
  case (Suc p)
  show ?case
  proof (cases "Suc p < length path \<and> path ! Suc p = CHR ''/''")
    case True
    then have split: "path = take (Suc p) path @ CHR ''/'' # drop (Suc (Suc p)) path" by (metis id_take_nth_drop)
    have "CHR ''/'' \<notin> set (drop (Suc (Suc p)) path)"
    proof
      assume "CHR ''/'' \<in> set (drop (Suc (Suc p)) path)"
      then obtain i where "i < length path - Suc (Suc p)" "path ! (Suc (Suc p) + i) = CHR ''/''"
        by (auto simp: in_set_conv_nth)
      with Suc.prems [rule_format, of "Suc (Suc p) + i"] show False by simp
    qed
    with True have "chr_rfind (CHR ''/'') path = Some (Suc p)"
      by (subst split) (simp add: chr_rfind_append)
    with True show ?thesis by simp
  next
    case False
    with Suc.prems have "\<forall>i. p < i \<and> i < length path \<longrightarrow> path ! i \<noteq> CHR ''/''" by (metis Suc_lessI)
    from Suc.IH [OF this] False show ?thesis by auto
  qed
qed

text \<open>The part behind the last slash, but a slash in front of everything is not seen.\<close>

lemma baseFilename_last:
  "baseFilename path = (case chr_rfind (CHR ''/'') path of None \<Rightarrow> path | Some n \<Rightarrow> if n = 0 then path else drop (Suc n) path)"
  unfolding baseFilename_def by (rule base_from_rest) auto

section \<open>Logger\<close>

datatype level = L_DEBUG | L_INFO | L_WARN | L_ERROR | L_FATAL

fun level_rank :: "level \<Rightarrow> nat" where
  "level_rank L_DEBUG = 0" | "level_rank L_INFO = 1" | "level_rank L_WARN = 2" | "level_rank L_ERROR = 3" | "level_rank L_FATAL = 4"

fun level_literal :: "level \<Rightarrow> string" where
  "level_literal L_DEBUG = ''Debug''" | "level_literal L_INFO = ''Info''" | "level_literal L_WARN = ''Warn''"
| "level_literal L_ERROR = ''Error''" | "level_literal L_FATAL = ''Fatal''"

text \<open>\<open>class_name\<close> is None for LT_FUNCTION.\<close>

record logger =
  logger_level :: level
  class_name :: "string option"

definition Logger :: logger where
  "Logger = \<lparr>logger_level = L_INFO, class_name = None\<rparr>"

definition setLevel :: "level \<Rightarrow> logger \<Rightarrow> logger" where
  "setLevel l x = x\<lparr>logger_level := l\<rparr>"

definition setClassName :: "string \<Rightarrow> logger \<Rightarrow> logger" where
  "setClassName c x = x\<lparr>class_name := Some c\<rparr>"

text \<open>The format is built in 511 bytes; \<open>print\<close> is vfprintf with the arguments. True: the process exits.\<close>

definition logger_log :: "(string \<Rightarrow> string) \<Rightarrow> logger \<Rightarrow> string \<Rightarrow> string \<Rightarrow> int \<Rightarrow> level \<Rightarrow> string \<Rightarrow> string \<times> bool" where
  "logger_log print x funcname filename lineno l fmt =
     (if level_rank l < level_rank (logger_level x) then ([], False)
      else (let place = '' @ ['' @ baseFilename filename @ ''|'' @ int_str lineno @ ''] '' @ fmt;
                full = (case class_name x of
                          None \<Rightarrow> level_literal l @ '' '' @ funcname @ place
                        | Some c \<Rightarrow> level_literal l @ '' '' @ c @ '':'' @ funcname @ place)
            in (print (take 510 full) @ (if l = L_ERROR \<or> l = L_FATAL then ''Abort!'' @ [CHR 0x0A] else []),
                l = L_ERROR \<or> l = L_FATAL)))"

text \<open>A logger that reports an error ends the process, unless its level is L_FATAL and only an error is reported.\<close>

lemma logger_error_exits: "snd (logger_log print x f n i L_ERROR fmt) \<longleftrightarrow> logger_level x \<noteq> L_FATAL"
  by (cases "logger_level x") (simp_all add: logger_log_def Let_def)

section \<open>LogMessage\<close>

definition log_literal :: "string list" where
  "log_literal = [''None'', ''Debug'', ''Info'', ''Warn'', ''Error'', ''Fatal'']"

definition LOGGINGV2_NONE :: nat where "LOGGINGV2_NONE = 0"
definition LOGGINGV2_FATAL :: nat where "LOGGINGV2_FATAL = 4"

text \<open>\<open>limit\<close> is LIMIT: 1, or 2 with NDEBUG.\<close>

record log_message =
  severity :: nat
  stream :: string

definition log_put :: "nat \<Rightarrow> string \<Rightarrow> log_message \<Rightarrow> log_message" where
  "log_put limit t m = (if limit \<le> severity m then m\<lparr>stream := stream m @ t\<rparr> else m)"

definition LogMessage :: "nat \<Rightarrow> nat \<Rightarrow> string \<Rightarrow> int \<Rightarrow> log_message" where
  "LogMessage limit sev filename lineno =
     (let m = \<lparr>severity = sev, stream = []\<rparr>
      in if sev \<noteq> LOGGINGV2_NONE
         then fold (log_put limit) [log_literal ! sev, '' ['', baseFilename filename, ''|'', int_str lineno, ''] ''] m
         else m)"

definition log_destroy :: "nat \<Rightarrow> log_message \<Rightarrow> string \<times> bool" where
  "log_destroy limit m =
     ((if limit \<le> severity m then stream m else []) @ (if severity m = LOGGINGV2_FATAL then ''Abort'' @ [CHR 0x0A] else []),
      severity m = LOGGINGV2_FATAL)"

definition LOG :: "nat \<Rightarrow> nat \<Rightarrow> string \<Rightarrow> int \<Rightarrow> string list \<Rightarrow> string \<times> bool" where
  "LOG limit sev filename lineno pieces = log_destroy limit (fold (log_put limit) pieces (LogMessage limit sev filename lineno))"

definition LOG_IF :: "nat \<Rightarrow> bool \<Rightarrow> nat \<Rightarrow> string \<Rightarrow> int \<Rightarrow> string list \<Rightarrow> string \<times> bool" where
  "LOG_IF limit expr sev = (if expr then LOG limit sev else LOG limit LOGGINGV2_NONE)"

text \<open>CHECK_OP, for the outcome of the comparison.\<close>

definition CHECK_OP :: "nat \<Rightarrow> bool \<Rightarrow> string \<Rightarrow> int \<Rightarrow> string list \<Rightarrow> string \<times> bool" where
  "CHECK_OP limit okay = (if okay then LOG limit LOGGINGV2_NONE else LOG limit LOGGINGV2_FATAL)"

lemma fold_log_put: "severity (fold (log_put limit) ts m) = severity m \<and>
  stream (fold (log_put limit) ts m) = (if limit \<le> severity m then stream m @ concat ts else stream m)"
  by (induction ts arbitrary: m) (auto simp: log_put_def)

text \<open>
  A message below the limit leaves no trace, a message with a severity is written whole with its
  place, and exactly a fatal one ends the process.
\<close>

lemma log_written:
  assumes "0 < limit" "limit \<le> 2"
  shows "LOG limit sev file line ts =
    (if sev < limit then []
     else log_literal ! sev @ '' ['' @ baseFilename file @ ''|'' @ int_str line @ ''] '' @ concat ts @
          (if sev = 4 then ''Abort'' @ [CHR 0x0A] else []), sev = 4)"
  using assms
  by (auto simp: LOG_def LogMessage_def log_destroy_def fold_log_put Let_def LOGGINGV2_NONE_def LOGGINGV2_FATAL_def
      simp del: fold.simps)

lemma check_passes: "0 < limit \<Longrightarrow> limit \<le> 2 \<Longrightarrow> CHECK_OP limit True file line ts = ([], False)"
  by (simp add: CHECK_OP_def log_written LOGGINGV2_NONE_def)

text \<open>The names of the severities are off by one from the fourth on: a fatal message is labelled an error.\<close>

lemma fatal_is_labelled_error: "fst (LOG 1 LOGGINGV2_FATAL ''a.cpp'' 7 []) = ''Error [a.cpp|7] Abort'' @ [CHR 0x0A]"
  by code_simp

section \<open>Counting messages\<close>

text \<open>The static counter of LOG_EVERY_N: its new value, and whether this call is logged.\<close>

definition every_n :: "nat \<Rightarrow> nat \<Rightarrow> nat \<times> bool" where
  "every_n n occurrence =
     (let o1 = occurrence + 1; o2 = (if o1 = n then o1 - n else o1) in (o2, o2 = 1))"

definition first_n :: "nat \<Rightarrow> nat \<Rightarrow> nat \<times> bool" where
  "first_n n occurrence = (let o1 = occurrence + 1 in (o1, o1 \<le> n))"

fun logged :: "(nat \<Rightarrow> nat \<times> bool) \<Rightarrow> nat \<Rightarrow> nat \<Rightarrow> bool list" where
  "logged f 0 c = []"
| "logged f (Suc k) c = (case f c of (c', b) \<Rightarrow> b # logged f k c')"

lemma logged_every: "2 \<le> n \<Longrightarrow> logged (every_n n) k (j mod n) = map (\<lambda>i. (j + i + 1) mod n = 1) [0..<k]"
proof (induction k arbitrary: j)
  case (Suc k)
  then have "j mod n < n" by simp
  then have step: "every_n n (j mod n) = (Suc j mod n, Suc j mod n = 1)" by (auto simp: every_n_def Let_def mod_Suc)
  have "[0..<Suc k] = 0 # map Suc [0..<k]" by (simp add: upt_conv_Cons map_Suc_upt del: upt_Suc)
  with step Suc.IH [of "Suc j"] Suc.prems show ?case by simp
qed simp

text \<open>With n at least 2 the first of every n calls is logged; with n = 1 none is.\<close>

lemma log_every_n: "2 \<le> n \<Longrightarrow> logged (every_n n) k 0 = map (\<lambda>i. (i + 1) mod n = 1) [0..<k]"
  using logged_every [of n k 0] by simp

lemma log_every_1: "logged (every_n 1) k 0 = replicate k False"
  by (induction k) (simp_all add: every_n_def)

lemma log_first_n: "logged (first_n n) k c = map (\<lambda>i. c + i < n) [0..<k]"
proof (induction k arbitrary: c)
  case (Suc k)
  have "[0..<Suc k] = 0 # map Suc [0..<k]" by (simp add: upt_conv_Cons map_Suc_upt del: upt_Suc)
  with Suc.IH [of "Suc c"] show ?case by (simp add: first_n_def Let_def Suc_le_eq)
qed simp

end
