(* ===== verification/Saf_Schema.thy ===== *)
theory Saf_Schema
  imports Saf_Luna
begin

text \<open>
  The texts of the schemas: the macros of SAFLunaUtils.h put strings together, and each method of
  SAFLunaService hands the result to the validator. The theory reads such a text as JSON and as a
  schema, and finds the schema the methods of Saf_Luna check against.
\<close>

section \<open>The macros\<close>

text \<open>The macros of a family with 1, 2, ... parameters are one function on the list of them.\<close>

fun comma_sep :: "string \<Rightarrow> string list \<Rightarrow> string" where
  "comma_sep sep [] = []"
| "comma_sep sep [p] = p"
| "comma_sep sep (p # ps) = p @ sep @ comma_sep sep ps"

definition SCHEMA_ANY :: string where
  "SCHEMA_ANY = ''{}''"

definition SCHEMA_1 :: "string \<Rightarrow> string" where
  "SCHEMA_1 param = ''{\"type\":\"object\",\"properties\":{'' @ param @ ''},\"additionalProperties\":false}''"

definition PROPS :: "string list \<Rightarrow> string" where
  "PROPS ps = '',\"properties\":{'' @ comma_sep '','' ps @ ''}''"

definition REQUIRED :: "string list \<Rightarrow> string" where
  "REQUIRED ps = '',\"required\":['' @ comma_sep '','' (map (\<lambda>p. ''\"'' @ p @ ''\"'') ps) @ '']''"

definition STRICT_SCHEMA :: "string \<Rightarrow> string" where
  "STRICT_SCHEMA attributes = ''{\"type\":\"object\"'' @ attributes @ '',\"additionalProperties\":false}''"

definition RELAXED_SCHEMA :: "string \<Rightarrow> string" where
  "RELAXED_SCHEMA attributes = ''{\"type\":\"object\"'' @ attributes @ '',\"additionalProperties\":true}''"

definition PROP_text :: "string \<Rightarrow> string \<Rightarrow> string" where
  "PROP_text name type = ''\"'' @ name @ ''\":{\"type\":\"'' @ type @ ''\"}''"

definition PROP_WITH_VAL_1 :: "string \<Rightarrow> string \<Rightarrow> string \<Rightarrow> string" where
  "PROP_WITH_VAL_1 name type v1 = ''\"'' @ name @ ''\":{\"type\":\"'' @ type @ ''\", \"enum\": ['' @ v1 @ '']}''"

definition PROP_WITH_VAL_2 :: "string \<Rightarrow> string \<Rightarrow> string \<Rightarrow> string \<Rightarrow> string" where
  "PROP_WITH_VAL_2 name type v1 v2 =
     ''\"'' @ name @ ''\":{\"type\":\"'' @ type @ ''\", \"enum\": ['' @ v1 @ '', '' @ v2 @ '']}''"

definition ARRAY :: "string \<Rightarrow> string \<Rightarrow> string" where
  "ARRAY name type = ''\"'' @ name @ ''\":{\"type\":\"array\", \"items\":{\"type\":\"'' @ type @ ''\"}}''"

definition OBJARRAY :: "string \<Rightarrow> string \<Rightarrow> string" where
  "OBJARRAY name objschema = ''\"'' @ name @ ''\":{\"type\":\"array\", \"items\": '' @ objschema @ ''}''"

text \<open>The first two parameters are separated by a comma alone, the others by a comma and a space.\<close>

definition OBJSCHEMA :: "string list \<Rightarrow> string" where
  "OBJSCHEMA ps =
     ''{\"type\":\"object\",\"properties\":{'' @ comma_sep '','' (take 1 ps @ (if length ps < 2 then [] else [comma_sep '', '' (drop 1 ps)])) @ ''}}''"

definition OBJECT :: "string \<Rightarrow> string \<Rightarrow> string" where
  "OBJECT name objschema = ''\"'' @ name @ ''\":'' @ objschema"

section \<open>The schemas of the methods\<close>

definition extra_text :: string where
  "extra_text =
     STRICT_SCHEMA (PROPS [PROP_text ''storageType'' ''string'', PROP_text ''driveId'' ''string'',
       OBJECT ''operation'' (OBJSCHEMA [PROP_text ''type'' ''string'', OBJECT ''payload''
         (OBJSCHEMA [PROP_text ''clientId'' ''string'', PROP_text ''clientSecret'' ''string'',
           PROP_text ''secretToken'' ''string'', PROP_text ''refreshToken'' ''string'',
           PROP_text ''userName'' ''string'', PROP_text ''password'' ''string'', PROP_text ''ip'' ''string'',
           PROP_text ''serverType'' ''string'', PROP_text ''uid'' ''string'', PROP_text ''gid'' ''string'',
           PROP_text ''sec'' ''string''])])]
       @ REQUIRED [''storageType'', ''operation''])"

definition list_text :: string where
  "list_text =
     STRICT_SCHEMA (PROPS [PROP_text ''storageType'' ''string'', PROP_text ''driveId'' ''string'', PROP_text ''path'' ''string'',
       PROP_text ''limit'' ''integer'', PROP_text ''offset'' ''integer'', PROP_text ''refreshToken'' ''string'',
       PROP_WITH_VAL_1 ''refresh'' ''boolean'' ''true'']
       @ REQUIRED [''storageType'', ''driveId'', ''path'', ''offset'', ''limit''])"

definition properties_text :: string where
  "properties_text =
     STRICT_SCHEMA (PROPS [PROP_text ''storageType'' ''string'', PROP_text ''driveId'' ''string'', PROP_text ''path'' ''string'',
       PROP_text ''refreshToken'' ''string''] @ REQUIRED [''storageType'', ''driveId''])"

definition storages_text :: string where
  "storages_text = STRICT_SCHEMA (PROPS [PROP_text ''subscribe'' ''boolean''])"

definition transfer_text :: string where
  "transfer_text =
     STRICT_SCHEMA (PROPS [PROP_text ''srcStorageType'' ''string'', PROP_text ''srcDriveId'' ''string'',
       PROP_text ''destStorageType'' ''string'', PROP_text ''destDriveId'' ''string'', PROP_text ''srcPath'' ''string'',
       PROP_text ''destPath'' ''string'', PROP_text ''srcRefreshToken'' ''string'', PROP_text ''destRefreshToken'' ''string'',
       PROP_text ''overwrite'' ''boolean'', PROP_text ''subscribe'' ''boolean'']
       @ REQUIRED [''srcStorageType'', ''srcDriveId'', ''destStorageType'', ''destDriveId'', ''srcPath'', ''destPath''])"

definition remove_text :: string where
  "remove_text =
     STRICT_SCHEMA (PROPS [PROP_text ''storageType'' ''string'', PROP_text ''driveId'' ''string'', PROP_text ''path'' ''string'',
       PROP_text ''refreshToken'' ''string''] @ REQUIRED [''storageType'', ''driveId'', ''path''])"

definition eject_text :: string where
  "eject_text =
     STRICT_SCHEMA (PROPS [PROP_text ''storageType'' ''string'', PROP_text ''driveId'' ''string'']
       @ REQUIRED [''storageType'', ''driveId''])"

definition rename_text :: string where
  "rename_text =
     STRICT_SCHEMA (PROPS [PROP_text ''storageType'' ''string'', PROP_text ''driveId'' ''string'', PROP_text ''path'' ''string'',
       PROP_text ''newName'' ''string''] @ REQUIRED [''storageType'', ''driveId'', ''path'', ''newName''])"

section \<open>Payloads and answers\<close>

text \<open>\<open>gen\<close> is the library's generator of texts; the string stays empty when it fails.\<close>

definition generatePayload :: "(json \<Rightarrow> string option) \<Rightarrow> json \<Rightarrow> bool \<times> string" where
  "generatePayload gen j = (case gen j of None \<Rightarrow> (False, []) | Some t \<Rightarrow> (True, t))"

definition parsePayload_any :: "'a pbn_scheme \<Rightarrow> string \<Rightarrow> json \<Rightarrow> bool \<times> json" where
  "parsePayload_any pf text object = (case dom_parse pf text of None \<Rightarrow> (False, object) | Some j \<Rightarrow> (True, j))"

definition JSON_PARSE_SCHEMA_ERROR :: int where
  "JSON_PARSE_SCHEMA_ERROR = 1"

text \<open>
  parsePayload with its out parameters: the object, and the error, which is only set when the text
  is JSON and the schema refuses it. No schema is the empty text.
\<close>

definition parsePayload_error :: "'a pbn_scheme \<Rightarrow> string \<Rightarrow> schema option \<Rightarrow> json \<Rightarrow> int \<Rightarrow> bool \<times> json \<times> int" where
  "parsePayload_error pf text s object error =
     (case dom_parse pf text of
        None \<Rightarrow> (False, object, error)
      | Some j \<Rightarrow>
          if (case s of None \<Rightarrow> True | Some sc \<Rightarrow> schema_ok pf sc j) then (True, j, error)
          else (False, j, JSON_PARSE_SCHEMA_ERROR))"

lemma parsePayload_object:
  "parsePayload pf text sc = Some j \<longleftrightarrow> (\<exists>e. parsePayload_error pf text (Some sc) obj err = (True, j, e))"
  "parsePayload_error pf text None obj err = (case parsePayload_any pf text obj of (b, j) \<Rightarrow> (b, j, err))"
  by (auto simp: parsePayload_def parsePayload_error_def parsePayload_any_def split: option.split)

text \<open>The error tells a text that is not JSON from one the schema refuses.\<close>

lemma parsePayload_reason:
  "parsePayload pf text sc = None \<Longrightarrow>
   snd (snd (parsePayload_error pf text (Some sc) obj 0)) = (if dom_parse pf text = None then 0 else 1)"
  by (auto simp: parsePayload_def parsePayload_error_def JSON_PARSE_SCHEMA_ERROR_def split: option.split_asm if_split_asm)

text \<open>respondWithError with all its parameters; the code is unsigned and sent as an int.\<close>

definition respond_error :: "lsmsg \<Rightarrow> string \<Rightarrow> 32 word \<Rightarrow> bool \<Rightarrow> luna_event list" where
  "respond_error m errorText errorCode failedSubscription =
     [Responded m (jputs ((if failedSubscription then [(''subscribed'', JBool False)] else [])
        @ [(''returnValue'', JBool False), (''errorText'', JStr errorText), (''errorCode'', JNum (sint errorCode))]) jobject)]"

definition respondWithErrorText :: "lsmsg \<Rightarrow> string \<Rightarrow> luna_event list" where
  "respondWithErrorText m errorText =
     [Responded m (jputs [(''returnValue'', JBool False), (''errorText'', JStr errorText)] jobject)]"

lemma respondWithError_code:
  "respondWithError m e = respond_error m (getSAFErrorString (saf_code e)) (word_of_int (saf_code e)) False"
  by (cases e) (simp_all add: respondWithError_def respond_error_def)

lemma respond_error_default: "respond_error m t (- 1) False = [Responded m (jputs [(''returnValue'', JBool False), (''errorText'', JStr t), (''errorCode'', JNum (- 1))] jobject)]"
  by (simp add: respond_error_def)

text \<open>The draws of generateRandomString are positions up to the terminator of the character set.\<close>

definition charset :: string where
  "charset = ''0123456789ABCDEFGHIJKLMNOPQRSTUVWXYZabcdefghijklmnopqrstuvwxyz''"

definition generateRandomString :: "nat list \<Rightarrow> string" where
  "generateRandomString draws = map ((!) (charset @ [CHR 0x00])) draws"

lemma random_string_nul: "generateRandomString [0, length charset, 1] = [CHR ''0'', CHR 0x00, CHR ''1'']"
  by (simp add: generateRandomString_def charset_def)

section \<open>Reading a text\<close>

text \<open>JSON as far as schemas use it: no numbers and no escapes in strings.\<close>

datatype jtok = Punct char | Text string | Literal json

fun upto_quote :: "string \<Rightarrow> (string \<times> string) option" where
  "upto_quote [] = None"
| "upto_quote (c # cs) =
     (if c = CHR 0x22 then Some ([], cs)
      else if c = CHR 0x5C then None
      else map_option (map_prod ((#) c) id) (upto_quote cs))"

lemma upto_quote_shorter: "upto_quote cs = Some (t, rest) \<Longrightarrow> length rest < length cs"
  by (induction cs arbitrary: t) (fastforce split: if_splits)+

function json_lex :: "string \<Rightarrow> jtok list option" where
  "json_lex cs =
     (case cs of
        [] \<Rightarrow> Some []
      | c # r \<Rightarrow>
          if c = CHR '' '' then json_lex r
          else if c = CHR 0x22 then
            (case upto_quote r of None \<Rightarrow> None | Some (t, rest) \<Rightarrow> map_option ((#) (Text t)) (json_lex rest))
          else if c \<in> set ''{}[]:,'' then map_option ((#) (Punct c)) (json_lex r)
          else if take 4 cs = ''true'' then map_option ((#) (Literal (JBool True))) (json_lex (drop 4 cs))
          else if take 5 cs = ''false'' then map_option ((#) (Literal (JBool False))) (json_lex (drop 5 cs))
          else if take 4 cs = ''null'' then map_option ((#) (Literal JNull)) (json_lex (drop 4 cs))
          else None)"
  by pat_completeness auto
termination
  by (relation "measure length") (auto dest: upto_quote_shorter)

declare json_lex.simps [simp del]

fun json_value :: "nat \<Rightarrow> jtok list \<Rightarrow> (json \<times> jtok list) option"
  and json_members :: "nat \<Rightarrow> jtok list \<Rightarrow> ((string \<times> json) list \<times> jtok list) option"
  and json_elements :: "nat \<Rightarrow> jtok list \<Rightarrow> (json list \<times> jtok list) option" where
  "json_value 0 ts = None"
| "json_value (Suc n) ts =
     (case ts of
        Text s # r \<Rightarrow> Some (JStr s, r)
      | Literal j # r \<Rightarrow> Some (j, r)
      | Punct c # r \<Rightarrow>
          if c = CHR ''{'' then
            (if r \<noteq> [] \<and> hd r = Punct (CHR ''}'') then Some (JObj [], tl r)
             else map_option (map_prod JObj id) (json_members n r))
          else if c = CHR ''['' then
            (if r \<noteq> [] \<and> hd r = Punct (CHR '']'') then Some (JArr [], tl r)
             else map_option (map_prod JArr id) (json_elements n r))
          else None
      | [] \<Rightarrow> None)"
| "json_members 0 ts = None"
| "json_members (Suc n) ts =
     (case ts of
        Text k # Punct c # r \<Rightarrow>
          if c \<noteq> CHR '':'' then None
          else (case json_value n r of
                  Some (v, Punct d # r') \<Rightarrow>
                    if d = CHR '','' then map_option (map_prod ((#) (k, v)) id) (json_members n r')
                    else if d = CHR ''}'' then Some ([(k, v)], r')
                    else None
                | _ \<Rightarrow> None)
      | _ \<Rightarrow> None)"
| "json_elements 0 ts = None"
| "json_elements (Suc n) ts =
     (case json_value n ts of
        Some (v, Punct d # r') \<Rightarrow>
          if d = CHR '','' then map_option (map_prod ((#) v) id) (json_elements n r')
          else if d = CHR '']'' then Some ([v], r')
          else None
      | _ \<Rightarrow> None)"

definition json_read :: "string \<Rightarrow> json option" where
  "json_read t =
     (case json_lex t of
        None \<Rightarrow> None
      | Some ts \<Rightarrow> (case json_value (length ts) ts of Some (j, []) \<Rightarrow> Some j | _ \<Rightarrow> None))"

text \<open>The meaning of a schema in the fragment the macros build.\<close>

fun read_type :: "json \<Rightarrow> prop_type option" where
  "read_type (JObj [(a, JStr t)]) =
     (if a \<noteq> ''type'' then None
      else if t = ''string'' then Some TString
      else if t = ''integer'' then Some TInteger
      else if t = ''boolean'' then Some TBoolean
      else None)"
| "read_type (JObj [(a, JStr t), (b, JArr [JBool v])]) =
     (if a = ''type'' \<and> t = ''boolean'' \<and> b = ''enum'' then Some (TBoolEnum v) else None)"
| "read_type (JObj [(a, JStr t), (b, JObj es)]) =
     (if a = ''type'' \<and> t = ''object'' \<and> b = ''properties''
      then map_option TObject (those (map (\<lambda>e. map_option (Pair (fst e)) (read_type (snd e))) es)) else None)"
| "read_type j = None"

fun read_name :: "json \<Rightarrow> string option" where
  "read_name (JStr s) = Some s"
| "read_name j = None"

definition read_schema :: "string \<Rightarrow> schema option" where
  "read_schema t =
     (case json_read t of
        Some (JObj ((a, b) # (c, d) # es)) \<Rightarrow>
          if a = ''type'' \<and> c = ''properties'' then
            (case (read_type (JObj [(a, b), (c, d)]), es) of
               (Some (TObject ps), [(x, JBool False)]) \<Rightarrow>
                 if x = ''additionalProperties'' then Some \<lparr>properties = ps, required = []\<rparr> else None
             | (Some (TObject ps), [(r, JArr ns), (x, JBool False)]) \<Rightarrow>
                 if r = ''required'' \<and> x = ''additionalProperties''
                 then map_option (\<lambda>ns. \<lparr>properties = ps, required = ns\<rparr>) (those (map read_name ns)) else None
             | _ \<Rightarrow> None)
          else None
      | _ \<Rightarrow> None)"

section \<open>The text of a schema\<close>

fun type_text :: "string \<Rightarrow> prop_type \<Rightarrow> string" where
  "type_text k TString = PROP_text k ''string''"
| "type_text k TInteger = PROP_text k ''integer''"
| "type_text k TBoolean = PROP_text k ''boolean''"
| "type_text k (TBoolEnum b) = PROP_WITH_VAL_1 k ''boolean'' (if b then ''true'' else ''false'')"
| "type_text k (TObject ps) = OBJECT k (OBJSCHEMA (map (\<lambda>p. type_text (fst p) (snd p)) ps))"

definition schema_text :: "schema \<Rightarrow> string" where
  "schema_text s =
     STRICT_SCHEMA (PROPS (map (\<lambda>p. type_text (fst p) (snd p)) (properties s))
       @ (if required s = [] then [] else REQUIRED (required s)))"

definition plain :: "string \<Rightarrow> bool" where
  "plain k \<longleftrightarrow> CHR 0x22 \<notin> set k \<and> CHR 0x5C \<notin> set k"

fun plain_type :: "prop_type \<Rightarrow> bool" where
  "plain_type (TObject ps) \<longleftrightarrow> list_all (\<lambda>p. plain (fst p) \<and> plain_type (snd p)) ps"
| "plain_type t \<longleftrightarrow> True"

definition plain_schema :: "schema \<Rightarrow> bool" where
  "plain_schema s \<longleftrightarrow> list_all (\<lambda>p. plain (fst p) \<and> plain_type (snd p)) (properties s) \<and> list_all plain (required s)"

section \<open>Tokens\<close>

fun comma_toks :: "jtok list list \<Rightarrow> jtok list" where
  "comma_toks [] = []"
| "comma_toks [p] = p"
| "comma_toks (p # ps) = p @ Punct (CHR '','') # comma_toks ps"

fun tokens :: "json \<Rightarrow> jtok list" where
  "tokens (JStr s) = [Text s]"
| "tokens (JObj es) =
     Punct (CHR ''{'') # comma_toks (map (\<lambda>e. Text (fst e) # Punct (CHR '':'') # tokens (snd e)) es) @ [Punct (CHR ''}'')]"
| "tokens (JArr xs) = Punct (CHR ''['') # comma_toks (map tokens xs) @ [Punct (CHR '']'')]"
| "tokens j = [Literal j]"

lemma comma_toks_Cons: "comma_toks (p # ps) = (if ps = [] then p else p @ Punct (CHR '','') # comma_toks ps)"
  by (cases ps) simp_all

lemma comma_sep_Cons: "comma_sep sep (p # ps) = (if ps = [] then p else p @ sep @ comma_sep sep ps)"
  by (cases ps) simp_all

text \<open>A value is read from its tokens, with as much fuel as there are tokens.\<close>

lemma tokens_start: "tokens j \<noteq> [] \<and> hd (tokens j) \<noteq> Punct (CHR '']'')"
  by (cases j) simp_all

lemma read_tokens:
  "length (tokens j) \<le> n \<Longrightarrow> json_value n (tokens j @ rest) = Some (j, rest)"
  "es \<noteq> [] \<Longrightarrow> length (comma_toks (map (\<lambda>e. Text (fst e) # Punct (CHR '':'') # tokens (snd e)) es)) < n \<Longrightarrow>
   json_members n (comma_toks (map (\<lambda>e. Text (fst e) # Punct (CHR '':'') # tokens (snd e)) es) @ Punct (CHR ''}'') # rest) = Some (es, rest)"
  "xs \<noteq> [] \<Longrightarrow> length (comma_toks (map tokens xs)) < n \<Longrightarrow>
   json_elements n (comma_toks (map tokens xs) @ Punct (CHR '']'') # rest) = Some (xs, rest)"
proof (induction n arbitrary: j es xs rest)
  case 0
  {
    case 1 then show ?case using tokens_start [of j] by simp
  next
    case 2 then show ?case by simp
  next
    case 3 then show ?case by simp
  }
next
  case (Suc n)
  {
  case 1
  then show ?case
  proof (cases j)
    case (JArr xs)
    show ?thesis
    proof (cases xs)
      case (Cons x ys)
      have "hd (comma_toks (map tokens xs) @ Punct (CHR '']'') # rest) \<noteq> Punct (CHR '']'')"
        using tokens_start [of x] by (simp add: Cons comma_toks_Cons)
      with 1 JArr Cons Suc.IH(3) [of xs rest] show ?thesis by simp
    qed (use JArr in simp)
  next
    case (JObj es)
    show ?thesis
    proof (cases es)
      case (Cons x ys)
      with 1 JObj Suc.IH(2) [of es rest] show ?thesis by (simp add: comma_toks_Cons)
    qed (use JObj in simp)
  qed simp_all
next
  case 2
  then obtain e ys where es: "es = e # ys" by (cases es) auto
  show ?case
  proof (cases "ys = []")
    case True
    with 2 es Suc.IH(1) [of "snd e" "Punct (CHR ''}'') # rest"] show ?thesis by simp
  next
    case False
    with 2 es Suc.IH(1) [of "snd e"] Suc.IH(2) [of ys rest] show ?thesis by (simp add: comma_toks_Cons)
  qed
next
  case 3
  then obtain x ys where xs: "xs = x # ys" by (cases xs) auto
  show ?case
  proof (cases "ys = []")
    case True
    with 3 xs Suc.IH(1) [of x "Punct (CHR '']'') # rest"] show ?thesis by simp
  next
    case False
    with 3 xs Suc.IH(1) [of x] Suc.IH(3) [of ys rest] show ?thesis by (simp add: comma_toks_Cons)
  qed
  }
qed

section \<open>The texts and their tokens\<close>

definition lexes :: "string \<Rightarrow> jtok list \<Rightarrow> bool" where
  "lexes t ts \<longleftrightarrow> (\<forall>rest. json_lex (t @ rest) = map_option ((@) ts) (json_lex rest))"

lemma append_fun: "(@) [] = (\<lambda>u. u)" "(@) (x # xs) = (\<lambda>u. x # xs @ u)" "(@) (xs @ ys) = (\<lambda>u. xs @ ys @ u)"
  by (simp_all add: fun_eq_iff)

lemma upto_quote_plain: "plain k \<Longrightarrow> upto_quote (k @ CHR 0x22 # r) = Some (k, r)"
  by (induction k) (auto simp: plain_def)

lemma lex_basic [simp]:
  "json_lex [] = Some []"
  "json_lex (CHR '' '' # r) = json_lex r"
  "c \<in> {CHR ''{'', CHR ''}'', CHR ''['', CHR '']'', CHR '':'', CHR '',''} \<Longrightarrow> json_lex (c # r) = map_option ((#) (Punct c)) (json_lex r)"
  "json_lex (CHR ''t'' # CHR ''r'' # CHR ''u'' # CHR ''e'' # r) = map_option ((#) (Literal (JBool True))) (json_lex r)"
  "json_lex (CHR ''f'' # CHR ''a'' # CHR ''l'' # CHR ''s'' # CHR ''e'' # r) = map_option ((#) (Literal (JBool False))) (json_lex r)"
  by (subst json_lex.simps; auto)+

lemma lex_text [simp]: "json_lex (CHR 0x22 # r) =
   (case upto_quote r of None \<Rightarrow> None | Some (t, rest) \<Rightarrow> map_option ((#) (Text t)) (json_lex rest))"
  by (subst json_lex.simps) simp

lemma lexes_append: "lexes p ts \<Longrightarrow> lexes q us \<Longrightarrow> lexes (p @ q) (ts @ us)"
  by (simp add: lexes_def option.map_comp o_def append_fun)

lemma lexes_comma:
  assumes "list_all2 lexes ps tss" "sep = '','' \<or> sep = '', ''"
  shows "lexes (comma_sep sep ps) (comma_toks tss)"
proof -
  from assms(2) have sep: "lexes sep [Punct (CHR '','')]" by (auto simp: lexes_def append_fun)
  from assms(1) show ?thesis
  proof (induction rule: list_all2_induct)
    case (Cons p ps ts tss)
    then have "(ps = []) = (tss = [])" by auto
    with Cons lexes_append [OF Cons(1) lexes_append [OF sep Cons(3)]] show ?case by (simp add: comma_sep_Cons comma_toks_Cons)
  qed (simp add: lexes_def append_fun option.map_ident)
qed

lemma lexes_quoted [simp]: "plain k \<Longrightarrow> lexes (CHR 0x22 # k @ [CHR 0x22]) [Text k]"
  by (simp add: lexes_def upto_quote_plain append_fun)

lemma plain_words [simp]: "plain ''string''" "plain ''integer''" "plain ''boolean''"
  by (simp_all add: plain_def)

lemma lexes_PROP:
  "plain k \<Longrightarrow> plain t \<Longrightarrow> lexes (PROP_text k t) (Text k # Punct (CHR '':'') # tokens (JObj [(''type'', JStr t)]))"
  by (simp add: lexes_def PROP_text_def upto_quote_plain append_fun option.map_comp o_def)

lemma lexes_PROP_WITH_VAL_1:
  "plain k \<Longrightarrow> plain t \<Longrightarrow> lexes (PROP_WITH_VAL_1 k t (if b then ''true'' else ''false''))
     (Text k # Punct (CHR '':'') # tokens (JObj [(''type'', JStr t), (''enum'', JArr [JBool b])]))"
  by (simp add: lexes_def PROP_WITH_VAL_1_def upto_quote_plain append_fun option.map_comp o_def)

lemma lexes_OBJECT: "plain k \<Longrightarrow> lexes t ts \<Longrightarrow> lexes (OBJECT k t) (Text k # Punct (CHR '':'') # ts)"
  by (simp add: lexes_def OBJECT_def upto_quote_plain append_fun option.map_comp o_def)

lemma lexes_OBJSCHEMA:
  assumes "list_all2 lexes ps tss"
  shows "lexes (OBJSCHEMA ps)
    (Punct (CHR ''{'') # Text ''type'' # Punct (CHR '':'') # Text ''object'' # Punct (CHR '','') # Text ''properties'' # Punct (CHR '':'')
      # Punct (CHR ''{'') # comma_toks tss @ [Punct (CHR ''}''), Punct (CHR ''}'')])"
proof -
  let ?ps = "take 1 ps @ (if length ps < 2 then [] else [comma_sep '', '' (drop 1 ps)])"
  have "lexes (comma_sep '','' ?ps) (comma_toks tss)"
  proof (cases "length ps < 2")
    case True
    then have "?ps = ps" by simp
    with lexes_comma [OF assms, of "'',''"] show ?thesis by simp
  next
    case False
    then obtain p q qs where ps: "ps = p # q # qs" by (cases ps; cases "tl ps") auto
    with assms obtain t ts where ts: "tss = t # ts" "ts \<noteq> []" "lexes p t" "list_all2 lexes (q # qs) ts"
      by (auto simp: list_all2_Cons1)
    have "lexes (p @ '','' @ comma_sep '', '' (q # qs)) (t @ [Punct (CHR '','')] @ comma_toks ts)"
      using ts(3) lexes_comma [OF ts(4), of "'', ''"] by (intro lexes_append) (auto simp: lexes_def append_fun)
    with ps ts show ?thesis by (simp add: comma_toks_Cons comma_sep_Cons)
  qed
  then show ?thesis by (simp add: lexes_def OBJSCHEMA_def append_fun option.map_comp o_def)
qed

section \<open>A schema is read from its text\<close>

fun type_json :: "prop_type \<Rightarrow> json" where
  "type_json TString = JObj [(''type'', JStr ''string'')]"
| "type_json TInteger = JObj [(''type'', JStr ''integer'')]"
| "type_json TBoolean = JObj [(''type'', JStr ''boolean'')]"
| "type_json (TBoolEnum b) = JObj [(''type'', JStr ''boolean''), (''enum'', JArr [JBool b])]"
| "type_json (TObject ps) =
     JObj [(''type'', JStr ''object''), (''properties'', JObj (map (\<lambda>p. (fst p, type_json (snd p))) ps))]"

lemma lexes_type: "plain k \<Longrightarrow> plain_type t \<Longrightarrow> lexes (type_text k t) (Text k # Punct (CHR '':'') # tokens (type_json t))"
proof (induction k t rule: type_text.induct)
  case (5 k ps)
  then have "list_all2 lexes (map (\<lambda>p. type_text (fst p) (snd p)) ps)
      (map (\<lambda>p. Text (fst p) # Punct (CHR '':'') # tokens (type_json (snd p))) ps)"
    by (auto simp: list_all2_conv_all_nth list_all_length)
  with 5(2) show ?case using lexes_OBJECT [OF 5(2) lexes_OBJSCHEMA] by (simp add: o_def)
qed (simp_all add: lexes_PROP lexes_PROP_WITH_VAL_1 del: tokens.simps)

lemma those_map: "(\<And>x. x \<in> set xs \<Longrightarrow> f x = Some (g x)) \<Longrightarrow> those (map f xs) = Some (map g xs)"
  by (induction xs) auto

lemma read_type_json: "read_type (type_json t) = Some t"
proof (induction t rule: type_json.induct)
  case (5 ps)
  then have "those (map (\<lambda>p. map_option (Pair (fst p)) (read_type (type_json (snd p)))) ps) = Some (map (\<lambda>p. p) ps)"
    by (intro those_map) simp
  then show ?case by (simp add: o_def)
qed simp_all

definition schema_json :: "schema \<Rightarrow> json" where
  "schema_json s =
     JObj ([(''type'', JStr ''object''), (''properties'', JObj (map (\<lambda>p. (fst p, type_json (snd p))) (properties s)))]
       @ (if required s = [] then [] else [(''required'', JArr (map JStr (required s)))])
       @ [(''additionalProperties'', JBool False)])"

lemma lexes_schema:
  assumes "plain_schema s"
  shows "lexes (schema_text s) (tokens (schema_json s))"
proof -
  let ?ps = "map (\<lambda>p. type_text (fst p) (snd p)) (properties s)"
  let ?ts = "comma_toks (map (\<lambda>p. Text (fst p) # Punct (CHR '':'') # tokens (type_json (snd p))) (properties s))"
  let ?qs = "map (\<lambda>p. ''\"'' @ p @ ''\"'') (required s)"
  let ?us = "comma_toks (map (\<lambda>n. [Text n]) (required s))"
  from assms have "lexes (comma_sep '','' ?ps) ?ts"
    by (intro lexes_comma) (auto simp: plain_schema_def list_all2_conv_all_nth list_all_length lexes_type)
  moreover from assms have "lexes (comma_sep '','' ?qs) ?us"
    by (intro lexes_comma) (auto simp: plain_schema_def list_all2_conv_all_nth list_all_length)
  ultimately show ?thesis
    by (simp add: lexes_def schema_text_def STRICT_SCHEMA_def PROPS_def REQUIRED_def schema_json_def append_fun option.map_comp o_def)
qed

lemma read_name_names: "those (map (read_name \<circ> JStr) ns) = Some ns"
  by (induction ns) simp_all

lemma json_read_tokens: "lexes t (tokens j) \<Longrightarrow> json_read t = Some j"
  using read_tokens(1) [of j "length (tokens j)" "[]"] by (auto simp: lexes_def json_read_def dest: spec [of _ "[]"])

text \<open>The schemas of the eight methods are such texts.\<close>

lemma method_texts:
  "extra_text = schema_text extra_schema" "list_text = schema_text list_schema" "properties_text = schema_text properties_schema"
  "storages_text = schema_text storages_schema" "transfer_text = schema_text transfer_schema" "remove_text = schema_text remove_schema"
  "eject_text = schema_text eject_schema" "rename_text = schema_text rename_schema"
  by (simp_all add: schema_text_def extra_text_def list_text_def properties_text_def storages_text_def transfer_text_def remove_text_def
      eject_text_def rename_text_def extra_schema_def list_schema_def properties_schema_def storages_schema_def transfer_schema_def
      remove_schema_def eject_schema_def rename_schema_def)

lemma SCHEMA_1_strict: "SCHEMA_1 p = STRICT_SCHEMA (PROPS [p])"
  by (simp add: SCHEMA_1_def STRICT_SCHEMA_def PROPS_def)

lemma SCHEMA_ANY_object: "json_read SCHEMA_ANY = Some jobject"
  by (simp add: json_read_def SCHEMA_ANY_def)

lemma lexes_ARRAY:
  "plain k \<Longrightarrow> plain t \<Longrightarrow> lexes (ARRAY k t)
     (Text k # Punct (CHR '':'') # tokens (JObj [(''type'', JStr ''array''), (''items'', JObj [(''type'', JStr t)])]))"
  by (simp add: lexes_def ARRAY_def upto_quote_plain append_fun option.map_comp o_def)

lemma lexes_OBJARRAY:
  "plain k \<Longrightarrow> lexes t (tokens j) \<Longrightarrow> lexes (OBJARRAY k t)
     (Text k # Punct (CHR '':'') # tokens (JObj [(''type'', JStr ''array''), (''items'', j)]))"
  by (simp add: lexes_def OBJARRAY_def upto_quote_plain append_fun option.map_comp o_def)

text \<open>
  The text the macros build for a schema reads as that schema: the commas, quotes and braces are in
  place, every property has its type, the required names are the ones listed, and no other member is
  admitted.
\<close>

lemma schema_text_reads:
  assumes "plain_schema s"
  shows "read_schema (schema_text s) = Some s"
proof -
  have ps: "read_type (JObj [(''type'', JStr ''object''), (''properties'', JObj (map (\<lambda>p. (fst p, type_json (snd p))) (properties s)))])
      = Some (TObject (properties s))"
    using read_type_json [of "TObject (properties s)"] by simp
  have "json_read (schema_text s) = Some (schema_json s)"
    using assms by (intro json_read_tokens lexes_schema)
  then show ?thesis
    by (simp add: read_schema_def schema_json_def ps read_name_names del: read_type.simps)
qed

lemma method_schemas_plain:
  "plain_schema extra_schema" "plain_schema list_schema" "plain_schema properties_schema" "plain_schema storages_schema"
  "plain_schema transfer_schema" "plain_schema remove_schema" "plain_schema eject_schema" "plain_schema rename_schema"
  by (simp_all add: plain_schema_def plain_def extra_schema_def list_schema_def properties_schema_def storages_schema_def
      transfer_schema_def remove_schema_def eject_schema_def rename_schema_def)

text \<open>
  C27: Each of the eight texts that the methods of SAFLunaService put together with the macros and
  hand to the validator reads, as JSON and as a schema, as exactly the schema the model's method
  checks its payload against, with the same properties, types, required names and no other members
  admitted; and so does every text the macros build from names without quotes and backslashes.
\<close>

theorem schema_text_read:
  "read_schema extra_text = Some extra_schema \<and> read_schema list_text = Some list_schema \<and>
   read_schema properties_text = Some properties_schema \<and> read_schema storages_text = Some storages_schema \<and>
   read_schema transfer_text = Some transfer_schema \<and> read_schema remove_text = Some remove_schema \<and>
   read_schema eject_text = Some eject_schema \<and> read_schema rename_text = Some rename_schema \<and>
   (\<forall>s. plain_schema s \<longrightarrow> read_schema (schema_text s) = Some s)"
  by (simp add: method_texts method_schemas_plain schema_text_reads)

theorem schema_text_read_witness:
  "read_schema (schema_text \<lparr>properties = [(''path'', TString), (''refresh'', TBoolEnum True)], required = [''path'']\<rparr>)
   = Some \<lparr>properties = [(''path'', TString), (''refresh'', TBoolEnum True)], required = [''path'']\<rparr>"
proof -
  have "plain_schema \<lparr>properties = [(''path'', TString), (''refresh'', TBoolEnum True)], required = [''path'']\<rparr>"
    by (simp add: plain_schema_def plain_def)
  then show ?thesis using schema_text_read by blast
qed

end
