(* ===== verification/Saf_Locks.thy ===== *)
theory Saf_Locks
  imports Main
begin

text \<open>
  The locks of the Google Drive library (common/threading.hpp): Mutex, RecursiveMutex, ScopeLock
  and Condition, over the documented meaning of the POSIX calls they wrap. None stands for a call
  that does not return yet. std::mutex and std::condition_variable, which the providers use, have
  the same meaning.
\<close>

section \<open>Mutex\<close>

text \<open>Who holds it.\<close>

type_synonym 't mutex = "'t option"

definition Mutex :: "'t mutex" where
  "Mutex = None"

definition mutex_lock :: "'t \<Rightarrow> 't mutex \<Rightarrow> 't mutex option" where
  "mutex_lock t m = (if m = None then Some (Some t) else None)"

text \<open>Only the holder may unlock.\<close>

definition mutex_unlock :: "'t \<Rightarrow> 't mutex \<Rightarrow> 't mutex option" where
  "mutex_unlock t m = (if m = Some t then Some None else None)"

text \<open>ScopeLock locks when it is made and unlocks when it is destroyed.\<close>

definition ScopeLock :: "'t \<Rightarrow> 't mutex \<Rightarrow> 't mutex option" where
  "ScopeLock t m = mutex_lock t m"

definition scope_end :: "'t \<Rightarrow> 't mutex \<Rightarrow> 't mutex option" where
  "scope_end t m = mutex_unlock t m"

lemma mutex_lock_iff [simp]: "mutex_lock t m = Some m' \<longleftrightarrow> m = None \<and> m' = Some t"
  by (cases m) (auto simp: mutex_lock_def)

lemma mutex_unlock_iff [simp]: "mutex_unlock t m = Some m' \<longleftrightarrow> m = Some t \<and> m' = None"
  by (auto simp: mutex_unlock_def)

text \<open>A thread that locks a Mutex twice never returns.\<close>

lemma mutex_not_recursive: "mutex_lock u (Some t) = None"
  by (simp add: mutex_lock_def)

section \<open>RecursiveMutex\<close>

type_synonym 't recursive_mutex = "('t \<times> nat) option"

definition RecursiveMutex :: "'t recursive_mutex" where
  "RecursiveMutex = None"

definition recursive_lock :: "'t \<Rightarrow> 't recursive_mutex \<Rightarrow> 't recursive_mutex option" where
  "recursive_lock t m =
     (case m of None \<Rightarrow> Some (Some (t, 1)) | Some (u, n) \<Rightarrow> if u = t then Some (Some (t, Suc n)) else None)"

definition recursive_unlock :: "'t \<Rightarrow> 't recursive_mutex \<Rightarrow> 't recursive_mutex option" where
  "recursive_unlock t m =
     (case m of
        None \<Rightarrow> None
      | Some (u, n) \<Rightarrow> if u \<noteq> t then None else if n \<le> 1 then Some None else Some (Some (t, n - 1)))"

fun repeat_op :: "nat \<Rightarrow> ('m \<Rightarrow> 'm option) \<Rightarrow> 'm \<Rightarrow> 'm option" where
  "repeat_op 0 f m = Some m"
| "repeat_op (Suc n) f m = (case f m of None \<Rightarrow> None | Some m' \<Rightarrow> repeat_op n f m')"

lemma recursive_locked: "repeat_op n (recursive_lock t) (Some (t, k)) = Some (Some (t, k + n))"
  by (induction n arbitrary: k) (simp_all add: recursive_lock_def)

lemma recursive_unlocked: "n \<le> k \<Longrightarrow> repeat_op n (recursive_unlock t) (Some (t, Suc k)) = Some (Some (t, Suc (k - n)))"
proof (induction n arbitrary: k)
  case (Suc n)
  then obtain j where "k = Suc j" by (cases k) auto
  with Suc.IH [of j] Suc.prems show ?case by (simp add: recursive_unlock_def)
qed simp

text \<open>
  As many unlocks as locks release it, one fewer leaves every other thread outside.
\<close>

lemma times_Suc: "repeat_op (Suc k) f m = (case repeat_op k f m of None \<Rightarrow> None | Some m' \<Rightarrow> f m')"
proof (induction k arbitrary: m)
  case (Suc k)
  have "repeat_op (Suc (Suc k)) f m = (case f m of None \<Rightarrow> None | Some x \<Rightarrow> repeat_op (Suc k) f x)" by (rule repeat_op.simps)
  also have "\<dots> = (case f m of None \<Rightarrow> None | Some x \<Rightarrow> (case repeat_op k f x of None \<Rightarrow> None | Some m' \<Rightarrow> f m'))"
    unfolding Suc.IH ..
  finally show ?case by (cases "f m") simp_all
qed (simp split: option.split)

lemma recursive_balanced:
  "\<exists>m. repeat_op (Suc n) (recursive_lock t) RecursiveMutex = Some m \<and> repeat_op (Suc n) (recursive_unlock t) m = Some None
     \<and> (\<exists>m'. repeat_op n (recursive_unlock t) m = Some m' \<and> (u \<noteq> t \<longrightarrow> recursive_lock u m' = None))"
proof -
  have lock: "repeat_op (Suc n) (recursive_lock t) RecursiveMutex = Some (Some (t, Suc n))"
    using recursive_locked [of n t 1] by (simp add: RecursiveMutex_def recursive_lock_def)
  have un: "repeat_op n (recursive_unlock t) (Some (t, Suc n)) = Some (Some (t, 1))"
    using recursive_unlocked [of n n t] by simp
  have "repeat_op (Suc n) (recursive_unlock t) (Some (t, Suc n)) = Some None"
    unfolding times_Suc un by (simp add: recursive_unlock_def)
  with lock un show ?thesis by (auto simp: recursive_lock_def)
qed

section \<open>Condition\<close>

text \<open>
  The threads that sleep on it. A wait gives the mutex up and sleeps in one step; after it the
  thread locks the mutex again. A notify wakes the sleeper at some position.
\<close>

definition condition_wait :: "'t \<Rightarrow> 't mutex \<Rightarrow> 't list \<Rightarrow> ('t mutex \<times> 't list) option" where
  "condition_wait t m sleepers = (case mutex_unlock t m of None \<Rightarrow> None | Some m' \<Rightarrow> Some (m', sleepers @ [t]))"

definition condition_notify :: "nat \<Rightarrow> 't list \<Rightarrow> 't list" where
  "condition_notify i sleepers = take i sleepers @ drop (Suc i) sleepers"

definition condition_notify_all :: "'t list \<Rightarrow> 't list" where
  "condition_notify_all sleepers = []"

lemma condition_wait_iff [simp]:
  "condition_wait t m ws = Some (m', ws') \<longleftrightarrow> m = Some t \<and> m' = None \<and> ws' = ws @ [t]"
  by (auto simp: condition_wait_def mutex_unlock_def)

lemma notify_wakes_one: "i < length ws \<Longrightarrow> length (condition_notify i ws) = length ws - 1"
  by (simp add: condition_notify_def)

lemma notify_only [simp]: "condition_notify 0 [t] = []" "condition_notify i [] = []"
  by (simp_all add: condition_notify_def)

end
