(* ===== verification/Saf_Monitor.thy ===== *)
theory Saf_Monitor
  imports Saf_Internal Saf_Locks "HOL-Library.Multiset"
begin

text \<open>
  The queue of a provider, its mutex and its condition variable, one access to shared memory at a
  time: the thread of dispatchHandler, any number of threads in addRequest, and the destructor.
  Saf_Dispatch takes a call of addRequest and a turn of the loop as one step each; here it is
  shown that this is what the locks achieve, and that no request is left lying in the queue.
\<close>

section \<open>The threads\<close>

datatype agent = Dispatcher | Client nat

text \<open>
  Where dispatchHandler is. wait(lock, pred) tests the predicate under the mutex (D_check), goes
  to sleep (D_park), and tests again when it was woken and has the mutex. front and erase read
  the queue (D_pop) and write it back (D_erase).
\<close>

datatype disp_pc =
    D_start | D_check | D_park | D_asleep | D_take | D_pop | D_erase "request_data list" | D_unlock request_data
  | D_handle request_data | D_relock | D_test | D_done

text \<open>Where a thread is in addRequest; push_back reads the queue (C_push) and writes it (C_store).\<close>

datatype client_pc = C_idle | C_lock request_data | C_push request_data | C_store request_data "request_data list" | C_unlock | C_notify

text \<open>The destructor sets mQuit and notifies, without the mutex.\<close>

datatype dtor_pc = X_alive | X_notify | X_gone

record 's monitor =
  g_mutex :: "agent mutex"
  g_sleepers :: "agent list"
  g_queue :: "request_data list"
  g_quit :: bool
  g_disp :: disp_pc
  g_clients :: "client_pc list"
  g_dtor :: dtor_pc
  g_state :: 's
  g_emitted :: "effect list"
  g_submitted :: "request_data list"  \<comment> \<open>everything pushed, in order\<close>

definition monitor_init :: "nat \<Rightarrow> 's \<Rightarrow> 's monitor" where
  "monitor_init n s =
     \<lparr>g_mutex = Mutex, g_sleepers = [], g_queue = [], g_quit = False, g_disp = D_start, g_clients = replicate n C_idle,
      g_dtor = X_alive, g_state = s, g_emitted = [], g_submitted = []\<rparr>"

definition take_mutex :: "agent \<Rightarrow> 's monitor \<Rightarrow> 's monitor option" where
  "take_mutex t m = map_option (\<lambda>x. m\<lparr>g_mutex := x\<rparr>) (mutex_lock t (g_mutex m))"

definition give_mutex :: "agent \<Rightarrow> 's monitor \<Rightarrow> 's monitor option" where
  "give_mutex t m = map_option (\<lambda>x. m\<lparr>g_mutex := x\<rparr>) (mutex_unlock t (g_mutex m))"

definition notify_one :: "'s monitor \<Rightarrow> 's monitor" where
  "notify_one m = m\<lparr>g_sleepers := condition_notify 0 (g_sleepers m)\<rparr>"

definition dispatchHandler :: "'s handler \<Rightarrow> 's monitor \<Rightarrow> 's monitor option" where
  "dispatchHandler h m =
     (case g_disp m of
        D_start \<Rightarrow> map_option (g_disp_update (\<lambda>_. D_check)) (take_mutex Dispatcher m)
      | D_check \<Rightarrow> Some (m\<lparr>g_disp := (if g_queue m \<noteq> [] \<or> g_quit m then D_take else D_park)\<rparr>)
      | D_park \<Rightarrow> map_option (\<lambda>(x, ws). m\<lparr>g_mutex := x, g_sleepers := ws, g_disp := D_asleep\<rparr>)
                   (condition_wait Dispatcher (g_mutex m) (g_sleepers m))
      | D_asleep \<Rightarrow> if Dispatcher \<in> set (g_sleepers m) then None
                   else map_option (g_disp_update (\<lambda>_. D_check)) (take_mutex Dispatcher m)
      | D_take \<Rightarrow> Some (m\<lparr>g_disp := (if g_queue m \<noteq> [] \<and> \<not> g_quit m then D_pop else D_test)\<rparr>)
      | D_pop \<Rightarrow> Some (m\<lparr>g_disp := D_erase (g_queue m)\<rparr>)
      | D_erase q \<Rightarrow> Some (m\<lparr>g_queue := tl q, g_disp := D_unlock (hd q)\<rparr>)
      | D_unlock rd \<Rightarrow> map_option (g_disp_update (\<lambda>_. D_handle rd)) (give_mutex Dispatcher m)
      | D_handle rd \<Rightarrow> (case h rd (g_state m) of
            None \<Rightarrow> None
          | Some (es, s') \<Rightarrow> Some (m\<lparr>g_state := s', g_emitted := g_emitted m @ es, g_disp := D_relock\<rparr>))
      | D_relock \<Rightarrow> map_option (g_disp_update (\<lambda>_. D_test)) (take_mutex Dispatcher m)
      | D_test \<Rightarrow> if g_quit m then map_option (g_disp_update (\<lambda>_. D_done)) (give_mutex Dispatcher m)
                 else Some (m\<lparr>g_disp := D_check\<rparr>)
      | D_done \<Rightarrow> None)"

definition client_at :: "nat \<Rightarrow> client_pc \<Rightarrow> 's monitor \<Rightarrow> 's monitor" where
  "client_at i pc m = m\<lparr>g_clients := (g_clients m)[i := pc]\<rparr>"

definition addRequest_turn :: "nat \<Rightarrow> 's monitor \<Rightarrow> 's monitor option" where
  "addRequest_turn i m =
     (case g_clients m ! i of
        C_idle \<Rightarrow> None
      | C_lock rd \<Rightarrow> map_option (client_at i (C_push rd)) (take_mutex (Client i) m)
      | C_push rd \<Rightarrow> Some (client_at i (C_store rd (g_queue m)) m)
      | C_store rd q \<Rightarrow> Some (client_at i C_unlock (m\<lparr>g_queue := q @ [rd], g_submitted := g_submitted m @ [rd]\<rparr>))
      | C_unlock \<Rightarrow> map_option (client_at i C_notify) (give_mutex (Client i) m)
      | C_notify \<Rightarrow> Some (client_at i C_idle (notify_one m)))"

definition provider_dtor :: "'s monitor \<Rightarrow> 's monitor option" where
  "provider_dtor m =
     (case g_dtor m of
        X_alive \<Rightarrow> Some (m\<lparr>g_quit := True, g_dtor := X_notify\<rparr>)
      | X_notify \<Rightarrow> Some (notify_one (m\<lparr>g_dtor := X_gone\<rparr>))
      | X_gone \<Rightarrow> None)"

text \<open>What the threads do on their own, and what happens to them.\<close>

inductive monitor_own :: "'s handler \<Rightarrow> 's monitor \<Rightarrow> 's monitor \<Rightarrow> bool" for h where
  dispatcher: "dispatchHandler h m = Some m' \<Longrightarrow> monitor_own h m m'"
| client: "i < length (g_clients m) \<Longrightarrow> addRequest_turn i m = Some m' \<Longrightarrow> monitor_own h m m'"

inductive monitor_step :: "'s handler \<Rightarrow> 's monitor \<Rightarrow> 's monitor \<Rightarrow> bool" for h where
  own: "monitor_own h m m' \<Longrightarrow> monitor_step h m m'"
| call: "i < length (g_clients m) \<Longrightarrow> g_clients m ! i = C_idle \<Longrightarrow> monitor_step h m (client_at i (C_lock rd) m)"
| spurious: "monitor_step h m (m\<lparr>g_sleepers := []\<rparr>)"
| destroy: "provider_dtor m = Some m' \<Longrightarrow> monitor_step h m m'"

inductive monitor_reach :: "'s handler \<Rightarrow> nat \<Rightarrow> 's \<Rightarrow> 's monitor \<Rightarrow> bool" for h n s0 where
  start: "monitor_reach h n s0 (monitor_init n s0)"
| step: "monitor_reach h n s0 m \<Longrightarrow> monitor_step h m m' \<Longrightarrow> monitor_reach h n s0 m'"

section \<open>Mutual exclusion\<close>

fun disp_holds :: "disp_pc \<Rightarrow> bool" where
  "disp_holds D_start = False" | "disp_holds D_asleep = False" | "disp_holds (D_handle rd) = False"
| "disp_holds D_relock = False" | "disp_holds D_done = False" | "disp_holds pc = True"

fun client_holds :: "client_pc \<Rightarrow> bool" where
  "client_holds (C_push rd) = True" | "client_holds (C_store rd q) = True" | "client_holds C_unlock = True"
| "client_holds pc = False"

definition holding :: "client_pc list \<Rightarrow> nat set" where
  "holding cs = {i. i < length cs \<and> client_holds (cs ! i)}"

fun client_owner :: "agent mutex \<Rightarrow> nat set" where
  "client_owner (Some (Client i)) = {i}"
| "client_owner x = {}"

definition exclusive :: "'s monitor \<Rightarrow> bool" where
  "exclusive m \<longleftrightarrow> (disp_holds (g_disp m) \<longleftrightarrow> g_mutex m = Some Dispatcher) \<and> holding (g_clients m) = client_owner (g_mutex m)"

text \<open>What a thread read of the queue still holds, and why the dispatcher goes on or sleeps.\<close>

fun disp_knows :: "disp_pc \<Rightarrow> request_data list \<Rightarrow> bool \<Rightarrow> bool" where
  "disp_knows D_park queue quit \<longleftrightarrow> queue = []"
| "disp_knows D_take queue quit \<longleftrightarrow> queue \<noteq> [] \<or> quit"
| "disp_knows D_pop queue quit \<longleftrightarrow> queue \<noteq> []"
| "disp_knows (D_erase q) queue quit \<longleftrightarrow> queue = q \<and> q \<noteq> []"
| "disp_knows D_done queue quit \<longleftrightarrow> quit"
| "disp_knows pc queue quit \<longleftrightarrow> True"

definition clients_know :: "'s monitor \<Rightarrow> bool" where
  "clients_know m \<longleftrightarrow> (\<forall>i < length (g_clients m). \<forall>rd q. g_clients m ! i = C_store rd q \<longrightarrow> q = g_queue m)"

text \<open>No lost wake-up: while the dispatcher sleeps over a queue that is not empty, somebody will notify it.\<close>

definition will_wake :: "'s monitor \<Rightarrow> bool" where
  "will_wake m \<longleftrightarrow> (g_sleepers m = [] \<or> g_sleepers m = [Dispatcher] \<and> g_disp m = D_asleep)
     \<and> (g_sleepers m \<noteq> [] \<and> g_queue m \<noteq> [] \<longrightarrow> C_unlock \<in> set (g_clients m) \<or> C_notify \<in> set (g_clients m))"

definition monitor_inv :: "'s monitor \<Rightarrow> bool" where
  "monitor_inv m \<longleftrightarrow> exclusive m \<and> disp_knows (g_disp m) (g_queue m) (g_quit m) \<and> clients_know m \<and> will_wake m"

lemma monitor_inv_init: "monitor_inv (monitor_init n s)"
  by (auto simp: monitor_inv_def exclusive_def holding_def clients_know_def will_wake_def monitor_init_def Mutex_def)

lemma holding_update [simp]:
  "i < length cs \<Longrightarrow> holding (cs[i := pc]) = (if client_holds pc then insert i (holding cs) else holding cs - {i})"
  by (auto simp: holding_def nth_list_update split: if_splits)

text \<open>A client that holds the mutex is alone: the dispatcher does not, and no other client does.\<close>

lemma client_alone:
  "exclusive m \<Longrightarrow> i \<in> holding (g_clients m) \<Longrightarrow>
   g_mutex m = Some (Client i) \<and> \<not> disp_holds (g_disp m) \<and> holding (g_clients m) = {i}"
  by (cases "g_mutex m" rule: client_owner.cases) (auto simp: exclusive_def)

lemmas monitor_turns = dispatchHandler_def addRequest_turn_def take_mutex_def give_mutex_def client_at_def notify_one_def

lemma set_update_other: "x \<in> set xs \<Longrightarrow> xs ! i \<noteq> x \<Longrightarrow> x \<in> set (xs[i := y])"
  by (metis in_set_conv_nth length_list_update nth_list_update_neq)

lemma exclusive_taken: "exclusive m \<Longrightarrow> g_mutex m = None \<Longrightarrow> g_mutex m' = Some Dispatcher \<Longrightarrow> disp_holds (g_disp m') \<Longrightarrow>
    g_clients m' = g_clients m \<Longrightarrow> exclusive m'"
  and exclusive_given: "exclusive m \<Longrightarrow> g_mutex m = Some Dispatcher \<Longrightarrow> g_mutex m' = None \<Longrightarrow> \<not> disp_holds (g_disp m') \<Longrightarrow>
    g_clients m' = g_clients m \<Longrightarrow> exclusive m'"
  and exclusive_kept: "exclusive m \<Longrightarrow> g_mutex m' = g_mutex m \<Longrightarrow> disp_holds (g_disp m') = disp_holds (g_disp m) \<Longrightarrow>
    g_clients m' = g_clients m \<Longrightarrow> exclusive m'"
  by (simp_all add: exclusive_def)

lemma exclusive_dispatcher:
  assumes "dispatchHandler h m = Some m'" "exclusive m"
  shows "exclusive m'"
proof (cases "g_disp m")
  case D_start
  with assms(1) show ?thesis by (auto simp: monitor_turns intro: exclusive_taken [OF assms(2)])
next
  case D_asleep
  with assms(1) show ?thesis by (auto simp: monitor_turns intro: exclusive_taken [OF assms(2)] split: if_split_asm)
next
  case D_relock
  with assms(1) show ?thesis by (auto simp: monitor_turns intro: exclusive_taken [OF assms(2)])
next
  case D_park
  with assms(1) show ?thesis by (auto simp: monitor_turns intro: exclusive_given [OF assms(2)])
next
  case (D_unlock rd)
  with assms(1) show ?thesis by (auto simp: monitor_turns intro: exclusive_given [OF assms(2)])
next
  case D_test
  with assms(1) show ?thesis
    by (auto simp: monitor_turns intro: exclusive_given [OF assms(2)] exclusive_kept [OF assms(2)] split: if_split_asm)
next
  case (D_handle rd)
  with assms(1) show ?thesis by (auto simp: dispatchHandler_def intro: exclusive_kept [OF assms(2)] split: option.split_asm)
qed (use assms(1) in \<open>auto simp: monitor_turns intro: exclusive_kept [OF assms(2)]\<close>)

lemma exclusive_client:
  assumes "addRequest_turn i m = Some m'" "i < length (g_clients m)" "exclusive m"
  shows "exclusive m'"
proof (cases "client_holds (g_clients m ! i)")
  case True
  with assms(2) have "i \<in> holding (g_clients m)" by (simp add: holding_def)
  from client_alone [OF assms(3) this] True assms(1,2) show ?thesis
    by (cases "g_clients m ! i") (auto simp: monitor_turns exclusive_def)
next
  case False
  then have out: "holding (g_clients m) - {i} = holding (g_clients m)" by (simp add: holding_def)
  show ?thesis
  proof (cases "g_clients m ! i")
    case (C_lock rd)
    with assms(1) have free: "g_mutex m = None"
      and m': "m' = m\<lparr>g_mutex := Some (Client i), g_clients := (g_clients m)[i := C_push rd]\<rparr>"
      by (auto simp: monitor_turns)
    from free assms(3) have "holding (g_clients m) = {}" "\<not> disp_holds (g_disp m)" by (simp_all add: exclusive_def)
    with assms(2) show ?thesis by (simp add: m' exclusive_def)
  next
    case C_notify
    with assms(1) have "m' = m\<lparr>g_sleepers := condition_notify 0 (g_sleepers m), g_clients := (g_clients m)[i := C_idle]\<rparr>"
      by (simp add: monitor_turns)
    with assms(2,3) out show ?thesis by (simp add: exclusive_def)
  next
    case C_idle
    with assms(1) show ?thesis by (simp add: addRequest_turn_def)
  qed (use False in simp_all)
qed

lemma no_store:
  "holding (g_clients m) = {} \<Longrightarrow> clients_know (m\<lparr>g_queue := q\<rparr>)"
  unfolding clients_know_def by (force simp: holding_def)

lemma inv_dispatcher:
  assumes "dispatchHandler h m = Some m'" "monitor_inv m"
  shows "monitor_inv m'"
proof -
  from assms(2) have inv: "exclusive m" "disp_knows (g_disp m) (g_queue m) (g_quit m)" "clients_know m" "will_wake m"
    by (simp_all add: monitor_inv_def)
  have "exclusive m'" using assms(1) inv(1) by (rule exclusive_dispatcher)
  moreover have "disp_knows (g_disp m') (g_queue m') (g_quit m')"
    using assms(1) inv(2) by (cases "g_disp m") (auto simp: monitor_turns split: if_split_asm option.split_asm)
  moreover have "clients_know m'"
  proof (cases "g_disp m")
    case (D_erase q)
    with inv(1) have "holding (g_clients m) = {}" by (simp add: exclusive_def)
    from no_store [OF this, of "tl q"] assms(1) D_erase show ?thesis by (auto simp: monitor_turns clients_know_def)
  qed (use assms(1) inv(3) in \<open>auto simp: monitor_turns clients_know_def split: if_split_asm option.split_asm\<close>)
  moreover have "will_wake m'"
    using assms(1) inv(2,4)
    by (cases "g_disp m") (auto simp: monitor_turns will_wake_def split: if_split_asm option.split_asm)
  ultimately show ?thesis by (simp add: monitor_inv_def)
qed

lemma disp_knows_outside: "\<not> disp_holds pc \<Longrightarrow> disp_knows pc q b \<Longrightarrow> disp_knows pc q' b"
  by (cases pc) simp_all

lemma client_store:
  assumes "g_clients m ! i = C_store rd q" "i < length (g_clients m)" "monitor_inv m"
  shows "q = g_queue m" "\<not> disp_holds (g_disp m)" "holding (g_clients m) = {i}"
proof -
  from assms(1,2) have "i \<in> holding (g_clients m)" by (simp add: holding_def)
  with client_alone assms(3) show "\<not> disp_holds (g_disp m)" "holding (g_clients m) = {i}" by (auto simp: monitor_inv_def)
  from assms show "q = g_queue m" by (auto simp: monitor_inv_def clients_know_def)
qed

lemma clients_know_other:
  "clients_know m \<Longrightarrow> i < length (g_clients m) \<Longrightarrow> g_clients m' = (g_clients m)[i := pc] \<Longrightarrow> g_queue m' = g_queue m \<Longrightarrow>
   (\<And>rd q. pc = C_store rd q \<Longrightarrow> q = g_queue m) \<Longrightarrow> clients_know m'"
  by (auto simp: clients_know_def nth_list_update)

lemma will_wake_other:
  "will_wake m \<Longrightarrow> i < length (g_clients m) \<Longrightarrow> g_clients m' = (g_clients m)[i := pc] \<Longrightarrow> g_queue m' = g_queue m \<Longrightarrow>
   g_sleepers m' = g_sleepers m \<Longrightarrow> g_disp m' = g_disp m \<Longrightarrow> pc = C_notify \<or> g_clients m ! i \<notin> {C_unlock, C_notify} \<Longrightarrow> will_wake m'"
  by (auto simp: will_wake_def set_update_memI set_update_other)

lemma inv_client:
  assumes "addRequest_turn i m = Some m'" "i < length (g_clients m)" "monitor_inv m"
  shows "monitor_inv m'"
proof -
  from assms(3) have inv: "exclusive m" "disp_knows (g_disp m) (g_queue m) (g_quit m)" "clients_know m" "will_wake m"
    by (simp_all add: monitor_inv_def)
  have "exclusive m'" using assms(1,2) inv(1) by (rule exclusive_client)
  moreover have "disp_knows (g_disp m') (g_queue m') (g_quit m') \<and> clients_know m' \<and> will_wake m'"
  proof (cases "g_clients m ! i")
    case (C_store rd q)
    note store = client_store [OF C_store assms(2,3)]
    have m': "m' = m\<lparr>g_queue := q @ [rd], g_submitted := g_submitted m @ [rd], g_clients := (g_clients m)[i := C_unlock]\<rparr>"
      using assms(1) C_store by (simp add: monitor_turns)
    have "g_clients m ! j \<noteq> C_store rd' q'" if "j < length (g_clients m)" "j \<noteq> i" for j rd' q'
      using store(3) that by (force simp: holding_def)
    then have "(g_clients m)[i := C_unlock] ! j \<noteq> C_store rd' q'" if "j < length (g_clients m)" for j rd' q'
      using that assms(2) by (cases "j = i") auto
    then have "clients_know m'" by (simp add: m' clients_know_def)
    moreover have "will_wake m'" using inv(4) assms(2) by (auto simp: m' will_wake_def set_update_memI)
    ultimately show ?thesis using disp_knows_outside [OF store(2) inv(2)] by (simp add: m')
  next
    case (C_push rd)
    with assms(1,2) inv show ?thesis
      by (auto simp: monitor_turns intro: clients_know_other will_wake_other)
  next
    case (C_lock rd)
    with assms(1,2) inv show ?thesis
      by (auto simp: monitor_turns intro: clients_know_other will_wake_other)
  next
    case C_unlock
    with assms(1,2) inv show ?thesis
      by (auto simp: monitor_turns intro: clients_know_other will_wake_other)
  next
    case C_notify
    with assms(1,2) inv have "will_wake m'" by (auto simp: monitor_turns will_wake_def)
    with C_notify assms(1,2) inv show ?thesis by (auto simp: monitor_turns intro: clients_know_other)
  next
    case C_idle
    with assms(1) show ?thesis by (simp add: addRequest_turn_def)
  qed
  ultimately show ?thesis by (simp add: monitor_inv_def)
qed

lemma inv_own: "monitor_own h m m' \<Longrightarrow> monitor_inv m \<Longrightarrow> monitor_inv m'"
  by (erule monitor_own.cases) (auto intro: inv_dispatcher inv_client)

lemma inv_call:
  assumes "i < length (g_clients m)" "g_clients m ! i = C_idle" "monitor_inv m"
  shows "monitor_inv (client_at i (C_lock rd) m)"
proof -
  from assms(2) have "i \<notin> holding (g_clients m)" by (simp add: holding_def)
  with assms show ?thesis
    by (auto simp: monitor_inv_def client_at_def exclusive_def intro: clients_know_other will_wake_other)
qed

lemma disp_knows_quit: "disp_knows pc q b \<Longrightarrow> disp_knows pc q True"
  by (cases pc) auto

lemma inv_step:
  assumes "monitor_step h m m'" "monitor_inv m"
  shows "monitor_inv m'"
  using assms(1)
proof (cases rule: monitor_step.cases)
  case own
  then show ?thesis using assms(2) by (rule inv_own)
next
  case (call i rd)
  then show ?thesis using inv_call assms(2) by blast
next
  case spurious
  with assms(2) show ?thesis by (simp add: monitor_inv_def exclusive_def clients_know_def will_wake_def)
next
  case destroy
  with assms(2) show ?thesis
    by (cases "g_dtor m")
       (auto simp: provider_dtor_def notify_one_def monitor_inv_def exclusive_def clients_know_def will_wake_def intro: disp_knows_quit)
qed

lemma monitor_reach_inv: "monitor_reach h n s0 m \<Longrightarrow> monitor_inv m"
  by (induction rule: monitor_reach.induct) (auto intro: monitor_inv_init inv_step)

section \<open>The atomic steps of the dispatcher\<close>

fun rest_queue :: "disp_pc \<Rightarrow> request_data list \<Rightarrow> request_data list" where
  "rest_queue D_pop queue = tl queue"
| "rest_queue (D_erase q) queue = tl q"
| "rest_queue pc queue = queue"

fun thread_at :: "disp_pc \<Rightarrow> request_data list \<Rightarrow> bool \<Rightarrow> thread \<Rightarrow> bool" where
  "thread_at D_pop queue quit t \<longleftrightarrow> t = Busy (hd queue)"
| "thread_at (D_erase q) queue quit t \<longleftrightarrow> t = Busy (hd q)"
| "thread_at (D_unlock rd) queue quit t \<longleftrightarrow> t = Busy rd"
| "thread_at (D_handle rd) queue quit t \<longleftrightarrow> t = Busy rd"
| "thread_at D_relock queue quit t \<longleftrightarrow> t = Waiting \<or> t = Stopped \<and> quit"
| "thread_at D_test queue quit t \<longleftrightarrow> t = Waiting \<or> t = Stopped \<and> quit"
| "thread_at D_done queue quit t \<longleftrightarrow> t = Stopped"
| "thread_at pc queue quit t \<longleftrightarrow> t = Waiting"

text \<open>A state with locks stands for a state of the dispatcher.\<close>

definition implements :: "'s monitor \<Rightarrow> 's dispatcher \<Rightarrow> bool" where
  "implements m d \<longleftrightarrow> mQueue d = rest_queue (g_disp m) (g_queue m) \<and> mQuit d = g_quit m \<and> mState d = g_state m \<and> emitted d = g_emitted m
     \<and> submitted d = g_submitted m \<and> thread_at (g_disp m) (g_queue m) (g_quit m) (mThread d)"

lemma implements_frame:
  "implements m d \<Longrightarrow> g_disp m' = g_disp m \<Longrightarrow> g_queue m' = g_queue m \<Longrightarrow> g_quit m' = g_quit m \<Longrightarrow> g_state m' = g_state m \<Longrightarrow>
   g_emitted m' = g_emitted m \<Longrightarrow> g_submitted m' = g_submitted m \<Longrightarrow> implements m' d"
  by (simp add: implements_def)

lemma implements_dispatcher:
  assumes "dispatchHandler h m = Some m'" "monitor_inv m" "implements m d"
  shows "implements m' d \<or> (\<exists>d'. disp_step h d d' \<and> implements m' d')"
proof (cases "g_disp m")
  case D_take
  show ?thesis
  proof (cases "g_queue m \<noteq> [] \<and> \<not> g_quit m")
    case True
    with assms D_take have "dispatch_wake d = Some (d\<lparr>mThread := Busy (hd (mQueue d)), mQueue := tl (mQueue d)\<rparr>)"
      by (simp add: implements_def dispatch_wake_def)
    moreover have "implements m' (d\<lparr>mThread := Busy (hd (mQueue d)), mQueue := tl (mQueue d)\<rparr>)"
      using assms D_take True by (auto simp: implements_def monitor_turns)
    ultimately show ?thesis by (blast intro: disp_step.wake)
  qed (use assms D_take in \<open>auto simp: implements_def monitor_turns\<close>)
next
  case (D_handle rd)
  with assms obtain es s' where h: "h rd (g_state m) = Some (es, s')"
    "m' = m\<lparr>g_state := s', g_emitted := g_emitted m @ es, g_disp := D_relock\<rparr>"
    by (auto simp: monitor_turns split: option.splits)
  let ?d = "d\<lparr>mThread := (if mQuit d then Stopped else Waiting), mState := s', emitted := emitted d @ es\<rparr>"
  have "dispatch_finish h d = Some ?d" "implements m' ?d"
    using assms(3) D_handle h by (auto simp: implements_def dispatch_finish_def)
  then show ?thesis by (blast intro: disp_step.finish)
next
  case D_test
  show ?thesis
  proof (cases "g_quit m \<and> mThread d = Waiting")
    case True
    with assms D_test have "dispatch_wake d = Some (d\<lparr>mThread := Stopped\<rparr>)" "implements m' (d\<lparr>mThread := Stopped\<rparr>)"
      by (auto simp: implements_def dispatch_wake_def monitor_turns)
    then show ?thesis by (blast intro: disp_step.wake)
  qed (use assms D_test in \<open>auto simp: implements_def monitor_turns split: if_splits\<close>)
qed (use assms in \<open>auto simp: implements_def monitor_turns monitor_inv_def split: if_splits\<close>)

lemma implements_client:
  assumes "addRequest_turn i m = Some m'" "i < length (g_clients m)" "monitor_inv m" "implements m d"
  shows "implements m' d \<or> (\<exists>d'. disp_step h d d' \<and> implements m' d')"
proof (cases "g_clients m ! i")
  case (C_store rd q)
  note store = client_store [OF C_store assms(2,3)]
  then have "implements m' (addRequest rd d)"
    using assms(1,4) C_store by (cases "g_disp m") (auto simp: implements_def monitor_turns addRequest_def)
  then show ?thesis by (blast intro: disp_step.submit)
qed (use assms(1) in \<open>auto simp: monitor_turns intro!: implements_frame [OF assms(4)]\<close>)

lemma implements_step:
  assumes "monitor_step h m m'" "monitor_inv m" "implements m d"
  shows "implements m' d \<or> (\<exists>d'. disp_step h d d' \<and> implements m' d')"
  using assms(1)
proof (cases rule: monitor_step.cases)
  case own
  then show ?thesis
  proof (cases rule: monitor_own.cases)
    case dispatcher
    then show ?thesis using assms(2,3) by (rule implements_dispatcher)
  next
    case (client i)
    from client(2,1) assms(2,3) show ?thesis by (rule implements_client)
  qed
next
  case (call i rd)
  then show ?thesis by (auto simp: client_at_def intro!: implements_frame [OF assms(3)])
next
  case spurious
  then show ?thesis by (auto intro!: implements_frame [OF assms(3)])
next
  case destroy
  show ?thesis
  proof (cases "g_dtor m")
    case X_alive
    with destroy assms(3) have "implements m' (d\<lparr>mQuit := True\<rparr>)"
      by (cases "g_disp m") (auto simp: provider_dtor_def implements_def)
    then show ?thesis by (blast intro: disp_step.destroy)
  qed (use destroy in \<open>auto simp: provider_dtor_def notify_one_def intro!: implements_frame [OF assms(3)]\<close>)
qed

lemma implements_init: "implements (monitor_init n s) (dispatcher_init s)"
  by (simp add: implements_def monitor_init_def dispatcher_init_def)

lemma monitor_refines:
  "monitor_reach h n s0 m \<Longrightarrow> \<exists>d. disp_reach h s0 d \<and> implements m d"
proof (induction rule: monitor_reach.induct)
  case start
  show ?case by (intro exI [of _ "dispatcher_init s0"] conjI disp_reach.start implements_init)
next
  case (step m m')
  then obtain d where "disp_reach h s0 d" "implements m d" by blast
  with implements_step [OF step(2) monitor_reach_inv [OF step(1)]] show ?case by (meson disp_reach.step)
qed

section \<open>Every request is handled\<close>

text \<open>A sleeper that was woken has a turn of the loop before it.\<close>

fun loop_load :: "disp_pc \<Rightarrow> bool \<Rightarrow> nat" where
  "loop_load D_asleep woken = (if woken then 7 else 0)"
| "loop_load D_start woken = 7" | "loop_load D_check woken = 6" | "loop_load D_park woken = 5" | "loop_load D_take woken = 5"
| "loop_load D_pop woken = 12" | "loop_load (D_erase q) woken = 11" | "loop_load (D_unlock rd) woken = 10"
| "loop_load (D_handle rd) woken = 9" | "loop_load D_relock woken = 8" | "loop_load D_test woken = 7" | "loop_load D_done woken = 0"

fun client_load :: "client_pc \<Rightarrow> nat" where
  "client_load C_idle = 0" | "client_load C_notify = 8" | "client_load C_unlock = 9" | "client_load (C_store rd q) = 30"
| "client_load (C_push rd) = 31" | "client_load (C_lock rd) = 32"

definition clients_load :: "client_pc list \<Rightarrow> nat" where
  "clients_load cs = sum_list (map client_load cs)"

definition monitor_load :: "'s monitor \<Rightarrow> nat" where
  "monitor_load m =
     loop_load (g_disp m) (g_sleepers m = []) + 20 * length (rest_queue (g_disp m) (g_queue m)) + clients_load (g_clients m)"

lemma clients_load_update:
  "i < length cs \<Longrightarrow> clients_load (cs[i := pc]) + client_load (cs ! i) = clients_load cs + client_load pc"
  unfolding clients_load_def by (induction cs arbitrary: i) (auto simp: nth_Cons split: nat.splits)

definition monitor_live :: "'s monitor \<Rightarrow> bool" where
  "monitor_live m \<longleftrightarrow> monitor_inv m \<and> \<not> g_quit m"

lemma own_quit: "monitor_own h m m' \<Longrightarrow> g_quit m' = g_quit m"
  by (erule monitor_own.cases)
     (auto simp: monitor_turns split: disp_pc.splits client_pc.splits if_splits option.splits)

lemma dispatcher_works:
  assumes "dispatchHandler h m = Some m'" "monitor_live m"
  shows "monitor_load m' < monitor_load m"
proof -
  from assms(2) have know: "disp_knows (g_disp m) (g_queue m) False" "\<not> g_quit m"
    by (auto simp: monitor_live_def monitor_inv_def)
  from assms(2) have awake: "Dispatcher \<notin> set (g_sleepers m) \<Longrightarrow> g_sleepers m = []" "g_disp m \<noteq> D_asleep \<Longrightarrow> g_sleepers m = []"
    by (auto simp: monitor_live_def monitor_inv_def will_wake_def)
  show ?thesis
  proof (cases "g_disp m")
    case D_take
    with know obtain r q where "g_queue m = r # q" by (cases "g_queue m") auto
    with D_take assms(1) know show ?thesis by (auto simp: monitor_turns monitor_load_def)
  next
    case D_asleep
    with assms(1) awake(1) show ?thesis by (auto simp: monitor_turns monitor_load_def split: if_split_asm)
  next
    case (D_handle rd)
    with assms(1) show ?thesis by (auto simp: dispatchHandler_def monitor_load_def split: option.split_asm)
  qed (use assms(1) know awake(2) in \<open>auto simp: monitor_turns monitor_load_def\<close>)
qed

lemma rest_queue_outside: "\<not> disp_holds pc \<Longrightarrow> rest_queue pc q = q"
  by (cases pc) simp_all

lemma loop_load_woken: "loop_load pc b \<le> loop_load pc b' + 7"
  by (cases pc) simp_all

lemma client_works:
  assumes "addRequest_turn i m = Some m'" "i < length (g_clients m)" "monitor_live m"
  shows "monitor_load m' < monitor_load m"
proof -
  from assms(3) have inv: "monitor_inv m" by (simp add: monitor_live_def)
  note upd = clients_load_update [OF assms(2)]
  show ?thesis
  proof (cases "g_clients m ! i")
    case (C_store rd q)
    with client_store [OF C_store assms(2) inv] assms(1) upd [of C_unlock] show ?thesis
      by (auto simp: monitor_turns monitor_load_def rest_queue_outside)
  next
    case C_notify
    with assms(1) upd [of C_idle] loop_load_woken [of "g_disp m" "g_sleepers m' = []" "g_sleepers m = []"] show ?thesis
      by (auto simp: monitor_turns monitor_load_def)
  next
    case (C_lock rd)
    with assms(1) upd [of "C_push rd"] show ?thesis by (auto simp: monitor_turns monitor_load_def)
  next
    case (C_push rd)
    with assms(1) upd [of "C_store rd (g_queue m)"] show ?thesis by (auto simp: monitor_turns monitor_load_def)
  next
    case C_unlock
    with assms(1) upd [of C_notify] show ?thesis by (auto simp: monitor_turns monitor_load_def)
  next
    case C_idle
    with assms(1) show ?thesis by (simp add: addRequest_turn_def)
  qed
qed

interpretation monitor_work: bounded_work "monitor_own h" monitor_live monitor_load
proof
  fix m m' :: "'a monitor"
  show "monitor_live m \<Longrightarrow> monitor_own h m m' \<Longrightarrow> monitor_live m'"
    using inv_own own_quit by (fastforce simp: monitor_live_def)
  show "monitor_live m \<Longrightarrow> monitor_own h m m' \<Longrightarrow> monitor_load m' < monitor_load m"
    by (erule monitor_own.cases) (auto intro: dispatcher_works client_works)
qed

lemma dispatcher_goes_on:
  "disp_holds (g_disp m) \<Longrightarrow> g_mutex m = Some Dispatcher \<Longrightarrow> dispatchHandler h m \<noteq> None"
  by (cases "g_disp m") (simp_all add: dispatchHandler_def give_mutex_def condition_wait_def mutex_unlock_def)

lemma client_goes_on:
  "client_holds (g_clients m ! i) \<Longrightarrow> g_mutex m = Some (Client i) \<Longrightarrow> addRequest_turn i m \<noteq> None"
  by (cases "g_clients m ! i") (simp_all add: addRequest_turn_def give_mutex_def mutex_unlock_def)

text \<open>
  At rest nobody holds the mutex, nobody is in addRequest, and the dispatcher sleeps over an empty
  queue, or it is in a handler that does not return.
\<close>

lemma monitor_rest:
  assumes "monitor_live m" "\<nexists>m'. monitor_own h m m'"
  shows "(g_disp m = D_asleep \<and> g_queue m = [] \<or> (\<exists>rd. g_disp m = D_handle rd \<and> h rd (g_state m) = None))
    \<and> (\<forall>pc \<in> set (g_clients m). pc = C_idle)"
proof -
  from assms(1) have inv: "exclusive m" "disp_knows (g_disp m) (g_queue m) False" "will_wake m"
    by (auto simp: monitor_live_def monitor_inv_def)
  from assms(2) have stuck: "dispatchHandler h m = None" "\<And>i. i < length (g_clients m) \<Longrightarrow> addRequest_turn i m = None"
    by (meson monitor_own.intros not_Some_eq)+
  have free: "g_mutex m = None"
  proof (rule ccontr)
    assume "g_mutex m \<noteq> None"
    then obtain a where a: "g_mutex m = Some a" by blast
    show False
    proof (cases a)
      case Dispatcher
      with a inv(1) dispatcher_goes_on [of m h] stuck(1) show False by (auto simp: exclusive_def)
    next
      case (Client i)
      with a inv(1) have "i \<in> holding (g_clients m)" by (simp add: exclusive_def)
      with a Client client_goes_on [of m i] stuck(2) show False by (auto simp: holding_def)
    qed
  qed
  with inv(1) have out: "\<not> disp_holds (g_disp m)" "holding (g_clients m) = {}" by (simp_all add: exclusive_def)
  have idle: "pc = C_idle" if "pc \<in> set (g_clients m)" for pc
  proof -
    from that obtain i where i: "i < length (g_clients m)" "g_clients m ! i = pc" by (auto simp: in_set_conv_nth)
    with out(2) have "\<not> client_holds pc" by (auto simp: holding_def)
    with stuck(2) [OF i(1)] i(2) free show ?thesis
      by (cases pc) (simp_all add: addRequest_turn_def take_mutex_def mutex_lock_def)
  qed
  have "g_disp m = D_asleep \<and> Dispatcher \<in> set (g_sleepers m) \<or> (\<exists>rd. g_disp m = D_handle rd \<and> h rd (g_state m) = None)"
  proof (cases "g_disp m")
    case (D_handle rd)
    with stuck(1) show ?thesis by (auto simp: dispatchHandler_def split: option.splits)
  qed (use stuck(1) out(1) inv(2) free in \<open>auto simp: dispatchHandler_def take_mutex_def mutex_lock_def split: if_split_asm\<close>)
  with idle inv(3) show ?thesis by (auto simp: will_wake_def)
qed

fun client_requests :: "client_pc \<Rightarrow> request_data list" where
  "client_requests (C_lock rd) = [rd]" | "client_requests (C_push rd) = [rd]" | "client_requests (C_store rd q) = [rd]"
| "client_requests pc = []"

definition pending_requests :: "client_pc list \<Rightarrow> request_data list" where
  "pending_requests cs = concat (map client_requests cs)"

lemma pending_update:
  "i < length cs \<Longrightarrow>
   mset (pending_requests (cs[i := pc])) + mset (client_requests (cs ! i)) = mset (pending_requests cs) + mset (client_requests pc)"
  unfolding pending_requests_def by (induction cs arbitrary: i) (auto simp: nth_Cons ac_simps split: nat.splits)

lemma own_requests:
  assumes "monitor_own h m m'"
  shows "mset (g_submitted m') + mset (pending_requests (g_clients m')) = mset (g_submitted m) + mset (pending_requests (g_clients m))"
  using assms
proof (cases rule: monitor_own.cases)
  case dispatcher
  then show ?thesis by (cases "g_disp m") (auto simp: monitor_turns split: if_split_asm option.split_asm)
next
  case (client i)
  note upd = pending_update [OF client(1)]
  show ?thesis
  proof (cases "g_clients m ! i")
    case (C_store rd q)
    with client(2) upd [of C_unlock] show ?thesis by (auto simp: monitor_turns)
  next
    case C_notify
    with client(2) upd [of C_idle] show ?thesis by (auto simp: monitor_turns)
  next
    case (C_lock rd)
    with client(2) upd [of "C_push rd"] show ?thesis by (auto simp: monitor_turns)
  next
    case (C_push rd)
    with client(2) upd [of "C_store rd (g_queue m)"] show ?thesis by (auto simp: monitor_turns)
  next
    case C_unlock
    with client(2) upd [of C_notify] show ?thesis by (auto simp: monitor_turns)
  next
    case C_idle
    with client(2) show ?thesis by (simp add: addRequest_turn_def)
  qed
qed

lemma own_run:
  assumes "(monitor_own h ^^ k) m m'" "monitor_reach h n s0 m"
  shows "monitor_reach h n s0 m' \<and>
    mset (g_submitted m') + mset (pending_requests (g_clients m')) = mset (g_submitted m) + mset (pending_requests (g_clients m))"
  using assms(1)
proof (induction k arbitrary: m')
  case 0
  with assms(2) show ?case by simp
next
  case (Suc k)
  then obtain m1 where m1: "(monitor_own h ^^ k) m m1" "monitor_own h m1 m'" by auto
  with Suc.IH [OF m1(1)] own_requests [OF m1(2)] show ?case by (auto intro: monitor_reach.step monitor_step.own)
qed

lemma pending_idle: "\<forall>pc \<in> set cs. pc = C_idle \<Longrightarrow> pending_requests cs = []"
  by (auto simp: pending_requests_def)

text \<open>What was handled, what the dispatcher is handling, and what lies in the queue.\<close>

lemma handled_so_far:
  assumes "monitor_reach h n s0 m"
  shows "g_disp m = D_asleep \<Longrightarrow> g_queue m = [] \<Longrightarrow> run_all h (g_submitted m) s0 = Some (g_emitted m, g_state m)"
    and "g_disp m = D_handle rd \<Longrightarrow>
      \<exists>done. g_submitted m = done @ rd # g_queue m \<and> run_all h done s0 = Some (g_emitted m, g_state m)"
proof -
  obtain d where d: "disp_reach h s0 d" "implements m d" using monitor_refines [OF assms] by blast
  note inv = disp_inv_reach [OF d(1)]
  show "run_all h (g_submitted m) s0 = Some (g_emitted m, g_state m)" if "g_disp m = D_asleep" "g_queue m = []"
    using inv d(2) that by (auto simp: disp_inv_def implements_def in_flight_def)
  show "\<exists>done. g_submitted m = done @ rd # g_queue m \<and> run_all h done s0 = Some (g_emitted m, g_state m)"
    if "g_disp m = D_handle rd"
    using inv d(2) that by (auto simp: disp_inv_def implements_def in_flight_def)
qed

section \<open>Runs\<close>

text \<open>A run as the list of who takes a turn.\<close>

datatype turn = Turn_dispatcher | Turn_client nat | Call nat request_data | Turn_destructor

fun run_turns :: "'s handler \<Rightarrow> turn list \<Rightarrow> 's monitor \<Rightarrow> 's monitor option" where
  "run_turns h [] m = Some m"
| "run_turns h (Turn_dispatcher # ts) m = (case dispatchHandler h m of None \<Rightarrow> None | Some m' \<Rightarrow> run_turns h ts m')"
| "run_turns h (Turn_client i # ts) m =
     (if i < length (g_clients m) then (case addRequest_turn i m of None \<Rightarrow> None | Some m' \<Rightarrow> run_turns h ts m') else None)"
| "run_turns h (Call i rd # ts) m =
     (if i < length (g_clients m) \<and> g_clients m ! i = C_idle then run_turns h ts (client_at i (C_lock rd) m) else None)"
| "run_turns h (Turn_destructor # ts) m = (case provider_dtor m of None \<Rightarrow> None | Some m' \<Rightarrow> run_turns h ts m')"

lemma run_turns_reach:
  "run_turns h ts m = Some m' \<Longrightarrow> monitor_reach h n s0 m \<Longrightarrow> monitor_reach h n s0 m'"
proof (induction h ts m rule: run_turns.induct)
  case (2 h ts m)
  then show ?case by (auto split: option.split_asm intro: monitor_reach.step monitor_step.own monitor_own.dispatcher)
next
  case (3 h i ts m)
  then show ?case by (auto split: option.split_asm if_split_asm intro: monitor_reach.step monitor_step.own monitor_own.client)
next
  case (4 h i rd ts m)
  then show ?case by (auto split: if_split_asm intro: monitor_reach.step monitor_step.call)
next
  case (5 h ts m)
  then show ?case by (auto split: option.split_asm intro: monitor_reach.step monitor_step.destroy)
qed simp

text \<open>
  The notification of the destructor can be lost: it comes after the test of the predicate and
  before the dispatcher sleeps, because it is sent without the mutex. Then the thread sleeps on.
\<close>

lemma destructor_wakeup_lost:
  "\<exists>m. monitor_reach h 0 s0 m \<and> g_quit m \<and> g_dtor m = X_gone \<and> g_sleepers m = [Dispatcher] \<and> (\<nexists>m'. monitor_own h m m')"
proof -
  define m where "m = \<lparr>g_mutex = None, g_sleepers = [Dispatcher], g_queue = [], g_quit = True, g_disp = D_asleep, g_clients = [],
    g_dtor = X_gone, g_state = s0, g_emitted = [], g_submitted = []\<rparr>"
  have "run_turns h [Turn_dispatcher, Turn_dispatcher, Turn_destructor, Turn_destructor, Turn_dispatcher] (monitor_init 0 s0) = Some m"
    by (simp add: monitor_init_def Mutex_def monitor_turns mutex_lock_def mutex_unlock_def condition_wait_def provider_dtor_def m_def)
  then have "monitor_reach h 0 s0 m" using monitor_reach.start by (rule run_turns_reach)
  moreover have "\<nexists>m'. monitor_own h m m'" by (auto simp: m_def dispatchHandler_def elim!: monitor_own.cases)
  ultimately show ?thesis by (intro exI [of _ m]) (simp add: m_def)
qed

text \<open>The thread is detached and nothing joins it: it goes on with the mutex of a provider that is gone.\<close>

lemma destroyed_in_use:
  "\<exists>m m'. monitor_reach h 0 s0 m \<and> g_dtor m = X_gone \<and> dispatchHandler h m = Some m' \<and> g_mutex m' = Some Dispatcher"
proof -
  define m where "m = (monitor_init 0 s0)\<lparr>g_quit := True, g_dtor := X_gone\<rparr>"
  have "run_turns h [Turn_destructor, Turn_destructor] (monitor_init 0 s0) = Some m"
    by (simp add: monitor_init_def monitor_turns provider_dtor_def m_def)
  then have "monitor_reach h 0 s0 m" using monitor_reach.start by (rule run_turns_reach)
  then show ?thesis
    by (intro exI [of _ m] exI [of _ "m\<lparr>g_mutex := Some Dispatcher, g_disp := D_check\<rparr>"])
       (simp add: m_def monitor_init_def Mutex_def monitor_turns mutex_lock_def)
qed

section \<open>Properties\<close>

text \<open>
  C2: Every state the threads reach, one access to shared memory at a time, with any number of
  callers, spurious wake-ups and the destructor in between, stands for a state of the dispatcher
  whose calls and turns are one step each: the mutex makes push_back, and the turn of the loop up
  to the unlock, atomic, and the requests are handled in the order they were pushed.
\<close>

theorem locks_make_atomic:
  assumes "monitor_reach h n s0 m"
  shows "\<exists>d. disp_reach h s0 d \<and> implements m d"
  using assms by (rule monitor_refines)

theorem locks_make_atomic_witness:
  "\<exists>(m :: world monitor) d. g_disp m = D_pop \<and> g_queue m = [sample_request EJECT_METHOD jobject]
     \<and> disp_reach (internal_handleRequests calm_platform) empty_world d \<and> mThread d = Busy (sample_request EJECT_METHOD jobject)
     \<and> mQueue d = []"
proof -
  let ?h = "internal_handleRequests calm_platform" and ?rd = "sample_request EJECT_METHOD jobject"
  let ?ts = "Call 0 ?rd # replicate 5 (Turn_client 0) @ replicate 3 Turn_dispatcher"
  define m where "m = \<lparr>g_mutex = Some Dispatcher, g_sleepers = [], g_queue = [?rd], g_quit = False, g_disp = D_pop, g_clients = [C_idle],
    g_dtor = X_alive, g_state = empty_world, g_emitted = [], g_submitted = [?rd]\<rparr>"
  have "run_turns ?h ?ts (monitor_init 1 empty_world) = Some m"
    by (simp add: monitor_init_def Mutex_def monitor_turns mutex_lock_def mutex_unlock_def numeral_eq_Suc m_def)
  then have "monitor_reach ?h 1 empty_world m" using monitor_reach.start by (rule run_turns_reach)
  from locks_make_atomic [OF this] obtain d where d: "disp_reach ?h empty_world d" "implements m d" by blast
  then have "mThread d = Busy ?rd" "mQueue d = []" by (simp_all add: implements_def m_def)
  with d(1) have "g_disp m = D_pop \<and> g_queue m = [?rd] \<and> disp_reach ?h empty_world d \<and> mThread d = Busy ?rd \<and> mQueue d = []"
    by (simp add: m_def)
  then show ?thesis by blast
qed

text \<open>
  C3: From any reachable state in which the provider lives, whatever the order in which the
  threads take turns: they come to rest, after no more turns than the load of the state says, and
  then every request that was in addRequest has been pushed. Either the queue is empty and all
  that were ever pushed have been handled, in order, or the thread is in a handler that does not
  return from the state it was called in, all requests pushed before that one have been handled, in
  order, and those behind it lie in the queue. No wake-up of the dispatcher is lost.
\<close>

theorem pushed_requests_handled:
  assumes "monitor_reach h n s0 m" "\<not> g_quit m" "(monitor_own h ^^ k) m m'"
  shows "k \<le> monitor_load m \<and>
    ((\<nexists>m''. monitor_own h m' m'') \<longrightarrow>
       (\<forall>pc \<in> set (g_clients m'). pc = C_idle) \<and>
       mset (g_submitted m') = mset (g_submitted m) + mset (pending_requests (g_clients m)) \<and>
       (g_queue m' = [] \<and> run_all h (g_submitted m') s0 = Some (g_emitted m', g_state m') \<or>
        (\<exists>done rd. g_disp m' = D_handle rd \<and> h rd (g_state m') = None \<and>
           g_submitted m' = done @ rd # g_queue m' \<and> run_all h done s0 = Some (g_emitted m', g_state m'))))"
proof -
  have live: "monitor_live m" using assms(1,2) by (simp add: monitor_live_def monitor_reach_inv)
  from monitor_work.run_bounded [OF assms(3) live] have l: "monitor_live m'" "k \<le> monitor_load m" by auto
  from own_run [OF assms(3,1)] have reach: "monitor_reach h n s0 m'"
    "mset (g_submitted m') + mset (pending_requests (g_clients m')) = mset (g_submitted m) + mset (pending_requests (g_clients m))"
    by auto
  have "(\<forall>pc \<in> set (g_clients m'). pc = C_idle) \<and>
       mset (g_submitted m') = mset (g_submitted m) + mset (pending_requests (g_clients m)) \<and>
       (g_queue m' = [] \<and> run_all h (g_submitted m') s0 = Some (g_emitted m', g_state m') \<or>
        (\<exists>done rd. g_disp m' = D_handle rd \<and> h rd (g_state m') = None \<and>
           g_submitted m' = done @ rd # g_queue m' \<and> run_all h done s0 = Some (g_emitted m', g_state m')))"
    if "\<nexists>m''. monitor_own h m' m''"
    using monitor_rest [OF l(1) that] reach(2) pending_idle [of "g_clients m'"] handled_so_far [OF reach(1)] by fastforce
  with l(2) show ?thesis by blast
qed

theorem pushed_requests_handled_witness:
  "\<exists>m. (monitor_own (internal_handleRequests calm_platform))\<^sup>*\<^sup>*
           (client_at 0 (C_lock (sample_request EJECT_METHOD jobject)) (monitor_init 1 empty_world)) m
     \<and> g_submitted m = [sample_request EJECT_METHOD jobject] \<and> g_queue m = []
     \<and> run_all (internal_handleRequests calm_platform) [sample_request EJECT_METHOD jobject] empty_world
         = Some (g_emitted m, g_state m)"
proof -
  let ?h = "internal_handleRequests calm_platform" and ?rd = "sample_request EJECT_METHOD jobject"
  let ?m = "client_at 0 (C_lock ?rd) (monitor_init 1 empty_world)"
  have total: "?h rd s \<noteq> None" for rd s
    using internal_supported [of rd calm_platform s] internal_unsupported [of rd calm_platform s]
    by (cases "storage_methods (methodType rd)") auto
  have "monitor_reach ?h 1 empty_world ?m"
    by (rule monitor_reach.step [OF monitor_reach.start monitor_step.call]) (simp_all add: monitor_init_def)
  moreover have "\<not> g_quit ?m" by (simp add: client_at_def monitor_init_def)
  ultimately have live: "monitor_live ?m" and reach: "monitor_reach ?h 1 empty_world ?m" "\<not> g_quit ?m"
    by (simp_all add: monitor_live_def monitor_reach_inv)
  from monitor_work.rest_reached [OF live, of ?h] obtain m where m: "(monitor_own ?h)\<^sup>*\<^sup>* ?m m" "\<nexists>m''. monitor_own ?h m m''" by blast
  from m(1) obtain k where "(monitor_own ?h ^^ k) ?m m" by (auto simp: rtranclp_power)
  from pushed_requests_handled [OF reach this] m(2) total
  have "g_queue m = []" "mset (g_submitted m) = {#?rd#}" "run_all ?h (g_submitted m) empty_world = Some (g_emitted m, g_state m)"
    by (auto simp: client_at_def monitor_init_def pending_requests_def simp del: run_all.simps)
  with m(1) show ?thesis by (intro exI [of _ m]) (simp del: run_all.simps)
qed

end
