(* ===== verification/Spec2Isabelle.thy ===== *)
theory Spec2Isabelle
  imports Saf_Map Saf_Json Saf_Errors Saf_Filesystem Saf_Core Saf_Operations Saf_Dispatch Saf_Replies
    Saf_Internal Saf_Usb Saf_Upnp Saf_Network Saf_Samba Saf_GDrive Saf_Cloud Saf_Drive_Walk Saf_Luna
    Saf_Http Saf_Watch Saf_Service_Once Saf_Service_Chain Saf_Startup Saf_Utf8 Saf_Serializer Saf_Queue
    Saf_Threads Saf_Varstring Saf_Texts Saf_Gitem Saf_Request Saf_Handles Saf_Logging
    Saf_Schema Saf_Locks Saf_Monitor
begin

text \<open>
  The storage access service of webOS (com.webos.service.storageaccess), as a model of its C++
  code. The service lists, copies, moves, removes and renames files on the internal storage, on
  USB drives, in the cloud and on network drives (Samba shares and UPnP media servers). A client
  sends a method call on the bus; SAFLunaService checks it and builds a request,
  DocumentProviderManager hands the request to the provider of its storage type, the provider's
  thread takes it from a queue and handles it, and a callback of SAFLunaService turns the reply
  of the provider into the answer to the client.

  The theories, in the order they build on each other, and the files under src/src they model:

  Saf_Prelude, Saf_Map: the C++ library the code uses. std::string with find, rfind and substr
  (npos is None), std::to_string, and std::map as a sorted association list, whose contract is
  the locale \<open>std_map\<close> (interpretation \<open>om\<close>).

  Saf_Json: pbnjson values, and schemas (include/SAFLunaUtils.h). Parsing, validation and the
  reading of a value as a type it does not have are not in the repository: they are the fields
  of the record \<open>pbn\<close>, and \<open>pbn_ok\<close> states the two documented facts the service relies on.

  Saf_Errors: include/SAFErrors.h, utils/SAFErros.cpp, and the status codes of
  utils/SAFUtilityOperation.h with their translation getInternalErrorCode.

  Saf_Filesystem: std::filesystem as a tree of nodes under canonical paths, with the resolution
  of dots and symbolic links, and streams on a path. What depends on the system alone
  (permissions, faults, the size of the disk, shell commands, mount and umount) is a field of
  the record \<open>platform\<close>.

  Saf_Core: include/SA_Common.h (requests), core/DocumentProviderFactory.cpp (registry),
  core/DocumentProviderManager.cpp (routing), core/StatusHandler.cpp (observers).

  Saf_Utility, Saf_Operations: utils/SAFUtilityOperation.cpp. First the validation of paths, the
  check of a copy or move between providers and the description of files, folders and devices;
  then the objects InternalCopy, InternalMove, InternalRemove, InternalRename and
  InternalCreateDir, and the progress loop of the providers with its contract, the locale
  \<open>transfer_job\<close> (interpretations \<open>copy_job\<close> and \<open>move_job\<close>).

  Saf_Dispatch, Saf_Replies: what the providers share. The queue and the thread are a step
  relation \<open>disp_step\<close> over submissions, wake-ups, ends of a request and the destructor; the
  locale \<open>document_provider\<close> is the contract of a handler with an invariant of its state, and
  its lemma \<open>drain_answers\<close> gives what every submitted request gets. Then the parts of the
  replies that the providers build in the same way, among them the page of a listing, on 32-bit
  words.
  Saf_Monitor (after Saf_Internal): the same queue and thread one access to shared memory at a
  time, with the mutex, the condition variable and any number of callers; its text is the same in
  all four providers. Its states stand for states of \<open>disp_step\<close> (\<open>implements\<close>), and its turns are
  bounded (interpretation \<open>monitor_work\<close> of \<open>bounded_work\<close>). Saf_Locks: the locks themselves, as
  common/threading.hpp wraps them.

  Saf_Internal, Saf_Usb, Saf_Network, Saf_GDrive: the providers, one definition per member
  function, and handleRequests. Each interprets \<open>document_provider\<close> on its own handler
  (\<open>internal_provider\<close>, \<open>usb_provider\<close>, \<open>network_provider\<close>, \<open>cloud_provider\<close>). A handler takes
  the request and the provider's state and gives the effects (calls of the request's callback,
  calls of other services) and the new state; None is a handler that does not return. An
  exception inside a dropped future ends the request: the effects are those sent before it.

  Saf_Http: utils/CurlClient.h and .cpp. The client and its setters, the SOAP body, and
  doInternalRequest with the write callback and the cutting of headers, over libcurl and the
  allocator as the record \<open>curl_lib\<close>.

  Saf_Upnp: providers/upnp (XmlHandler, UpnpDiscover, UpnpOperation): what the network provider
  uses of media servers. libcurl, libxml2 and gssdp are fields of the record \<open>net_env\<close>.
  Saf_Handles: the documents of an XMLHandler and the GLib objects of UpnpDiscover from
  constructor to destructor, two interpretations of the locale \<open>owner\<close>.
  Saf_Samba holds the invariant of the provider's tables of mounted shares and the facts about
  mount and eject.

  Saf_GDrive: providers/gdrive/GDriveProvider.cpp and GDriveOperation.cpp, over the Google Drive
  library as the record \<open>cloud_env\<close> (\<open>g_call\<close>: what the k-th call answers, and what it does to
  the map of the credential). Saf_Cloud: the invariant of its tables, and an answer to every
  request when the library answers (\<open>reliable\<close>). Saf_Drive_Walk: the recursion over folders,
  against a drive given as a tree.

  Saf_Watch: utils/ClientWatch.cpp, what a request holds of the bus and the main loop.

  Saf_Luna: luna/SAFLunaService.cpp, the methods on the bus with their tables, schemas and the
  reply functions. Saf_Schema: the macros of include/SAFLunaUtils.h that build the texts of the
  schemas, read back with a reader of JSON without numbers and escapes.

  Saf_Service and the five theories on it: the program as a whole. A \<open>service\<close> holds the shared
  world and tables, a dispatcher for each provider, the calls of other services that wait for
  their answer, the subscriptions, and what was received and sent; a step is a client's call, a
  wake-up or the end of a request in one of the four threads, an answer or a later update of
  another service. Saf_Service_Budget says what a handler's effects belong to and cost,
  Saf_Service_Invariant proves the invariant kept by every step, and Saf_Service_Runs, with the
  locale \<open>bounded_work\<close> of Saf_Prelude (interpretation \<open>own\<close>), what follows for the clients;
  Saf_Service_Once counts the answers of a call, and Saf_Service_Chain follows what a further answer
  of the device manager makes the program send.

  Saf_Startup: main.cpp, core/SAFManager.cpp and the constructor and destructor of
  SAFLunaService. One step is a statement of main or a signal; GLib and the bus are the record
  \<open>surroundings\<close>.

  The Google Drive library under providers/gdrive/include, as far as its code is in the headers.
  Saf_Utf8: jconer/util.hpp. Saf_Serializer: jconer/serializer.hpp on the values of
  jconer/value.hpp, its other functions in the record \<open>jconer\<close>. Saf_Queue: common/queue.hpp and
  the pool of common/threadpool.hpp, step relations over the queue, its condition variables and
  the threads (interpretation \<open>pool_end\<close> of \<open>bounded_work\<close>). Saf_Threads: common/threading.hpp
  and the jobs of all overloads. Saf_Varstring: common/varstring.hpp, the buffer as a block of
  memory. Saf_Texts: common/path.hpp, common/property.hpp and the percent encoding of
  gdrive/util.hpp. Saf_Gitem: the classes of gdrive/gitem.hpp with their members and setters.
  Saf_Request: gdrive/servicerequest.hpp and the body reader of gdrive/request.hpp; what their
  headers only declare (to_json, from_json, the transfer) is the record \<open>gdrive_lib\<close>.
  Saf_Logging: common/logging.hpp and common/loggingv2.hpp.

  What the groups of theorems show. Paging: a page is the slice of the listing that was
  asked for, never reads out of range, what a negative limit does, and that the cloud's loop
  gives the same page. Threads: the locks make a call of addRequest and a turn of the thread
  atomic and lose no wake-up; requests are handled in order, each once, up to the first whose
  handler does not return, and every supported request is answered to its own client; for the network provider only requests that are not
  for media servers, whose handling can hang or throw; for the cloud when the library
  answers and no folder lies in itself, without which the walk over the drive does not end.
  File operations: what a successful remove, rename and move does to every node of the tree,
  and that a failed move loses its source. USB ids: the three look-ups agree, and every
  listed id names its drive when serial numbers and uuids can be told apart. Samba and cloud: the tables stay in step, drives belong to the session
  that made them. Cloud ids: the walk finds exactly the paths of the drive. Bus: every
  method ends in exactly one event, and what it hands on is well-typed; the texts of the eight
  schemas read as the schemas. HTTP: what a request leaves in the client. A watch leaves at
  most the status watch the bus refuses to cancel, and the objects of the UPnP classes are released once each.
  The program: nothing is sent that was not asked for, the tables stay in step however the
  threads interleave, the work a state stands for is bounded, a program at rest has answered
  every client exactly once if it had only requests its providers answer, and what a change of the
  attached devices sends when no chain of its client is under way. Start-up: what
  is set while the loop runs, and how the process ends.
  Google Drive library: decode inverts encode and accepts nothing else; what is serialized
  is read back; a buffer holds the text its operations stand for and never writes outside
  its block (\<open>vs_text_is_text\<close>), on which rest the joining of sets, the queries
  with the attributes the setters asked for and the text the server reads; an update sends
  exactly what was changed; the pool loses and doubles no job and a postponed shutdown ends and
  delivers every result unless a producer waits for room; an AsyncMethod runs its functions in order,
  and when its destructor is defined. The lemmas beside them
  show where this code fails: producers that are forgotten, failed updates that are lost,
  objects that cannot be destroyed. Here: every call of a device but an extra command is answered to its client,
  a list from the client to its answer, and the chain over all providers that collects the
  storages.

  Bounds and fuel. \<open>walk\<close> has the 40 symbolic links the kernel follows; the
  recursion of getFileSize ends because paths are shorter than the 4096 characters of
  \<open>path_max\<close>. \<open>drain\<close> counts the steps of a thread, and twice the
  number of requests is proved to be enough. The progress loop is a partial function, proved to
  return for every copy and move; so is the walk over a cloud drive, proved to return under
  \<open>reliable\<close> and not to return when every folder lists another.
  \<open>service_load\<close> bounds the steps of the program: two for each thread a request
  goes through and one for each call it makes; \<open>pool_load\<close> bounds those of a pool
  that is shut down, \<open>monitor_load\<close> the turns of a provider's threads. The counters
  of drive ids, sizes, offsets and limits are words of the code's width, and the sum of an
  offset and a limit wraps around as the code's does in practice. The capacity of a buffer is an
  int: its operations are defined up to 2^29 bytes, which keeps it below INT_MAX.

  Not modelled: what the Google Drive library only declares, and the headers of libgupnp and
  libgssdp, because their code is not in the repository; of that library's headers the calls of
  vsnprintf, ifstream and atoi, the float overloads of its serializers and its clock; the GLib
  main loop, which is the environment; the options of the discovery that nothing sets; and the
  log of the platform. The cloud provider is over \<open>g_call\<close> and not over the
  requests of Saf_Request, since what joins them is declared only. The watch of a client is
  modelled on its own: nothing it does reaches a request. A directory whose iteration fails counts as
  one that could not be opened: the entries read before the failure, which no reply shows, are not
  kept. Of what main does not catch nothing is modelled; the constructor and attachToLoop throw
  LS::Error or std::length_error. Two providers that work on the file
  system at the same time are not interleaved: each handler, and each reply function of the main
  loop, is one step. JSON values are values, where the code's share their members: an update of
  the attached devices that comes while the chain of listStorageProviders runs can write into
  the request of the chain, which the model does not show (\<open>orderly_reach\<close> are the runs
  without such an update). The destructors that stop the threads
  at the end are steps of \<open>disp_step\<close> and \<open>monitor_step\<close>, not of the
  program's \<open>service_step\<close>. A credential is taken to do nothing when it is made;
  what the library does with it later is \<open>g_call\<close>.
\<close>

section \<open>From the client to the answer\<close>

lemma internal_list_one:
  "\<exists>j. internal_listFolderContents pf rd w = Some ([Reply rd j], w)"
  by (simp add: internal_listFolderContents_def Let_def)

lemma luna_list_queued:
  assumes "pbn_ok pf" "all_registered fs" "luna_list pf sess fs m = [Queued p rd]"
  shows "methodType rd = LIST_METHOD" "cb rd = onListReply" "subs rd = m"
    "\<exists>r. dom_parse pf (payload m) = Some r \<and> getStorageDeviceType r \<noteq> INVALID"
    "omap_find (storageType rd) fs = Some p"
proof -
  obtain r where r: "parsePayload pf (payload m) list_schema = Some r"
    using assms(3) by (auto simp: luna_list_def respondWithError_def split: option.splits)
  have t: "getStorageDeviceType r = storage_type_of (asString pf (jget r ''storageType''))"
    using parsed_type [OF assms(1) r] by (simp add: list_schema_def)
  let ?rd = "REQUEST_BUILDER sess LIST_METHOD r onListReply m"
  from assms(3) r t have g: "getStorageDeviceType r \<noteq> INVALID" "submit_request pf fs ?rd = [Queued p rd]"
    by (auto simp: luna_list_def respondWithError_def Let_def split: if_splits)
  then have "rd = ?rd \<and> createDocumentProvider fs (storageType ?rd) = Some p"
    using manager_registered [OF assms(2), of ?rd pf]
    by (auto simp: submit_request_def REQUEST_BUILDER_def)
  then show "methodType rd = LIST_METHOD" "cb rd = onListReply" "subs rd = m"
    "omap_find (storageType rd) fs = Some p"
    by (simp_all add: REQUEST_BUILDER_def createDocumentProvider_def)
  show "\<exists>r. dom_parse pf (payload m) = Some r \<and> getStorageDeviceType r \<noteq> INVALID"
    using r g(1) by (auto simp: parsePayload_def split: option.splits if_splits)
qed

text \<open>
  C15: A list that the service hands to the internal provider is answered: the provider's thread, from
  rest, handles it in two steps, changes nothing, sends exactly one reply, and the callback passes
  that reply on, unchanged, to the client whose message it was.
\<close>

theorem list_answered_end_to_end:
  assumes "pbn_ok pf" "all_registered fs" "luna_list pf sess fs m = [Queued InternalStorageProvider rd]"
  shows "\<exists>d' j. drain (internal_handleRequests pf) 2 (addRequest rd (dispatcher_init w)) = Some d'
     \<and> emitted d' = [Reply rd j] \<and> mState d' = w \<and> luna_reply pf sess fs rd j = [Responded m j]"
proof -
  note q = luna_list_queued [OF assms]
  obtain j where "internal_listFolderContents pf rd w = Some ([Reply rd j], w)"
    using internal_list_one by blast
  then have "internal_handleRequests pf rd w = Some ([Reply rd j], w)"
    using q(1) by (simp add: internal_handleRequests_def)
  from drain_one [of "internal_handleRequests pf", OF this]
  obtain d' where d': "drain (internal_handleRequests pf) 2 (addRequest rd (dispatcher_init w)) = Some d'"
    "emitted d' = [Reply rd j]" "mState d' = w" by blast
  from q(4) obtain r where "dom_parse pf (payload m) = Some r" "known_type (getStorageDeviceType r)"
    using storage_type.exhaust known_type_def by metis
  then have "luna_reply pf sess fs rd j = [Responded m j]"
    using q(2,3) by (simp add: luna_reply_def luna_onListReply_def relay_reply_def)
  with d' show ?thesis by blast
qed

text \<open>
  C17: The chain behind listStorageProviders asks internal storage, cloud and network after USB, one
  at a time and in this order, and the client gets one answer that holds the four results in the
  order in which they were asked for.
\<close>

theorem storages_collected_in_order:
  assumes "all_registered fs" "isObject root" "jget root ''storageType'' = JStr ''usb''" "jfind root ''response'' = Some u"
  shows "\<exists>rd1 rd2 rd3.
     luna_onListOfStoragesReply pf sess fs root m = [Queued InternalStorageProvider rd1]
   \<and> luna_onListOfStoragesReply pf sess fs (params (with_response i rd1)) m = [Queued GDriveProvider rd2]
   \<and> luna_onListOfStoragesReply pf sess fs (params (with_response c rd2)) m = [Queued NetworkProvider rd3]
   \<and> luna_onListOfStoragesReply pf sess fs (params (with_response n rd3)) m =
       [Responded m (jputs [(''returnValue'', JBool True), (''storageProviders'', JArr [u, i, c, n])] jobject)]"
proof -
  note f = registered_provider [OF assms(1)]
  have ty: "getStorageDeviceType j = storage_type_of s" if "jget j ''storageType'' = JStr s" for j s
    using that by (simp add: getStorageDeviceType_def)
  have u: "jget root ''response'' = u" "hasKey root ''response''" using assms(4) by (simp_all add: jget_def hasKey_def)
  show ?thesis using assms(1-3) u f
    by (simp add: luna_onListOfStoragesReply_def ty next_registered createDocumentProvider_def with_response_def
        REQUEST_BUILDER_def collect_storage_def)
qed

text \<open>A client that lists the root of the internal storage.\<close>

definition list_call :: json where
  "list_call = JObj [(''storageType'', JStr ''internal''), (''driveId'', JStr ''INTERNAL_STORAGE''),
     (''path'', JStr ''/tmp''), (''offset'', JNum 1), (''limit'', JNum 10)]"

lemma list_call_queued:
  "\<exists>rd. luna_list (parsing list_call) (\<lambda>m. ''root'') (register_all registrations) m = [Queued InternalStorageProvider rd]"
proof -
  let ?pf = "parsing list_call"
  have r: "parsePayload ?pf (payload m) list_schema = Some list_call"
    by (simp add: parsePayload_def conforms_def list_schema_def list_call_def)
  have g: "jget list_call ''storageType'' = JStr ''internal''" "jget list_call ''path'' = JStr ''/tmp''"
    "jget list_call ''driveId'' = JStr ''INTERNAL_STORAGE''" "asInt ?pf (jget list_call ''offset'') = 1"
    "asInt ?pf (jget list_call ''limit'') = 10"
    by (simp_all add: list_call_def jget_def asInt_def)
  have t: "getStorageDeviceType list_call = INTERNAL" by (simp add: getStorageDeviceType_def g)
  show ?thesis
    using registered_provider [OF all_registered_start]
    by (simp add: luna_list_def r g Let_def submit_request_def manager_addRequest_def REQUEST_BUILDER_def t
        createDocumentProvider_def)
qed

theorem list_answered_end_to_end_witness:
  "\<exists>rd d' j. drain (internal_handleRequests (parsing list_call)) 2 (addRequest rd (dispatcher_init empty_world)) = Some d'
     \<and> emitted d' = [Reply rd j]
     \<and> luna_reply (parsing list_call) (\<lambda>m. ''root'') (register_all registrations) rd j
       = [Responded \<lparr>payload = [], token = 7\<rparr> j]"
proof -
  obtain rd where "luna_list (parsing list_call) (\<lambda>m. ''root'') (register_all registrations) \<lparr>payload = [], token = 7\<rparr>
      = [Queued InternalStorageProvider rd]"
    using list_call_queued by blast
  from list_answered_end_to_end [OF parsing_simps(1) all_registered_start this] show ?thesis by blast
qed

theorem storages_collected_in_order_witness:
  "\<exists>rd1. luna_onListOfStoragesReply calm_platform (\<lambda>m. ''root'') (register_all registrations)
      (JObj [(''storageType'', JStr ''usb''), (''response'', jarray)]) \<lparr>payload = [], token = 7\<rparr>
    = [Queued InternalStorageProvider rd1]"
proof -
  let ?root = "JObj [(''storageType'', JStr ''usb''), (''response'', jarray)]"
  have r: "isObject ?root" "jget ?root ''storageType'' = JStr ''usb''" "jfind ?root ''response'' = Some jarray"
    by (simp_all add: jget_def)
  from storages_collected_in_order [OF all_registered_start r, where i = jarray and c = jarray and n = jarray]
  show ?thesis by blast
qed

section \<open>Every call of a device\<close>

text \<open>
  What a provider does for a request brings its client an answer: a reply is turned into an answer to
  the message by the request's callback, at once; a call of another service, whatever that service
  then answers in JSON and whatever state the program is in by then, makes the reply function do one
  thing, which brings an answer in turn. The definition is inductive: the calls come to an end.
\<close>

inductive brings_answer :: "host \<Rightarrow> lsmsg \<Rightarrow> effect \<Rightarrow> bool" for h m where
  reply: "callback h rd j = [Responded m j'] \<Longrightarrow> brings_answer h m (Reply rd j)"
| call: "(\<And>message st. dom_parse (h_sys h) message \<noteq> None \<Longrightarrow>
      \<exists>e. fst (call_reply h k rd message st) = [e] \<and> brings_answer h m e) \<Longrightarrow>
    brings_answer h m (LSCall u p k rd)"

lemma call_reply_answers:
  "call_reply h k rd message st = (es, st') \<Longrightarrow> e \<in> set es \<Longrightarrow> answers_to rd e"
  by (cases k) (auto simp: call_reply_def usb_onListStoragesMethodReply_def usb_onGetPropertiesReply_def usb_onReply_def
      internal_onReply_def next_call_def answers_to_def Let_def split: option.splits prod.splits if_splits)

lemma reply_brings: "\<not> collecting rd \<Longrightarrow> brings_answer h (subs rd) (Reply rd j)"
  using luna_reply_one [of rd "h_sys h" "h_session h" "h_registry h" j]
  by (auto simp: callback_def collecting_def intro: brings_answer.reply)

text \<open>The load of a call bounds the calls that follow it.\<close>

lemma call_brings:
  assumes "all_registered (h_registry h)"
  shows "\<not> collecting rd \<Longrightarrow> call_ok (k, rd) \<Longrightarrow> brings_answer h (subs rd) (LSCall u p k rd)"
proof (induction "call_load (k, rd)" arbitrary: u p k rd rule: less_induct)
  case less
  show ?case
  proof (rule brings_answer.call)
    fix message st
    assume json: "dom_parse (h_sys h) message \<noteq> None"
    obtain es st' where r: "call_reply h k rd message st = (es, st')" by fastforce
    note bud = call_in_budget [OF assms less.prems(2) r]
    obtain e where es: "es = [e]" using call_one [OF r] bud(3) [OF json] by (cases es) auto
    have e: "answers_to rd e" using call_reply_answers [OF r] es by simp
    have "brings_answer h (subs rd) e"
    proof (cases e)
      case (Reply rd' j)
      with e less.prems(1) reply_brings [of rd' h j] show ?thesis by (simp add: answers_to_def collecting_def)
    next
      case (LSCall u' p' k' rd')
      with bud(1,2) es have "call_ok (k', rd')" "call_load (k', rd') < call_load (k, rd)" by simp_all
      with less.hyps [of k' rd' u' p'] LSCall e less.prems(1) show ?thesis by (simp add: answers_to_def collecting_def)
    qed
    with r es show "\<exists>e. fst (call_reply h k rd message st) = [e] \<and> brings_answer h (subs rd) e" by simp
  qed
qed

text \<open>
  C9: Every request that a method of a device hands to a provider, an extra command apart, is
  answered to the client that called, in every reachable state of the program: the provider's
  thread handles it in two steps and does something, and each thing it does brings the client an
  answer, through the callback at once or, for a USB drive, through the answers of the services
  it calls, as long as they are JSON; and the client gets exactly one answer, unless it copies or
  moves to a media server. For the cloud its library must answer, and a request for the network
  must not be for a media server.
\<close>

theorem device_calls_answered:
  assumes set: "well_set h w" and reach: "service_reach h w s"
    and call: "registerService (h_sys h) (h_session h) (h_registry h) ''/device'' name = Some f" "f m = [Queued p rd]"
    and name: "name \<noteq> ''handleExtraCommand''"
    and cloud: "p = GDriveProvider \<Longrightarrow> reliable (h_cloud h) rank"
    and net: "p = NetworkProvider \<Longrightarrow> \<not> upnp_request (h_net h) rd"
  shows "\<exists>d'. drain (provider_handler h p) 2 (addRequest rd (dispatcher_init (s_store s))) = Some d' \<and> emitted d' \<noteq> []
     \<and> (\<forall>e \<in> set (emitted d'). brings_answer h m e) \<and> (media_transfer h p rd \<or> length (emitted d') = 1)"
proof -
  have ok: "service_ok s" "all_registered (h_registry h)" using well_set_reach [OF set reach] by simp_all
  note inv = service_okD(2) [OF ok(1)]
  have q: "(name, methodType rd, cb rd) \<in> set device_calls" "subs rd = m"
    using device_call_queued [OF call] by auto
  have new: "\<not> collecting rd" "request_ok p rd"
    using q(1) by (auto simp: device_calls_def collecting_def request_ok_def)
  have "answerable h p rd"
    using q(1) name net
    by (cases p) (auto simp: device_calls_def answerable_def storage_methods_def usb_methods_def cloud_methods_def network_methods_def)
  from answerable_handled [OF this inv cloud] obtain es st where
    run: "provider_handler h p rd (s_store s) = Some (es, st)" and es: "es \<noteq> []" by blast
  have "brings_answer h m e" if "e \<in> set es" for e
  proof -
    have a: "answers_to rd e" using handler_effects(1) [OF run inv] that by (simp add: list_all_iff)
    show ?thesis
    proof (cases e)
      case (Reply rd' j)
      with a new(1) q(2) reply_brings [of rd' h j] show ?thesis by (simp add: answers_to_def collecting_def)
    next
      case (LSCall u pl k rd')
      with handler_in_budget(1) [OF ok(2) new(2) run inv] that have "call_ok (k, rd')" by (auto simp: list_all_iff)
      with call_brings [OF ok(2), of rd' k] a new(1) q(2) LSCall show ?thesis by (simp add: answers_to_def collecting_def)
    qed
  qed
  moreover have "media_transfer h p rd \<or> length es = 1"
    using handler_one [OF run] es by (cases es) auto
  ultimately show ?thesis using drain_one [of "provider_handler h p", OF run] es by auto
qed

text \<open>
  An extra command for the internal storage is accepted, queued and dropped: the provider
  sends nothing, and the client waits for an answer that never comes.
\<close>

theorem extra_command_unanswered:
  assumes "registerService pf sess fs ''/device'' ''handleExtraCommand'' = Some f"
    and "f m = [Queued InternalStorageProvider rd]"
  shows "\<exists>d'. drain (internal_handleRequests env) 2 (addRequest rd (dispatcher_init w)) = Some d'
     \<and> emitted d' = [] \<and> mState d' = w"
proof -
  have "methodType rd = EXTRA_METHOD"
    using device_call_queued [OF assms] by (auto simp: device_calls_def)
  then have "internal_handleRequests env rd w = Some ([], w)"
    by (intro internal_unsupported) (simp add: storage_methods_def)
  from drain_one [of "internal_handleRequests env", OF this] show ?thesis .
qed

text \<open>An eject of the only drive of a program that knows it goes through the device manager.\<close>

definition eject_call :: json where
  "eject_call = JObj [(''storageType'', JStr ''usb''), (''driveId'', JStr ''S1-U1'')]"

theorem device_calls_answered_witness:
  "\<exists>p rd d' e. luna_eject (parsing eject_call) (\<lambda>m. ''root'') (register_all registrations) calm_message = [Queued p rd]
     \<and> drain (provider_handler (calm_host\<lparr>h_sys := parsing eject_call\<rparr>) p) 2 (addRequest rd (dispatcher_init (store_init empty_world))) = Some d'
     \<and> emitted d' = [e] \<and> brings_answer (calm_host\<lparr>h_sys := parsing eject_call\<rparr>) calm_message e"
proof -
  let ?pf = "parsing eject_call" and ?fs = "register_all registrations" and ?h = "calm_host\<lparr>h_sys := parsing eject_call\<rparr>"
  have "parsePayload ?pf (payload calm_message) eject_schema = Some eject_call"
    by (simp add: parsePayload_def conforms_def eject_schema_def eject_call_def)
  moreover have "jget eject_call ''storageType'' = JStr ''usb''" "jget eject_call ''driveId'' = JStr ''S1-U1''"
    by (simp_all add: eject_call_def jget_def)
  ultimately obtain rd where rd: "luna_eject ?pf (\<lambda>m. ''root'') ?fs calm_message = [Queued USBStorageProvider rd]"
    "methodType rd = EJECT_METHOD"
    using registered_provider [OF all_registered_start]
    by (auto simp: luna_eject_def submit_request_def manager_addRequest_def REQUEST_BUILDER_def
        createDocumentProvider_def getStorageDeviceType_def)
  have set: "well_set ?h empty_world" using calm_set by (simp add: well_set_def calm_host_def)
  have f: "registerService (h_sys ?h) (h_session ?h) (h_registry ?h) ''/device'' ''eject'' = Some (luna_eject ?pf (\<lambda>m. ''root'') ?fs)"
    by (simp add: registerService_def calm_host_def)
  have "\<not> media_transfer ?h USBStorageProvider rd" using rd(2) by (simp add: media_transfer_def to_media_server_def)
  moreover obtain d' where "drain (provider_handler ?h USBStorageProvider) 2 (addRequest rd (dispatcher_init (store_init empty_world))) = Some d'"
    "emitted d' \<noteq> []" "\<forall>e \<in> set (emitted d'). brings_answer ?h calm_message e"
    "media_transfer ?h USBStorageProvider rd \<or> length (emitted d') = 1"
    using device_calls_answered [OF set service_reach.start f rd(1)] by (auto simp: service_init_def)
  ultimately have "length (emitted d') = 1 \<and> (\<forall>e \<in> set (emitted d'). brings_answer ?h calm_message e)" by blast
  then obtain e where "emitted d' = [e]" "brings_answer ?h calm_message e" by (cases "emitted d'") auto
  with rd(1) \<open>drain _ _ _ = Some d'\<close> show ?thesis by blast
qed

text \<open>An extra command for the internal storage.\<close>

definition extra_call :: json where
  "extra_call = JObj [(''storageType'', JStr ''internal''), (''operation'', JObj [])]"

theorem extra_command_unanswered_witness:
  "\<exists>rd d'. drain (internal_handleRequests calm_platform) 2 (addRequest rd (dispatcher_init empty_world)) = Some d'
     \<and> emitted d' = []"
proof -
  let ?pf = "parsing extra_call" and ?fs = "register_all registrations" and ?m = "\<lparr>payload = [], token = 7\<rparr>"
  have f: "registerService ?pf (\<lambda>m. ''root'') ?fs ''/device'' ''handleExtraCommand'' =
      Some (luna_handleExtraCommand ?pf (\<lambda>m. ''root'') ?fs)"
    by (simp add: registerService_def)
  have "parsePayload ?pf (payload ?m) extra_schema = Some extra_call"
    by (simp add: parsePayload_def conforms_def extra_schema_def extra_call_def)
  moreover have "jget extra_call ''storageType'' = JStr ''internal''" by (simp add: extra_call_def jget_def)
  ultimately obtain rd where "luna_handleExtraCommand ?pf (\<lambda>m. ''root'') ?fs ?m = [Queued InternalStorageProvider rd]"
    using registered_provider [OF all_registered_start]
    by (simp add: luna_handleExtraCommand_def submit_request_def manager_addRequest_def REQUEST_BUILDER_def
        createDocumentProvider_def getStorageDeviceType_def)
  from extra_command_unanswered [OF f this] show ?thesis by blast
qed

end
